theory Spec2Isabelle
  imports Complex_Main "HOL-Library.Word"
begin

section \<open>JavaScript values used by the scheduler\<close>

text \<open>
  A JavaScript string is a sequence of UTF-16 code units; each code unit is a natural
  number below 65536. \<open>str\<close> writes a literal.
\<close>

type_synonym jsstring = "nat list"

definition str :: "string \<Rightarrow> jsstring" where
  "str s = map of_char s"

definition isDigit :: "nat \<Rightarrow> bool" where
  \<comment> \<open>the regular expression class \<open>\d\<close>, and a decimal digit of \<open>parseInt\<close> and \<open>Number\<close>\<close>
  "isDigit c = (48 \<le> c \<and> c \<le> 57)"

definition digitVal :: "nat \<Rightarrow> nat" where
  "digitVal c = c - 48"

definition isSpace :: "nat \<Rightarrow> bool" where
  \<comment> \<open>WhiteSpace and LineTerminator of ECMAScript: the class \<open>\s\<close>, and what \<open>trim\<close> strips\<close>
  "isSpace c = (c \<in> {9, 10, 11, 12, 13, 32, 160, 5760, 8232, 8233, 8239, 8287, 12288, 65279}
     \<or> (8192 \<le> c \<and> c \<le> 8202))"

definition trim :: "jsstring \<Rightarrow> jsstring" where
  "trim s = rev (dropWhile isSpace (rev (dropWhile isSpace s)))"

definition decimalValue :: "jsstring \<Rightarrow> nat" where
  \<comment> \<open>the value of a string of decimal digits\<close>
  "decimalValue ds = foldl (\<lambda>a c. 10 * a + digitVal c) 0 ds"

definition allDigits :: "jsstring \<Rightarrow> bool" where
  "allDigits ds = (ds \<noteq> [] \<and> list_all isDigit ds)"

fun splitOn :: "nat \<Rightarrow> jsstring \<Rightarrow> jsstring list" where
  \<comment> \<open>\<open>s.split(c)\<close> for a one-character separator: always at least one piece\<close>
  "splitOn c [] = [[]]"
| "splitOn c (x # xs) =
     (if x = c then [] # splitOn c xs
      else (case splitOn c xs of p # ps \<Rightarrow> (x # p) # ps | [] \<Rightarrow> [[x]]))"

function showNat :: "nat \<Rightarrow> jsstring" where
  \<comment> \<open>\<open>String(n)\<close> for a non-negative integer below \<open>10^21\<close>\<close>
  "showNat n = (if n < 10 then [48 + n] else showNat (n div 10) @ [48 + n mod 10])"
  by pat_completeness auto
termination
  by (relation "measure id") auto

definition showInt :: "int \<Rightarrow> jsstring" where
  "showInt i = (if i < 0 then 45 # showNat (nat (- i)) else showNat (nat i))"

definition padStart2 :: "jsstring \<Rightarrow> jsstring" where
  \<comment> \<open>\<open>s.padStart(2, '0')\<close>\<close>
  "padStart2 s = replicate (2 - length s) 48 @ s"

text \<open>
  A JavaScript number is a double. The model keeps the three special values and takes
  a finite double as the rational it denotes: arithmetic on finite values is exact, which
  is what the doubles do on the integers below \<open>2^53\<close> that times of day, weekday
  indices and lead times are. Negative zero is not distinguished from zero.
\<close>

datatype jsnum = Fin rat | PosInf | NegInf | NaN

fun js_neg :: "jsnum \<Rightarrow> jsnum" where
  "js_neg (Fin a) = Fin (- a)"
| "js_neg PosInf = NegInf"
| "js_neg NegInf = PosInf"
| "js_neg NaN = NaN"

fun js_add :: "jsnum \<Rightarrow> jsnum \<Rightarrow> jsnum" where
  "js_add NaN _ = NaN"
| "js_add _ NaN = NaN"
| "js_add (Fin a) (Fin b) = Fin (a + b)"
| "js_add PosInf NegInf = NaN"
| "js_add NegInf PosInf = NaN"
| "js_add PosInf _ = PosInf"
| "js_add _ PosInf = PosInf"
| "js_add NegInf _ = NegInf"
| "js_add _ NegInf = NegInf"

definition js_sub :: "jsnum \<Rightarrow> jsnum \<Rightarrow> jsnum" where
  "js_sub a b = js_add a (js_neg b)"

definition js_sign :: "jsnum \<Rightarrow> int" where
  "js_sign a = (case a of Fin q \<Rightarrow> (if q < 0 then - 1 else if q = 0 then 0 else 1)
     | PosInf \<Rightarrow> 1 | NegInf \<Rightarrow> - 1 | NaN \<Rightarrow> 0)"

definition js_inf :: "int \<Rightarrow> jsnum" where
  "js_inf s = (if s < 0 then NegInf else if s = 0 then NaN else PosInf)"

fun js_mul :: "jsnum \<Rightarrow> jsnum \<Rightarrow> jsnum" where
  "js_mul NaN _ = NaN"
| "js_mul _ NaN = NaN"
| "js_mul (Fin a) (Fin b) = Fin (a * b)"
| "js_mul a b = js_inf (js_sign a * js_sign b)"

fun js_div :: "jsnum \<Rightarrow> jsnum \<Rightarrow> jsnum" where
  "js_div NaN _ = NaN"
| "js_div _ NaN = NaN"
| "js_div (Fin a) (Fin b) = (if b = 0 then js_inf (js_sign (Fin a)) else Fin (a / b))"
| "js_div (Fin a) _ = Fin 0"
| "js_div a (Fin b) = js_inf (js_sign a * (if b < 0 then - 1 else 1))"
| "js_div _ _ = NaN"

fun js_lt :: "jsnum \<Rightarrow> jsnum \<Rightarrow> bool" where
  "js_lt NaN _ = False"
| "js_lt _ NaN = False"
| "js_lt (Fin a) (Fin b) = (a < b)"
| "js_lt NegInf b = (b \<noteq> NegInf)"
| "js_lt a PosInf = (a \<noteq> PosInf)"
| "js_lt _ _ = False"

fun js_floor :: "jsnum \<Rightarrow> jsnum" where
  \<comment> \<open>\<open>Math.floor\<close>\<close>
  "js_floor (Fin a) = Fin (of_int \<lfloor>a\<rfloor>)"
| "js_floor a = a"

definition truncRat :: "rat \<Rightarrow> int" where
  "truncRat q = (if q < 0 then \<lceil>q\<rceil> else \<lfloor>q\<rfloor>)"

fun js_rem :: "jsnum \<Rightarrow> jsnum \<Rightarrow> jsnum" where
  \<comment> \<open>the operator \<open>%\<close>: the remainder has the sign of the dividend\<close>
  "js_rem (Fin a) (Fin b) = (if b = 0 then NaN else Fin (a - b * of_int (truncRat (a / b))))"
| "js_rem (Fin a) PosInf = Fin a"
| "js_rem (Fin a) NegInf = Fin a"
| "js_rem _ _ = NaN"

definition remInt :: "int \<Rightarrow> int \<Rightarrow> int" where
  \<comment> \<open>the operator \<open>%\<close> on integers, for a divisor that is not zero\<close>
  "remInt a b = sgn a * (\<bar>a\<bar> mod \<bar>b\<bar>)"

subsection \<open>\<open>Number(s)\<close> on strings\<close>

definition toDouble :: "rat \<Rightarrow> jsnum" where
  \<comment> \<open>a literal beyond the largest double rounds to an infinity\<close>
  "toDouble q = (if q \<ge> 2 ^ 1024 - 2 ^ 970 then PosInf
     else if q \<le> - (2 ^ 1024 - 2 ^ 970) then NegInf else Fin q)"

definition hexVal :: "nat \<Rightarrow> nat option" where
  "hexVal c = (if isDigit c then Some (c - 48)
     else if 97 \<le> c \<and> c \<le> 102 then Some (c - 87)
     else if 65 \<le> c \<and> c \<le> 70 then Some (c - 55) else None)"

definition radixValue :: "nat \<Rightarrow> jsstring \<Rightarrow> nat option" where
  \<comment> \<open>the digits of \<open>0x\<close>, \<open>0o\<close> and \<open>0b\<close> literals\<close>
  "radixValue r ds =
     (if ds \<noteq> [] \<and> list_all (\<lambda>c. case hexVal c of Some v \<Rightarrow> v < r | None \<Rightarrow> False) ds
      then Some (foldl (\<lambda>a c. r * a + the (hexVal c)) 0 ds) else None)"

definition nonDecimalLiteral :: "jsstring \<Rightarrow> nat option" where
  "nonDecimalLiteral s =
     (case s of
        z # x # ds \<Rightarrow>
          (if z \<noteq> 48 then None
           else if x = 120 \<or> x = 88 then radixValue 16 ds
           else if x = 111 \<or> x = 79 then radixValue 8 ds
           else if x = 98 \<or> x = 66 then radixValue 2 ds
           else None)
      | _ \<Rightarrow> None)"

definition exponentPart :: "jsstring \<Rightarrow> int option" where
  \<comment> \<open>what follows \<open>e\<close> or \<open>E\<close>: an optional sign and digits\<close>
  "exponentPart s =
     (case s of
        [] \<Rightarrow> None
      | c # ds \<Rightarrow>
          (if c = 43 then (if allDigits ds then Some (int (decimalValue ds)) else None)
           else if c = 45 then (if allDigits ds then Some (- int (decimalValue ds)) else None)
           else if allDigits s then Some (int (decimalValue s)) else None))"

definition mantissa :: "jsstring \<Rightarrow> rat option" where
  \<comment> \<open>digits, digits with a fraction, or a fraction alone\<close>
  "mantissa s =
     (let ip = takeWhile isDigit s; rest = dropWhile isDigit s in
      case rest of
        [] \<Rightarrow> (if ip = [] then None else Some (of_nat (decimalValue ip)))
      | c # fp \<Rightarrow>
          (if c = 46 \<and> list_all isDigit fp \<and> (ip \<noteq> [] \<or> fp \<noteq> [])
           then Some (of_nat (decimalValue ip) + of_nat (decimalValue fp) / 10 ^ length fp)
           else None))"

definition power10 :: "int \<Rightarrow> rat" where
  "power10 e = (if e < 0 then 1 / 10 ^ nat (- e) else 10 ^ nat e)"

definition unsignedDecimal :: "jsstring \<Rightarrow> jsnum" where
  "unsignedDecimal s =
     (if s = str ''Infinity'' then PosInf
      else
        (let m = takeWhile (\<lambda>c. c \<noteq> 101 \<and> c \<noteq> 69) s;
             e = dropWhile (\<lambda>c. c \<noteq> 101 \<and> c \<noteq> 69) s in
         case mantissa m of
           None \<Rightarrow> NaN
         | Some q \<Rightarrow>
             (case e of
                [] \<Rightarrow> toDouble q
              | _ # ex \<Rightarrow>
                  (case exponentPart ex of
                     None \<Rightarrow> NaN
                   | Some k \<Rightarrow> toDouble (q * power10 k)))))"

definition jsNumber :: "jsstring \<Rightarrow> jsnum" where
  \<comment> \<open>\<open>Number(s)\<close>: the StringNumericLiteral grammar\<close>
  "jsNumber s =
     (let t = trim s in
      if t = [] then Fin 0
      else
        (case nonDecimalLiteral t of
           Some n \<Rightarrow> toDouble (of_nat n)
         | None \<Rightarrow>
             (case t of
                [] \<Rightarrow> Fin 0
              | c # r \<Rightarrow>
                  (if c = 43 then unsignedDecimal r
                   else if c = 45 then js_neg (unsignedDecimal r)
                   else unsignedDecimal t))))"

section \<open>Time and day utilities of the routine screen\<close>

definition timeToMinutes :: "jsstring \<Rightarrow> jsnum" where
  \<comment> \<open>\<open>const [h, m] = t.split(':').map(Number); return h * 60 + m\<close>; a missing \<open>m\<close> is
      \<open>undefined\<close> and makes the sum NaN\<close>
  "timeToMinutes t =
     (case map jsNumber (splitOn 58 t) of
        h # m # _ \<Rightarrow> js_add (js_mul h (Fin 60)) m
      | _ \<Rightarrow> NaN)"

fun validTime :: "jsstring \<Rightarrow> bool" where
  \<comment> \<open>\<open>/^(\d{2}):(\d{2})$/\<close>, then the range check on the two \<open>parseInt\<close> results\<close>
  "validTime [a, b, c, d, e] =
     (isDigit a \<and> isDigit b \<and> c = 58 \<and> isDigit d \<and> isDigit e \<and>
      (let hh = decimalValue [a, b]; mm = decimalValue [d, e] in
       0 \<le> hh \<and> hh \<le> 23 \<and> 0 \<le> mm \<and> mm \<le> 59))"
| "validTime _ = False"

definition toHHMM :: "int \<Rightarrow> jsstring" where
  \<comment> \<open>every caller passes an integer: a \<open>Math.round\<close> result or a sum of \<open>parseInt\<close> results\<close>
  "toHHMM totalMinutes =
     (let mins = remInt (remInt totalMinutes 1440 + 1440) 1440;
          hh = mins div 60;
          mm = remInt mins 60
      in padStart2 (showInt hh) @ [58] @ padStart2 (showInt mm))"

definition objectPrototypeKeys :: "jsstring list" where
  \<comment> \<open>a lookup \<open>map[key]\<close> in an object literal finds these inherited members, which are
      not numbers and not \<open>undefined\<close>\<close>
  "objectPrototypeKeys = map str
     [''constructor'', ''__proto__'', ''hasOwnProperty'', ''isPrototypeOf'',
      ''propertyIsEnumerable'', ''toLocaleString'', ''toString'', ''valueOf'',
      ''__defineGetter__'', ''__defineSetter__'', ''__lookupGetter__'', ''__lookupSetter__'']"

definition dayNumbers :: "(jsstring \<times> int) list" where
  "dayNumbers =
     [(str ''Sunday'', 0), (str ''Monday'', 1), (str ''Tuesday'', 2), (str ''Wednesday'', 3),
      (str ''Thursday'', 4), (str ''Friday'', 5), (str ''Saturday'', 6)]"

definition getDayNumber :: "jsstring \<Rightarrow> int option" where
  \<comment> \<open>\<open>map[day] ?? -1\<close>; \<open>None\<close> is an inherited member of the object, which is not a number\<close>
  "getDayNumber day =
     (case map_of dayNumbers day of
        Some n \<Rightarrow> Some n
      | None \<Rightarrow> (if day \<in> set objectPrototypeKeys then None else Some (- 1)))"

record calendar_trigger =
  weekday :: "int option"
  hour :: jsnum
  minute :: jsnum
  repeats :: bool

partial_function (option) wrapBack :: "jsnum \<Rightarrow> int option \<Rightarrow> (jsnum \<times> int option) option" where
  \<comment> \<open>\<open>while (mins < 0) { mins += 24 * 60; triggerDay = (triggerDay + 6) % 7; }\<close>;
      \<open>None\<close> when the loop does not end\<close>
  "wrapBack mins triggerDay =
     (if js_lt mins (Fin 0)
      then wrapBack (js_add mins (Fin (24 * 60))) (map_option (\<lambda>d. remInt (d + 6) 7) triggerDay)
      else Some (mins, triggerDay))"

declare wrapBack.simps [code]

definition getWeeklyTrigger :: "jsstring \<Rightarrow> jsstring \<Rightarrow> jsnum \<Rightarrow> calendar_trigger option option" where
  \<comment> \<open>the outer \<open>None\<close>: the call does not return; \<open>Some None\<close>: it returns \<open>null\<close>.
      A weekday \<open>None\<close> is a value that is not a number.\<close>
  "getWeeklyTrigger day time offsetMins =
     (let dayNum = getDayNumber day in
      if (case dayNum of Some n \<Rightarrow> n < 0 | None \<Rightarrow> False) then Some None
      else
        (case wrapBack (js_sub (timeToMinutes time) offsetMins) dayNum of
           None \<Rightarrow> None
         | Some (mins, triggerDay) \<Rightarrow>
             Some (Some \<lparr>weekday = map_option (\<lambda>d. if d = 0 then 1 else d + 1) triggerDay,
                         hour = js_floor (js_div mins (Fin 60)),
                         minute = js_rem mins (Fin 60),
                         repeats = True\<rparr>)))"

subsection \<open>The wraparound rule as the specification words it\<close>

definition canonicalDays :: "jsstring list" where
  \<comment> \<open>the seven weekday names by calendar index, 0 = Sunday\<close>
  "canonicalDays = map str
     [''Sunday'', ''Monday'', ''Tuesday'', ''Wednesday'', ''Thursday'', ''Friday'', ''Saturday'']"

definition spec_weekdayIndex :: "jsstring \<Rightarrow> int" where
  "spec_weekdayIndex name = int (length (takeWhile (\<lambda>d. d \<noteq> name) canonicalDays))"

definition spec_minutes :: "jsstring \<Rightarrow> int" where
  \<comment> \<open>minutes since midnight of an \<open>HH:MM\<close> string\<close>
  "spec_minutes s = int (decimalValue (take 2 s)) * 60 + int (decimalValue (drop 3 s))"

function spec_wraparound :: "int \<Rightarrow> int \<Rightarrow> int \<times> int" where
  \<comment> \<open>while minutes are negative, add 1440 and step to the previous day modulo 7\<close>
  "spec_wraparound minutes idx =
     (if minutes < 0 then spec_wraparound (minutes + 1440) ((idx - 1) mod 7) else (minutes, idx))"
  by pat_completeness auto
termination
  by (relation "measure (\<lambda>(m, i). nat (- m))") auto

definition spec_trigger :: "int \<Rightarrow> int \<Rightarrow> calendar_trigger" where
  "spec_trigger idx minutes0 =
     (case spec_wraparound minutes0 idx of
        (minutes, i) \<Rightarrow>
          \<lparr>weekday = Some (if i = 0 then 1 else i + 1),
           hour = Fin (of_int (minutes div 60)),
           minute = Fin (of_int (minutes mod 60)),
           repeats = True\<rparr>)"

section \<open>The notification service and the lecture reminder\<close>

text \<open>
  The notification service is the device: what it answers is a parameter, and every call
  made to it is appended to a call log. A cancellation may fail; a schedule call may be
  rejected, and answers with an identifier otherwise.
\<close>

datatype permission = Granted | Provisional | Denied

datatype notification_content = Content jsstring jsstring jsstring
  \<comment> \<open>title, body, sound\<close>

datatype trigger_input =
    Weekly "int option" jsnum jsnum
  | Calendar calendar_trigger

text \<open>
  \<open>InsertLecture\<close> and \<open>Lecture\<close> of the database module. The type of the text fields
  is a parameter: the lectures of the screens hold strings, the lectures read from JSON
  hold whatever values the document gave. \<open>reminderEnabled\<close> is optional in
  \<open>InsertLecture\<close>.
\<close>

record 'v insert_lecture =
  day :: 'v
  subject :: 'v
  room :: 'v
  teacher :: 'v
  startTime :: 'v
  endTime :: 'v
  reminderEnabled :: "int option"

record 'v lecture = "'v insert_lecture" +
  id :: int

text \<open>
  \<open>RoutineItem\<close> of the routine screen; \<open>ImportedRoutine\<close> is its first seven fields.
  The field names carry the prefix \<open>r_\<close>. The type of the day is a parameter: a string in
  the items of the screen, the result of the weekday lookup in the rows of an import.
\<close>

record 'd imported_routine =
  r_title :: jsstring
  r_day :: 'd
  r_startTime :: jsstring
  r_endTime :: jsstring
  r_notes :: jsstring
  r_done :: bool
  r_reminderEnabled :: int

record routine_item = "jsstring imported_routine" +
  r_id :: jsstring
  r_reminderIds :: "jsstring list option"
  r_reminderId :: "jsstring option"

datatype call =
    GetPermissions
  | RequestPermissions
  | CancelScheduled jsstring
  | ScheduleNotification "jsstring option" notification_content trigger_input
  | AlertCall jsstring jsstring
  | PersistRoutine "routine_item list"
  | HapticsSelection
  | CloseModal

record device =
  platformWeb :: bool
  currentPermission :: permission
  requestedPermission :: permission
  cancelFails :: "jsstring \<Rightarrow> bool"
  scheduleReply :: "nat \<Rightarrow> jsstring option"
  storageFails :: bool

datatype 'a promise = Resolved 'a | Rejected

definition isScheduleCall :: "call \<Rightarrow> bool" where
  "isScheduleCall c = (case c of ScheduleNotification _ _ _ \<Rightarrow> True | _ \<Rightarrow> False)"

definition isCancelCall :: "call \<Rightarrow> bool" where
  "isCancelCall c = (case c of CancelScheduled _ \<Rightarrow> True | _ \<Rightarrow> False)"

definition requestNotificationPermissions :: "device \<Rightarrow> call list \<Rightarrow> bool \<times> call list" where
  "requestNotificationPermissions dev calls =
     (if platformWeb dev then (False, calls)
      else if currentPermission dev = Granted then (True, calls @ [GetPermissions])
      else (requestedPermission dev = Granted, calls @ [GetPermissions, RequestPermissions]))"

definition scheduleNotification ::
  "device \<Rightarrow> jsstring lecture \<Rightarrow> jsnum \<Rightarrow> call list \<Rightarrow> jsstring option promise \<times> call list" where
  \<comment> \<open>the cancellation before the schedule call carries \<open>.catch(() => {})\<close>: its failure
      changes nothing\<close>
  "scheduleNotification dev lec leadTime calls =
     (case requestNotificationPermissions dev calls of
        (granted, calls1) \<Rightarrow>
          if \<not> granted then (Resolved None, calls1)
          else
            (let dayNum = getDayNumber (day lec) in
             if (case dayNum of Some n \<Rightarrow> n < 0 | None \<Rightarrow> False) then (Resolved None, calls1)
             else
               (let startMins = timeToMinutes (startTime lec);
                    notifyMins = js_sub startMins leadTime;
                    notifyHour = js_floor (js_div notifyMins (Fin 60));
                    notifyMinute = js_rem notifyMins (Fin 60)
                in
                if js_lt notifyHour (Fin 0) \<or> js_lt notifyMinute (Fin 0) then (Resolved None, calls1)
                else
                  (let ident = str ''lecture-'' @ showInt (id lec);
                       calls2 = calls1 @ [CancelScheduled ident];
                       request = ScheduleNotification (Some ident)
                         (Content (str ''Upcoming: '' @ subject lec)
                            (room lec @ [32, 183, 32] @ teacher lec @ [32, 183, 32]
                               @ str ''Starts at '' @ startTime lec)
                            (str ''true''))
                         (Weekly (map_option (\<lambda>d. if d = 0 then 1 else d + 1) dayNum)
                            notifyHour notifyMinute)
                   in
                   (case scheduleReply dev (length calls2) of
                      None \<Rightarrow> (Rejected, calls2 @ [request])
                    | Some i \<Rightarrow> (Resolved (Some i), calls2 @ [request]))))))"

definition granted_phone :: device where
  \<comment> \<open>a phone with the permission granted, on which no call fails\<close>
  "granted_phone = \<lparr>platformWeb = False, currentPermission = Granted,
     requestedPermission = Granted, cancelFails = (\<lambda>_. False),
     scheduleReply = (\<lambda>n. Some (str ''n'' @ showNat n)), storageFails = False\<rparr>"

definition sunday_lecture :: "jsstring lecture" where
  "sunday_lecture = \<lparr>day = str ''Sunday'', subject = str ''OOP'', room = str ''CR-1'',
     teacher = str ''Dr. A'', startTime = str ''00:10'', endTime = str ''01:00'',
     reminderEnabled = Some 1, id = 7\<rparr>"

section \<open>Reminders of the routine screen\<close>

text \<open>
  An asynchronous procedure ends in one of three ways: it resolves with a value, it
  rejects, or it never settles. The calls made so far come with the first two.
\<close>

datatype 'a outcome = Done 'a "call list" | Failed "call list" | Hangs

definition andThen :: "'a outcome \<Rightarrow> ('a \<Rightarrow> call list \<Rightarrow> 'b outcome) \<Rightarrow> 'b outcome" where
  \<comment> \<open>\<open>await\<close>: a rejection or a hang of the first part is that of the whole\<close>
  "andThen r f = (case r of Done x calls \<Rightarrow> f x calls | Failed calls \<Rightarrow> Failed calls | Hangs \<Rightarrow> Hangs)"

definition callsOf :: "'a outcome \<Rightarrow> call list option" where
  "callsOf r = (case r of Done _ calls \<Rightarrow> Some calls | Failed calls \<Rightarrow> Some calls | Hangs \<Rightarrow> None)"

fun js_le :: "jsnum \<Rightarrow> jsnum \<Rightarrow> bool" where
  "js_le NaN _ = False"
| "js_le _ NaN = False"
| "js_le (Fin a) (Fin b) = (a \<le> b)"
| "js_le NegInf _ = True"
| "js_le _ PosInf = True"
| "js_le _ _ = False"

definition DAY_FULL :: "(jsstring \<times> jsstring) list" where
  "DAY_FULL =
     [(str ''Mon'', str ''Monday''), (str ''Tue'', str ''Tuesday''),
      (str ''Wed'', str ''Wednesday''), (str ''Thu'', str ''Thursday''),
      (str ''Fri'', str ''Friday''), (str ''Sat'', str ''Saturday''),
      (str ''Sun'', str ''Sunday'')]"

definition ensureNotificationPermission :: "device \<Rightarrow> call list \<Rightarrow> bool \<times> call list" where
  "ensureNotificationPermission dev calls =
     (if currentPermission dev = Granted \<or> currentPermission dev = Provisional
      then (True, calls @ [GetPermissions])
      else (requestedPermission dev = Granted \<or> requestedPermission dev = Provisional,
            calls @ [GetPermissions, RequestPermissions]))"

definition getRoutineNotificationIds :: "routine_item \<Rightarrow> jsstring list" where
  "getRoutineNotificationIds item =
     (case r_reminderIds item of
        Some (i # is) \<Rightarrow> i # is
      | _ \<Rightarrow> (case r_reminderId item of
                 Some i \<Rightarrow> (if i \<noteq> [] then [i] else [])
               | None \<Rightarrow> []))"

definition cancelScheduledNotificationAsync :: "device \<Rightarrow> jsstring \<Rightarrow> call list \<Rightarrow> unit outcome" where
  "cancelScheduledNotificationAsync dev i calls =
     (if cancelFails dev i then Failed (calls @ [CancelScheduled i])
      else Done () (calls @ [CancelScheduled i]))"

definition catchIgnore :: "unit outcome \<Rightarrow> unit outcome" where
  \<comment> \<open>\<open>.catch(() => {})\<close>\<close>
  "catchIgnore r = (case r of Failed calls \<Rightarrow> Done () calls | _ \<Rightarrow> r)"

fun cancelAll :: "device \<Rightarrow> jsstring list \<Rightarrow> call list \<Rightarrow> unit outcome" where
  \<comment> \<open>\<open>Promise.all(ids.map(id => cancel(id).catch(() => {})))\<close>: the calls are made in the
      order of the identifiers\<close>
  "cancelAll dev [] calls = Done () calls"
| "cancelAll dev (i # is) calls =
     andThen (catchIgnore (cancelScheduledNotificationAsync dev i calls)) (\<lambda>_. cancelAll dev is)"

definition cancelRoutineNotifications :: "device \<Rightarrow> routine_item \<Rightarrow> call list \<Rightarrow> unit outcome" where
  "cancelRoutineNotifications dev item calls = cancelAll dev (getRoutineNotificationIds item) calls"

definition scheduleWith ::
  "device \<Rightarrow> notification_content \<Rightarrow> calendar_trigger option option \<Rightarrow> jsstring list
     \<Rightarrow> call list \<Rightarrow> jsstring list outcome" where
  \<comment> \<open>\<open>if (trigger) { const id = await scheduleNotificationAsync(...); ids.push(id); }\<close>\<close>
  "scheduleWith dev content trig ids calls =
     (case trig of
        None \<Rightarrow> Hangs
      | Some None \<Rightarrow> Done ids calls
      | Some (Some t) \<Rightarrow>
          (case scheduleReply dev (length calls) of
             None \<Rightarrow> Failed (calls @ [ScheduleNotification None content (Calendar t)])
           | Some i \<Rightarrow> Done (ids @ [i]) (calls @ [ScheduleNotification None content (Calendar t)])))"

definition scheduleRoutineNotifications ::
  "device \<Rightarrow> routine_item \<Rightarrow> jsnum \<Rightarrow> call list \<Rightarrow> jsstring list option outcome" where
  "scheduleRoutineNotifications dev item leadMins calls =
     (case ensureNotificationPermission dev calls of
        (hasPerms, calls1) \<Rightarrow>
          if \<not> hasPerms then Done None calls1
          else
            (let body = r_day item @ [32] @ r_startTime item @ str '' - '' @ r_endTime item
                   @ (if r_notes item \<noteq> [] then [32, 8226, 32] @ r_notes item else [])
             in
             andThen
               (if js_lt (Fin 0) leadMins
                then scheduleWith dev
                       (Content (str ''Upcoming routine: '' @ r_title item) body (str ''default''))
                       (getWeeklyTrigger (r_day item) (r_startTime item) leadMins) [] calls1
                else Done [] calls1)
               (\<lambda>ids1 calls2.
                  andThen
                    (scheduleWith dev
                       (Content (str ''Start now: '' @ r_title item) body (str ''default''))
                       (getWeeklyTrigger (r_day item) (r_startTime item) (Fin 0)) ids1 calls2)
                    (\<lambda>ids2 calls3.
                       andThen
                         (scheduleWith dev
                            (Content (str ''Ended: '' @ r_title item) body (str ''default''))
                            (getWeeklyTrigger (r_day item) (r_endTime item) (Fin 0)) ids2 calls3)
                         (\<lambda>ids3 calls4. Done (if ids3 \<noteq> [] then Some ids3 else None) calls4)))))"

record form =
  f_editingId :: "jsstring option"
  f_title :: jsstring
  f_formDay :: jsstring
  f_startTime :: jsstring
  f_endTime :: jsstring
  f_notes :: jsstring
  f_reminderEnabled :: bool

definition persistRoutine :: "device \<Rightarrow> routine_item list \<Rightarrow> call list \<Rightarrow> unit outcome" where
  \<comment> \<open>the call, with its argument; the storage may fail\<close>
  "persistRoutine dev next calls =
     (if storageFails dev then Failed (calls @ [PersistRoutine next])
      else Done () (calls @ [PersistRoutine next]))"

definition withReminders ::
  "device \<Rightarrow> bool \<Rightarrow> routine_item \<Rightarrow> jsnum \<Rightarrow> call list \<Rightarrow> routine_item outcome" where
  \<comment> \<open>the block \<open>if (reminderEnabled) { ... }\<close> that both branches of \<open>saveItem\<close> share\<close>
  "withReminders dev enabled item leadTime calls =
     (if enabled then
        andThen (scheduleRoutineNotifications dev item leadTime calls)
          (\<lambda>scheduledIds calls1.
             Done (item\<lparr>r_reminderEnabled :=
                           (case scheduledIds of Some (i # is) \<Rightarrow> 1 | _ \<Rightarrow> 0),
                         r_reminderIds := Some (case scheduledIds of Some is \<Rightarrow> is | None \<Rightarrow> []),
                         r_reminderId := (case scheduledIds of Some (i # is) \<Rightarrow> Some i | _ \<Rightarrow> None)\<rparr>)
               (calls1 @ (if scheduledIds = None
                          then [AlertCall (str ''Reminder disabled'')
                                  (str ''Notification permission not granted.'')]
                          else [])))
      else Done item calls)"

definition saveItem ::
  "device \<Rightarrow> form \<Rightarrow> routine_item list \<Rightarrow> jsnum \<Rightarrow> int \<Rightarrow> call list \<Rightarrow> unit outcome" where
  \<comment> \<open>\<open>now\<close> is \<open>Date.now()\<close>; the weekday pill \<open>formDay\<close> is one of the keys of \<open>DAY_FULL\<close>\<close>
  "saveItem dev f items reminderLeadTime now calls =
     (if trim (f_title f) = [] then
        Done () (calls @ [AlertCall (str ''Missing title'') (str ''Please enter a routine title.'')])
      else if \<not> validTime (trim (f_startTime f)) \<or> \<not> validTime (trim (f_endTime f)) then
        Done () (calls @ [AlertCall (str ''Invalid time'')
                            (str ''Use 24-hour format like 07:30 and 18:45.'')])
      else if js_le (timeToMinutes (trim (f_endTime f))) (timeToMinutes (trim (f_startTime f))) then
        Done () (calls @ [AlertCall (str ''Invalid range'')
                            (str ''End time must be later than start time.'')])
      else
        (let dayName = (case map_of DAY_FULL (f_formDay f) of Some d \<Rightarrow> d | None \<Rightarrow> str ''Monday'');
             editing = (case f_editingId f of Some e \<Rightarrow> e \<noteq> [] | None \<Rightarrow> False)
         in
         if editing then
           (case find (\<lambda>i. Some (r_id i) = f_editingId f) items of
              None \<Rightarrow> Done () calls
            | Some prev \<Rightarrow>
                andThen (cancelRoutineNotifications dev prev calls)
                  (\<lambda>_ calls1.
                     andThen
                       (withReminders dev (f_reminderEnabled f)
                          (prev\<lparr>r_title := trim (f_title f), r_day := dayName,
                                r_startTime := trim (f_startTime f), r_endTime := trim (f_endTime f),
                                r_notes := trim (f_notes f),
                                r_reminderEnabled := (if f_reminderEnabled f then 1 else 0),
                                r_reminderIds := Some [], r_reminderId := None\<rparr>)
                          reminderLeadTime calls1)
                       (\<lambda>nextBase calls2.
                          andThen
                            (persistRoutine dev
                               (map (\<lambda>i. if Some (r_id i) = f_editingId f then nextBase else i) items)
                               calls2)
                            (\<lambda>_ calls3. Done () (calls3 @ [HapticsSelection, CloseModal])))))
         else
           andThen
             (withReminders dev (f_reminderEnabled f)
                \<lparr>r_title = trim (f_title f), r_day = dayName,
                 r_startTime = trim (f_startTime f), r_endTime = trim (f_endTime f),
                 r_notes = trim (f_notes f), r_done = False,
                 r_reminderEnabled = (if f_reminderEnabled f then 1 else 0),
                 r_id = showInt now, r_reminderIds = Some [], r_reminderId = None\<rparr>
                reminderLeadTime calls)
             (\<lambda>nextItem calls2.
                andThen (persistRoutine dev (items @ [nextItem]) calls2)
                  (\<lambda>_ calls3. Done () (calls3 @ [HapticsSelection, CloseModal])))))"

subsection \<open>Call logs that grow without a cancellation\<close>

definition extends :: "call list \<Rightarrow> call list \<Rightarrow> bool" where
  "extends calls calls' = (\<exists>rest. calls' = calls @ rest \<and> list_all (\<lambda>c. \<not> isCancelCall c) rest)"

definition addsNoCancel :: "call list \<Rightarrow> 'a outcome \<Rightarrow> bool" where
  "addsNoCancel calls r = (case callsOf r of None \<Rightarrow> False | Some calls' \<Rightarrow> extends calls calls')"

subsection \<open>An edit of a routine item on a phone whose cancellations all fail\<close>

definition gym_item :: routine_item where
  "gym_item = \<lparr>r_title = str ''Gym'', r_day = str ''Monday'', r_startTime = str ''07:00'',
     r_endTime = str ''08:00'', r_notes = [], r_done = False, r_reminderEnabled = 1,
     r_id = str ''42'', r_reminderIds = Some [str ''a'', str ''b''], r_reminderId = Some (str ''a'')\<rparr>"

definition gym_form :: form where
  "gym_form = \<lparr>f_editingId = Some (str ''42''), f_title = str ''Gym'', f_formDay = str ''Sun'',
     f_startTime = str ''00:10'', f_endTime = str ''09:00'', f_notes = [], f_reminderEnabled = True\<rparr>"

definition failing_cancel_phone :: device where
  "failing_cancel_phone = granted_phone\<lparr>cancelFails := (\<lambda>_. True)\<rparr>"

section \<open>The JSON lecture import\<close>






definition DAYS :: "jsstring list" where
  "DAYS = map str
     [''Monday'', ''Tuesday'', ''Wednesday'', ''Thursday'', ''Friday'', ''Saturday'', ''Sunday'']"










subsection \<open>The wire format as the specification words it\<close>






section \<open>The timetable parser of the import screen\<close>

subsection \<open>Matching text\<close>

definition lowerChar :: "nat \<Rightarrow> nat" where
  \<comment> \<open>the case folding of the flag \<open>i\<close> on the letters of the patterns below, which are
      ASCII: a code unit outside ASCII never folds to an ASCII letter\<close>
  "lowerChar c = (if 65 \<le> c \<and> c \<le> 90 then c + 32 else c)"

definition upperChar :: "nat \<Rightarrow> nat" where
  "upperChar c = (if 97 \<le> c \<and> c \<le> 122 then c - 32 else c)"

definition sameTextCI :: "jsstring \<Rightarrow> jsstring \<Rightarrow> bool" where
  "sameTextCI a b = (map lowerChar a = map lowerChar b)"

definition startsWithCI :: "jsstring \<Rightarrow> jsstring \<Rightarrow> bool" where
  "startsWithCI pat s = sameTextCI pat (take (length pat) s)"

definition endsWithCI :: "jsstring \<Rightarrow> jsstring \<Rightarrow> bool" where
  "endsWithCI pat s = (length pat \<le> length s \<and> sameTextCI pat (drop (length s - length pat) s))"

fun containsCI :: "jsstring \<Rightarrow> jsstring \<Rightarrow> bool" where
  "containsCI pat [] = (pat = [])"
| "containsCI pat (c # s) = (startsWithCI pat (c # s) \<or> containsCI pat s)"

subsection \<open>Times of the slot table\<close>

datatype meridiem = AM | PM

definition clockPrefix :: "jsstring \<Rightarrow> (jsstring \<times> jsstring \<times> jsstring) option" where
  \<comment> \<open>\<open>(\d{1,2}):(\d{2})\<close> at the start of the text: the hour digits, the minute digits and
      what follows\<close>
  "clockPrefix s =
     (case s of
        a # b # r \<Rightarrow>
          (if isDigit a \<and> b = 58 then
             (case r of
                c # d # r' \<Rightarrow> (if isDigit c \<and> isDigit d then Some ([a], [c, d], r') else None)
              | _ \<Rightarrow> None)
           else if isDigit a \<and> isDigit b then
             (case r of
                x # c # d # r' \<Rightarrow>
                  (if x = 58 \<and> isDigit c \<and> isDigit d then Some ([a, b], [c, d], r') else None)
              | _ \<Rightarrow> None)
           else None)
      | _ \<Rightarrow> None)"

definition merPrefix :: "jsstring \<Rightarrow> (jsstring \<times> jsstring) option" where
  \<comment> \<open>\<open>[AP]M\<close> with the flag \<open>i\<close> at the start of the text\<close>
  "merPrefix s =
     (case s of
        x # y # r \<Rightarrow>
          (if (lowerChar x = 97 \<or> lowerChar x = 112) \<and> lowerChar y = 109 then Some ([x, y], r)
           else None)
      | _ \<Rightarrow> None)"

definition meridiemOf :: "jsstring \<Rightarrow> meridiem" where
  \<comment> \<open>\<open>m[3].toUpperCase()\<close> of a text that \<open>[AP]M\<close> matched\<close>
  "meridiemOf m = (if map upperChar m = str ''AM'' then AM else PM)"

definition normalizeTime :: "jsstring \<Rightarrow> meridiem \<Rightarrow> jsstring" where
  \<comment> \<open>\<open>/^(\d{1,2}):(\d{2})(?:\s*([AP]M))?$/i\<close> on the trimmed text\<close>
  "normalizeTime v fallbackMeridiem =
     (let t = trim v in
      case clockPrefix t of
        None \<Rightarrow> t
      | Some (hs, ms, r) \<Rightarrow>
          (let m3 = (if r = [] then Some None
                     else (case merPrefix (dropWhile isSpace r) of
                             Some (m, r') \<Rightarrow> (if r' = [] then Some (Some m) else None)
                           | None \<Rightarrow> None))
           in
           case m3 of
             None \<Rightarrow> t
           | Some g \<Rightarrow>
               (let h = decimalValue hs;
                    mn = decimalValue ms;
                    mer = (case g of Some m \<Rightarrow> meridiemOf m | None \<Rightarrow> fallbackMeridiem);
                    h' = (if mer = AM then (if h = 12 then 0 else h)
                          else (if h < 12 then h + 12 else h))
                in padStart2 (showNat h') @ [58] @ padStart2 (showNat mn))))"

definition matchSlotHere :: "jsstring \<Rightarrow> jsstring option" where
  \<comment> \<open>\<open>S-\d+\s*\(([^)]+)\)\<close> with the flag \<open>i\<close> at the start of the text: the group\<close>
  "matchSlotHere s =
     (case s of
        x # y # r \<Rightarrow>
          (if lowerChar x = 115 \<and> y = 45 \<and> takeWhile isDigit r \<noteq> [] then
             (case dropWhile isSpace (dropWhile isDigit r) of
                p # r3 \<Rightarrow>
                  (if p = 40 \<and> takeWhile (\<lambda>c. c \<noteq> 41) r3 \<noteq> []
                      \<and> dropWhile (\<lambda>c. c \<noteq> 41) r3 \<noteq> []
                   then Some (takeWhile (\<lambda>c. c \<noteq> 41) r3) else None)
              | [] \<Rightarrow> None)
           else None)
      | _ \<Rightarrow> None)"

fun searchSlot :: "jsstring \<Rightarrow> jsstring option" where
  \<comment> \<open>the leftmost match\<close>
  "searchSlot [] = None"
| "searchSlot (c # s) =
     (case matchSlotHere (c # s) of Some g \<Rightarrow> Some g | None \<Rightarrow> searchSlot s)"

definition clockMer :: "jsstring \<Rightarrow> (jsstring \<times> jsstring) option" where
  \<comment> \<open>\<open>(\d{1,2}:\d{2}(?:[AP]M)?)\<close> at the start of the text: the group and what follows\<close>
  "clockMer s =
     (case clockPrefix s of
        None \<Rightarrow> None
      | Some (hs, ms, r) \<Rightarrow>
          (case merPrefix r of
             Some (m, r') \<Rightarrow> Some (hs @ [58] @ ms @ m, r')
           | None \<Rightarrow> Some (hs @ [58] @ ms, r)))"

definition matchRangeHere :: "jsstring \<Rightarrow> (jsstring \<times> jsstring) option" where
  \<comment> \<open>the two groups of the range pattern at the start of the text; the dash is a hyphen
      or an en dash\<close>
  "matchRangeHere s =
     (case clockMer s of
        None \<Rightarrow> None
      | Some (startRaw, r) \<Rightarrow>
          (case dropWhile isSpace r of
             d # r2 \<Rightarrow>
               (if d = 45 \<or> d = 8211 then
                  (case clockMer (dropWhile isSpace r2) of
                     None \<Rightarrow> None
                   | Some (endRaw, _) \<Rightarrow> Some (startRaw, endRaw))
                else None)
           | [] \<Rightarrow> None))"

fun searchRange :: "jsstring \<Rightarrow> (jsstring \<times> jsstring) option" where
  "searchRange [] = None"
| "searchRange (c # s) =
     (case matchRangeHere (c # s) of Some g \<Rightarrow> Some g | None \<Rightarrow> searchRange s)"

definition parseIntPrefix :: "jsstring \<Rightarrow> int option" where
  \<comment> \<open>\<open>parseInt(s, 10)\<close>: leading white space, a sign, then the digits; \<open>None\<close> is NaN\<close>
  "parseIntPrefix s =
     (let t = dropWhile isSpace s;
          neg = (case t of c # _ \<Rightarrow> c = 45 | [] \<Rightarrow> False);
          u = (case t of c # r \<Rightarrow> (if c = 45 \<or> c = 43 then r else t) | [] \<Rightarrow> []);
          ds = takeWhile isDigit u
      in if ds = [] then None
         else Some (if neg then - int (decimalValue ds) else int (decimalValue ds)))"

definition parseSlotRange :: "jsstring \<Rightarrow> (jsstring \<times> jsstring) option" where
  "parseSlotRange token =
     (case searchSlot token of
        None \<Rightarrow> None
      | Some g \<Rightarrow>
          (let raw = filter (\<lambda>c. \<not> isSpace c) g in
           case searchRange raw of
             None \<Rightarrow> None
           | Some (startRaw, endRaw) \<Rightarrow>
               (let endMeridiem = (if endsWithCI (str ''PM'') endRaw then Some PM
                                   else if endsWithCI (str ''AM'') endRaw then Some AM else None);
                    fallbackMeridiem =
                      (case endMeridiem of
                         Some m \<Rightarrow> m
                       | None \<Rightarrow>
                           (case parseIntPrefix (hd (splitOn 58 startRaw)) of
                              Some h \<Rightarrow> (if h \<ge> 8 then AM else PM)
                            | None \<Rightarrow> PM))
                in Some (normalizeTime startRaw fallbackMeridiem,
                         normalizeTime endRaw fallbackMeridiem))))"

subsection \<open>Segments and the walk over a segment\<close>

definition SECTION_ORDER :: "(nat \<times> jsstring) list" where
  "SECTION_ORDER =
     [(1, str ''M1''), (1, str ''M2''), (2, str ''M1''), (2, str ''M2''), (3, str ''M1''),
      (3, str ''M2''), (4, str ''A''), (4, str ''B''), (5, str ''A''), (5, str ''B'')]"

definition parseSemesterNumber :: "jsstring \<Rightarrow> nat option" where
  \<comment> \<open>\<open>/([1-8])/\<close>: the first digit from 1 to 8\<close>
  "parseSemesterNumber v =
     (case find (\<lambda>c. 49 \<le> c \<and> c \<le> 56) v of None \<Rightarrow> None | Some c \<Rightarrow> Some (c - 48))"

definition defaultSlots :: "(jsstring \<times> jsstring) list" where
  "defaultSlots =
     [(str ''08:00'', str ''09:20''), (str ''09:30'', str ''10:50''),
      (str ''11:00'', str ''12:20''), (str ''12:30'', str ''13:50''),
      (str ''14:00'', str ''15:20''), (str ''15:30'', str ''16:50'')]"

definition controlTokens :: "jsstring list" where
  "controlTokens =
     map str [''Section'', ''Slots'', ''Semester'',
              ''Time Table - Spring 2026 - BS Computer Science (Morning)'']
     @ DAYS @ map snd SECTION_ORDER
     @ map str [''1st Semester'', ''2nd Semester'', ''3rd Semester'', ''4th Semester'',
                ''5th Semester'', ''6th Semester'', ''7th Semester'', ''8th Semester'']"

definition roomPattern :: "jsstring \<Rightarrow> bool" where
  \<comment> \<open>\<open>/(CR-|CS Lab|DLD Lab|Lab|Room|Floor)/i\<close>\<close>
  "roomPattern r =
     (containsCI (str ''CR-'') r \<or> containsCI (str ''CS Lab'') r
      \<or> containsCI (str ''DLD Lab'') r \<or> containsCI (str ''Lab'') r
      \<or> containsCI (str ''Room'') r \<or> containsCI (str ''Floor'') r)"

definition teacherPattern :: "jsstring \<Rightarrow> bool" where
  \<comment> \<open>\<open>/^(Mr\.|Ms\.|Dr\.)/i\<close>\<close>
  "teacherPattern t =
     (startsWithCI (str ''Mr.'') t \<or> startsWithCI (str ''Ms.'') t \<or> startsWithCI (str ''Dr.'') t)"

fun daySegmentsFrom ::
  "jsstring list \<Rightarrow> jsstring list \<Rightarrow> (jsstring \<times> jsstring list) list" where
  \<comment> \<open>the loop over the tokens; the first argument is \<open>pending\<close>. What is pending at the
      end of the tokens is dropped.\<close>
  "daySegmentsFrom pending [] = []"
| "daySegmentsFrom pending (token # tokens) =
     (if token \<in> set DAYS then (token, pending) # daySegmentsFrom [] tokens
      else daySegmentsFrom (pending @ [token]) tokens)"

definition daySegments :: "jsstring list \<Rightarrow> (jsstring \<times> jsstring list) list" where
  "daySegments tokens = daySegmentsFrom [] tokens"

record walk =
  currentSemester :: nat
  currentSection :: jsstring
  sectionOrderIndex :: nat
  slotIndex :: nat
  lectures :: "jsstring insert_lecture list"
  seen :: "jsstring list"

definition resolveSection :: "nat \<Rightarrow> jsstring \<Rightarrow> nat" where
  \<comment> \<open>\<open>resolvedIndex\<close>: the index itself when its entry has the section, the first index
      from it on whose entry has the section otherwise, the index itself when there is none\<close>
  "resolveSection idx token =
     (if idx < length SECTION_ORDER \<and> snd (SECTION_ORDER ! idx) = token then idx
      else (case find (\<lambda>k. idx \<le> k \<and> snd (SECTION_ORDER ! k) = token) [0 ..< length SECTION_ORDER] of
              Some k \<Rightarrow> k
            | None \<Rightarrow> idx))"

function walkSegment ::
  "nat \<Rightarrow> jsstring \<Rightarrow> (jsstring \<times> jsstring) list \<Rightarrow> jsstring \<Rightarrow> walk \<Rightarrow> jsstring list \<Rightarrow> walk" where
  \<comment> \<open>the loop over \<open>segment.tokens\<close>, from the token at \<open>i\<close> on\<close>
  "walkSegment targetSemester targetSection slotTimes dayName w [] = w"
| "walkSegment targetSemester targetSection slotTimes dayName w (token # rest) =
     (if parseSemesterNumber token \<noteq> None \<and> endsWithCI (str ''Semester'') token then
        walkSegment targetSemester targetSection slotTimes dayName
          (w\<lparr>currentSemester := the (parseSemesterNumber token), currentSection := [],
             slotIndex := 0\<rparr>) rest
      else if token = str ''M1'' \<or> token = str ''M2'' \<or> token = str ''A'' \<or> token = str ''B'' then
        (let resolvedIndex = resolveSection (sectionOrderIndex w) token in
         walkSegment targetSemester targetSection slotTimes dayName
           (w\<lparr>currentSemester :=
                 (if resolvedIndex < length SECTION_ORDER then fst (SECTION_ORDER ! resolvedIndex)
                  else currentSemester w),
               currentSection := token, slotIndex := 0,
               sectionOrderIndex := min (resolvedIndex + 1) (length SECTION_ORDER)\<rparr>) rest)
      else
        (let roomName = (case rest of r # _ \<Rightarrow> r | [] \<Rightarrow> []) in
         if roomName = [] \<or> slotIndex w \<ge> length slotTimes then
           walkSegment targetSemester targetSection slotTimes dayName w rest
         else if token \<in> set controlTokens \<or> roomName \<in> set controlTokens then
           walkSegment targetSemester targetSection slotTimes dayName w rest
         else if \<not> roomPattern roomName then
           walkSegment targetSemester targetSection slotTimes dayName w rest
         else
           (let teacherCandidate = (case rest of _ # t # _ \<Rightarrow> t | _ \<Rightarrow> []);
                hasTeacher = teacherPattern teacherCandidate;
                teacherName = (if hasTeacher then teacherCandidate else str ''TBA'');
                slot = slotTimes ! slotIndex w;
                lecture = \<lparr>day = dayName, subject = token, room = roomName,
                           teacher = teacherName, startTime = fst slot, endTime = snd slot,
                           reminderEnabled = Some 0\<rparr>;
                key = dayName @ [124] @ fst slot @ [124] @ snd slot @ [124] @ token @ [124]
                        @ roomName @ [124] @ teacherName;
                w1 = (if targetSemester = currentSemester w
                         \<and> (targetSection = [] \<or> targetSection = currentSection w)
                         \<and> key \<notin> set (seen w)
                      then w\<lparr>lectures := lectures w @ [lecture], seen := seen w @ [key]\<rparr>
                      else w)
            in walkSegment targetSemester targetSection slotTimes dayName
                 (w1\<lparr>slotIndex := slotIndex w + 1\<rparr>)
                 (drop (if hasTeacher then 2 else 1) rest))))"
  by pat_completeness auto
termination
  by (relation "measure (\<lambda>(_, _, _, _, _, ts). length ts)") auto

fun walkSegments ::
  "nat \<Rightarrow> jsstring \<Rightarrow> (jsstring \<times> jsstring) list \<Rightarrow> jsstring insert_lecture list \<times> jsstring list
     \<Rightarrow> (jsstring \<times> jsstring list) list \<Rightarrow> jsstring insert_lecture list \<times> jsstring list" where
  \<comment> \<open>the loop over the segments: the cursor starts afresh in each, the lectures and the
      keys seen are kept\<close>
  "walkSegments targetSemester targetSection slotTimes acc [] = acc"
| "walkSegments targetSemester targetSection slotTimes acc ((dayName, tokens) # segments) =
     (let w = walkSegment targetSemester targetSection slotTimes dayName
                \<lparr>currentSemester = 0, currentSection = [], sectionOrderIndex = 0, slotIndex = 0,
                 lectures = fst acc, seen = snd acc\<rparr> tokens
      in walkSegments targetSemester targetSection slotTimes (lectures w, seen w) segments)"

definition slotTable :: "jsstring list \<Rightarrow> (jsstring \<times> jsstring) list" where
  "slotTable tokens =
     (let slots = take 6 (List.map_filter parseSlotRange tokens)
      in if length slots \<ge> 6 then slots else defaultSlots)"

datatype timetable_error = InvalidSemester

definition parseTimetableTokens ::
  "jsstring list \<Rightarrow> jsstring \<Rightarrow> jsstring \<Rightarrow> timetable_error + jsstring insert_lecture list" where
  \<comment> \<open>\<open>parseTimetablePdf\<close>, given the tokens that \<open>extractPdfTokens(pdfBytes)\<close> returns.
      \<open>toUpperCase\<close> is taken on the ASCII letters: no other text has one of the section
      codes as its upper case.\<close>
  "parseTimetableTokens tokens semesterInput sectionInput =
     (case parseSemesterNumber semesterInput of
        None \<Rightarrow> Inl InvalidSemester
      | Some targetSemester \<Rightarrow>
          (let targetSection = map upperChar (trim sectionInput) in
           if tokens = [] then Inr []
           else Inr (fst (walkSegments targetSemester targetSection (slotTable tokens) ([], [])
                            (daySegments tokens)))))"

subsection \<open>The meridiem rule as the claim words it\<close>

definition validMarker :: "jsstring \<Rightarrow> bool" where
  \<comment> \<open>no marker, or AM or PM in either case of each letter\<close>
  "validMarker m =
     (m = [] \<or> (\<exists>x y. m = [x, y] \<and> (lowerChar x = 97 \<or> lowerChar x = 112) \<and> lowerChar y = 109))"

definition markerOf :: "jsstring \<Rightarrow> meridiem option" where
  "markerOf m = (case m of [] \<Rightarrow> None | x # _ \<Rightarrow> Some (if lowerChar x = 97 then AM else PM))"

definition spec_to24 :: "nat \<Rightarrow> meridiem \<Rightarrow> nat" where
  "spec_to24 h mer = (if mer = AM then (if h = 12 then 0 else h) else (if h < 12 then h + 12 else h))"

definition spec_clock :: "jsstring \<Rightarrow> jsstring \<Rightarrow> meridiem \<Rightarrow> jsstring" where
  "spec_clock hs ms mer =
     padStart2 (showNat (spec_to24 (decimalValue hs) mer)) @ [58] @ padStart2 (showNat (decimalValue ms))"

definition spec_fallback :: "jsstring \<Rightarrow> jsstring \<Rightarrow> meridiem" where
  \<comment> \<open>the marker of the end time when it has one; AM for a start hour of 8 or more and PM
      otherwise when it has none\<close>
  "spec_fallback startHour endMarker =
     (case markerOf endMarker of
        Some m \<Rightarrow> m
      | None \<Rightarrow> (if decimalValue startHour \<ge> 8 then AM else PM))"

definition slotToken ::
  "jsstring \<Rightarrow> jsstring \<Rightarrow> jsstring \<Rightarrow> jsstring \<Rightarrow> jsstring \<Rightarrow> jsstring \<Rightarrow> jsstring \<Rightarrow> jsstring" where
  \<comment> \<open>the token \<open>S-n(start-end)\<close>: the slot number, then the hour digits, the minute digits
      and the marker of each endpoint\<close>
  "slotToken n h1 m1 k1 h2 m2 k2 =
     str ''S-'' @ n @ [40] @ (h1 @ [58] @ m1 @ k1) @ [45] @ (h2 @ [58] @ m2 @ k2) @ [41]"

definition hourDigits :: "jsstring \<Rightarrow> bool" where
  "hourDigits h = (list_all isDigit h \<and> (length h = 1 \<or> length h = 2))"

definition minuteDigits :: "jsstring \<Rightarrow> bool" where
  "minuteDigits m = (list_all isDigit m \<and> length m = 2)"

section \<open>The tabular import of the routine screen\<close>

text \<open>
  A cell of a row is any JavaScript value. The model keeps what the import observes of
  it: whether it is \<open>null\<close> or \<open>undefined\<close>, a boolean, a number, a string, a valid
  \<open>Date\<close> (its local hours and minutes) or another object, and the text \<open>String(value)\<close>
  gives for it. That text is part of a finite number, of a date and of an object; an
  invalid \<open>Date\<close> is an object whose text is \<open>Invalid Date\<close>.
\<close>

datatype cell =
    CUndefined
  | CNull
  | CBool bool
  | CNum jsnum jsstring
  | CStr jsstring
  | CDate int int jsstring
  | CObject jsstring

definition cellText :: "cell \<Rightarrow> jsstring" where
  \<comment> \<open>\<open>String(value)\<close>\<close>
  "cellText v =
     (case v of
        CUndefined \<Rightarrow> str ''undefined''
      | CNull \<Rightarrow> str ''null''
      | CBool b \<Rightarrow> (if b then str ''true'' else str ''false'')
      | CNum n t \<Rightarrow>
          (case n of Fin _ \<Rightarrow> t | PosInf \<Rightarrow> str ''Infinity'' | NegInf \<Rightarrow> str ''-Infinity''
           | NaN \<Rightarrow> str ''NaN'')
      | CStr s \<Rightarrow> s
      | CDate _ _ t \<Rightarrow> t
      | CObject t \<Rightarrow> t)"

definition nullish :: "cell \<Rightarrow> bool" where
  "nullish v = (v = CUndefined \<or> v = CNull)"

definition orElse :: "cell \<Rightarrow> cell \<Rightarrow> cell" where
  \<comment> \<open>the operator \<open>??\<close>\<close>
  "orElse a b = (if nullish a then b else a)"

definition lowerUnit :: "nat \<Rightarrow> jsstring" where
  \<comment> \<open>the lower case of one code unit: the ASCII letters, the Kelvin sign and the dotted
      capital I; the lower case of any other code unit is outside ASCII, and is left as it
      is here, the results being compared with ASCII keys only\<close>
  "lowerUnit c =
     (if 65 \<le> c \<and> c \<le> 90 then [c + 32]
      else if c = 8490 then [107]
      else if c = 304 then [105, 775]
      else [c])"

definition toLowerCase :: "jsstring \<Rightarrow> jsstring" where
  "toLowerCase s = concat (map lowerUnit s)"

definition parseBool :: "cell \<Rightarrow> bool" where
  "parseBool v =
     (case v of
        CBool b \<Rightarrow> b
      | CNum n _ \<Rightarrow> n \<noteq> Fin 0
      | _ \<Rightarrow>
          (let s = toLowerCase (trim (cellText (orElse v (CStr [])))) in
           s = str ''1'' \<or> s = str ''true'' \<or> s = str ''yes'' \<or> s = str ''y''))"

datatype dayvalue = DayName jsstring | InheritedMember jsstring

definition fullDays :: "(jsstring \<times> jsstring) list" where
  "fullDays =
     [(str ''mon'', str ''Monday''), (str ''monday'', str ''Monday''),
      (str ''tue'', str ''Tuesday''), (str ''tues'', str ''Tuesday''),
      (str ''tuesday'', str ''Tuesday''),
      (str ''wed'', str ''Wednesday''), (str ''wednesday'', str ''Wednesday''),
      (str ''thu'', str ''Thursday''), (str ''thur'', str ''Thursday''),
      (str ''thurs'', str ''Thursday''), (str ''thursday'', str ''Thursday''),
      (str ''fri'', str ''Friday''), (str ''friday'', str ''Friday''),
      (str ''sat'', str ''Saturday''), (str ''saturday'', str ''Saturday''),
      (str ''sun'', str ''Sunday''), (str ''sunday'', str ''Sunday'')]"

definition toFullDay :: "cell \<Rightarrow> dayvalue option" where
  \<comment> \<open>\<open>map[raw.toLowerCase()] ?? null\<close>; \<open>None\<close> is \<open>null\<close>. A key that names an inherited
      member of the object finds that member, which is not \<open>null\<close>.\<close>
  "toFullDay v =
     (let raw = trim (cellText (orElse v (CStr []))) in
      if raw = [] then None
      else
        (case map_of fullDays (toLowerCase raw) of
           Some d \<Rightarrow> Some (DayName d)
         | None \<Rightarrow>
             (if toLowerCase raw \<in> set objectPrototypeKeys
              then Some (InheritedMember (toLowerCase raw)) else None)))"

definition normalizeHeader :: "jsstring \<Rightarrow> jsstring" where
  \<comment> \<open>on a key of a row, which is a string: lower case, then
      \<open>replace(/[\s_\-]/g, '')\<close>\<close>
  "normalizeHeader k = filter (\<lambda>c. \<not> (isSpace c \<or> c = 95 \<or> c = 45)) (toLowerCase k)"

definition jsRound :: "rat \<Rightarrow> int" where
  \<comment> \<open>\<open>Math.round\<close>: halves go up\<close>
  "jsRound q = \<lfloor>q + 1 / 2\<rfloor>"

definition numericTime :: "rat \<Rightarrow> jsstring" where
  \<comment> \<open>the block for a finite number\<close>
  "numericTime v =
     (if v \<ge> 0 \<and> v < 1 then toHHMM (jsRound (v * 24 * 60))
      else
        (let frac = v - of_int \<lfloor>v\<rfloor> in
         if frac > 0 then toHHMM (jsRound (frac * 24 * 60))
         else if v \<ge> 0 \<and> v \<le> 23 then toHHMM (jsRound (v * 60))
         else []))"

definition colonPair :: "jsstring \<Rightarrow> (jsstring \<times> jsstring) option" where
  \<comment> \<open>\<open>:\d{2}\<close> at the start of the text: the digits and what follows\<close>
  "colonPair r =
     (case r of
        x # c # d # r' \<Rightarrow> (if x = 58 \<and> isDigit c \<and> isDigit d then Some ([c, d], r') else None)
      | _ \<Rightarrow> None)"

definition ampmMatch :: "jsstring \<Rightarrow> (jsstring \<times> jsstring option \<times> jsstring) option" where
  \<comment> \<open>\<open>/^(\d{1,2})(?::(\d{2}))?(?::\d{2})?\s*([AP]M)$/i\<close>: the three groups\<close>
  "ampmMatch raw =
     (let hs = take 2 (takeWhile isDigit raw);
          r1 = drop (length hs) raw;
          g2 = (case colonPair r1 of Some (ms, _) \<Rightarrow> Some ms | None \<Rightarrow> None);
          r2 = (case colonPair r1 of Some (_, r) \<Rightarrow> r | None \<Rightarrow> r1);
          r3 = (case colonPair r2 of Some (_, r) \<Rightarrow> r | None \<Rightarrow> r2)
      in if hs = [] then None
         else (case merPrefix (dropWhile isSpace r3) of
                 Some (mer, rest) \<Rightarrow> (if rest = [] then Some (hs, g2, mer) else None)
               | None \<Rightarrow> None))"

definition plainMatch :: "jsstring \<Rightarrow> (jsstring \<times> jsstring) option" where
  \<comment> \<open>\<open>/^(\d{1,2}):(\d{2})(?::\d{2})?$/\<close>: the two groups\<close>
  "plainMatch raw =
     (case clockPrefix raw of
        None \<Rightarrow> None
      | Some (hs, ms, r) \<Rightarrow>
          (if r = [] then Some (hs, ms)
           else (case colonPair r of
                   Some (_, rest) \<Rightarrow> (if rest = [] then Some (hs, ms) else None)
                 | None \<Rightarrow> None)))"

definition textTime :: "jsstring \<Rightarrow> jsstring" where
  \<comment> \<open>what follows the test of \<open>Number(raw)\<close>: the 12-hour and the plain patterns\<close>
  "textTime raw =
     (case ampmMatch raw of
        Some (hs, g2, mer) \<Rightarrow>
          (let h = int (decimalValue hs);
               m = (case g2 of Some ms \<Rightarrow> int (decimalValue ms) | None \<Rightarrow> 0);
               h' = (if meridiemOf mer = AM then (if h = 12 then 0 else h)
                     else (if h < 12 then h + 12 else h))
           in toHHMM (h' * 60 + m))
      | None \<Rightarrow>
          (case plainMatch raw of
             Some (hs, ms) \<Rightarrow>
               (let h = int (decimalValue hs); m = int (decimalValue ms) in
                if h \<ge> 0 \<and> h \<le> 23 \<and> m \<ge> 0 \<and> m \<le> 59 then toHHMM (h * 60 + m) else [])
           | None \<Rightarrow> []))"

partial_function (option) parseSpreadsheetTime :: "cell \<Rightarrow> jsstring option" where
  \<comment> \<open>\<open>None\<close>: the call does not return. The recursive call passes the number
      \<open>Number(raw)\<close>; the text of a finite number is not read.\<close>
  "parseSpreadsheetTime v =
     (if nullish v then Some []
      else
        (case v of
           CDate h m _ \<Rightarrow> Some (toHHMM (h * 60 + m))
         | CNum (Fin q) _ \<Rightarrow> Some (numericTime q)
         | _ \<Rightarrow>
             (let raw = trim (cellText v) in
              if raw = [] then Some []
              else if validTime raw then Some raw
              else if jsNumber raw \<noteq> NaN then parseSpreadsheetTime (CNum (jsNumber raw) [])
              else Some (textTime raw))))"

declare parseSpreadsheetTime.simps [code]

type_synonym row = "(jsstring \<times> cell) list"

definition byKey :: "row \<Rightarrow> jsstring \<Rightarrow> cell" where
  \<comment> \<open>the \<open>Map\<close> filled from \<open>Object.entries(row)\<close>, a later entry replacing an earlier one
      with the same normalized header, and its \<open>get\<close>: \<open>undefined\<close> for a key it lacks\<close>
  "byKey r k =
     (case map_of (rev (map (\<lambda>(h, v). (normalizeHeader h, v)) r)) k of
        Some v \<Rightarrow> v
      | None \<Rightarrow> CUndefined)"

datatype row_error = RowMissingFields nat | RowInvalidTime nat | RowEndBeforeStart nat

definition rowNumber :: "row_error \<Rightarrow> nat" where
  "rowNumber e = (case e of RowMissingFields n \<Rightarrow> n | RowInvalidTime n \<Rightarrow> n | RowEndBeforeStart n \<Rightarrow> n)"

definition rowTitle :: "row \<Rightarrow> jsstring" where
  "rowTitle r =
     trim (cellText (orElse (byKey r (str ''title''))
       (orElse (byKey r (str ''activity'')) (orElse (byKey r (str ''task'')) (CStr [])))))"

definition rowDay :: "row \<Rightarrow> dayvalue option" where
  "rowDay r = toFullDay (orElse (byKey r (str ''day'')) (byKey r (str ''weekday'')))"

definition rowStart :: "row \<Rightarrow> jsstring option" where
  "rowStart r =
     parseSpreadsheetTime (orElse (byKey r (str ''starttime'')) (orElse (byKey r (str ''start'')) (CStr [])))"

definition rowEnd :: "row \<Rightarrow> jsstring option" where
  "rowEnd r =
     parseSpreadsheetTime (orElse (byKey r (str ''endtime'')) (orElse (byKey r (str ''end'')) (CStr [])))"

definition parseRow ::
  "nat \<Rightarrow> row \<Rightarrow> (row_error + dayvalue imported_routine option) option" where
  \<comment> \<open>one turn of the loop, for the row at position \<open>i\<close>: \<open>None\<close> when a time parse does not
      return, \<open>Inl\<close> a throw, \<open>Inr None\<close> a row passed over, \<open>Inr (Some item)\<close> a row pushed\<close>
  "parseRow i r =
     (case rowStart r of
        None \<Rightarrow> None
      | Some startT \<Rightarrow>
          (case rowEnd r of
             None \<Rightarrow> None
           | Some endT \<Rightarrow>
               Some
                 (let titleT = rowTitle r;
                      dayV = rowDay r;
                      notesT = trim (cellText (orElse (byKey r (str ''notes''))
                                 (orElse (byKey r (str ''note'')) (CStr []))));
                      doneV = parseBool (byKey r (str ''done''));
                      reminderV = (if parseBool (orElse (byKey r (str ''reminderenabled''))
                                        (byKey r (str ''reminder''))) then 1 else 0)
                  in
                  if titleT = [] \<and> dayV = None \<and> startT = [] \<and> endT = [] then Inr None
                  else if titleT = [] \<or> dayV = None \<or> startT = [] \<or> endT = [] then
                    Inl (RowMissingFields (i + 2))
                  else if \<not> validTime startT \<or> \<not> validTime endT then Inl (RowInvalidTime (i + 2))
                  else if js_le (timeToMinutes endT) (timeToMinutes startT) then
                    Inl (RowEndBeforeStart (i + 2))
                  else Inr (Some \<lparr>r_title = titleT, r_day = the dayV, r_startTime = startT,
                                  r_endTime = endT, r_notes = notesT, r_done = doneV,
                                  r_reminderEnabled = reminderV\<rparr>))))"

fun parseRowsFrom ::
  "nat \<Rightarrow> row list \<Rightarrow> dayvalue imported_routine list
     \<Rightarrow> (row_error + dayvalue imported_routine list) option" where
  "parseRowsFrom i [] parsed = Some (Inr parsed)"
| "parseRowsFrom i (r # rows) parsed =
     (case parseRow i r of
        None \<Rightarrow> None
      | Some (Inl e) \<Rightarrow> Some (Inl e)
      | Some (Inr None) \<Rightarrow> parseRowsFrom (i + 1) rows parsed
      | Some (Inr (Some item)) \<Rightarrow> parseRowsFrom (i + 1) rows (parsed @ [item]))"

definition parseImportedRows :: "row list \<Rightarrow> (row_error + dayvalue imported_routine list) option" where
  "parseImportedRows rows = parseRowsFrom 0 rows []"

section \<open>The token extractor of the import screen\<close>

text \<open>
  The bytes of the document are a \<open>Uint8Array\<close>. \<open>unzlibSync\<close> is the decompression of
  the library: a parameter, \<open>None\<close> when it throws. A call that spreads an array into its
  arguments throws a RangeError when the array is longer than the engine allows:
  \<open>argLimit\<close> is the largest number of arguments the engine accepts, a parameter too, and
  \<open>None\<close> is that throw.
\<close>

type_synonym bytes = "8 word list"

definition fromCharCodeSpread :: "nat \<Rightarrow> nat list \<Rightarrow> jsstring option" where
  \<comment> \<open>\<open>String.fromCharCode(...codes)\<close>, for codes below \<open>2^16\<close>: one code unit for each\<close>
  "fromCharCodeSpread argLimit codes = (if length codes \<le> argLimit then Some codes else None)"

function bytesToBinary :: "nat \<Rightarrow> bytes \<Rightarrow> jsstring option" where
  \<comment> \<open>the loop over the chunks of \<open>0x8000\<close> bytes, from the chunk at \<open>i\<close> on\<close>
  "bytesToBinary argLimit bs =
     (if bs = [] then Some []
      else
        (case fromCharCodeSpread argLimit (map unat (take 32768 bs)) of
           None \<Rightarrow> None
         | Some chunk \<Rightarrow>
             (case bytesToBinary argLimit (drop 32768 bs) of
                None \<Rightarrow> None
              | Some out \<Rightarrow> Some (chunk @ out))))"
  by pat_completeness auto
termination
  by (relation "measure (\<lambda>(argLimit, bs). length bs)") auto

declare bytesToBinary.simps [simp del]

definition binaryToBytes :: "jsstring \<Rightarrow> bytes" where
  \<comment> \<open>\<open>charCodeAt(i) & 0xff\<close>\<close>
  "binaryToBytes s = map of_nat s"

definition startsWith :: "jsstring \<Rightarrow> jsstring \<Rightarrow> bool" where
  "startsWith pat s = (take (length pat) s = pat)"

fun containsSub :: "jsstring \<Rightarrow> jsstring \<Rightarrow> bool" where
  "containsSub pat [] = (pat = [])"
| "containsSub pat (c # s) = (startsWith pat (c # s) \<or> containsSub pat s)"

fun scan :: "(jsstring \<Rightarrow> ('a \<times> jsstring) option) \<Rightarrow> nat \<Rightarrow> nat \<Rightarrow> jsstring \<Rightarrow> (nat \<times> 'a) list" where
  \<comment> \<open>the successive matches of a pattern with the flag \<open>g\<close>, by \<open>exec\<close>, \<open>match\<close> or
      \<open>matchAll\<close>: \<open>m\<close> matches the pattern at the start of a text and gives what follows
      the match; \<open>i\<close> is the index of the text in the whole; \<open>k\<close> counts the code units
      still inside the last match. No pattern here matches the empty text.\<close>
  "scan m i k [] = []"
| "scan m i k (c # s) =
     (if k > 0 then scan m (i + 1) (k - 1) s
      else (case m (c # s) of
              None \<Rightarrow> scan m (i + 1) 0 s
            | Some (x, rest) \<Rightarrow> (i, x) # scan m (i + 1) (length s - length rest) s))"

fun lazyUntil :: "(jsstring \<Rightarrow> jsstring option) \<Rightarrow> jsstring \<Rightarrow> (jsstring \<times> jsstring) option" where
  \<comment> \<open>\<open>[\s\S]*?\<close> before a pattern \<open>p\<close>: the shortest text after which \<open>p\<close> matches, and
      what follows the match of \<open>p\<close>\<close>
  "lazyUntil p [] = (case p [] of Some r \<Rightarrow> Some ([], r) | None \<Rightarrow> None)"
| "lazyUntil p (c # s) =
     (case p (c # s) of
        Some r \<Rightarrow> Some ([], r)
      | None \<Rightarrow> (case lazyUntil p s of Some (t, r) \<Rightarrow> Some (c # t, r) | None \<Rightarrow> None))"

definition endMarker :: "jsstring \<Rightarrow> jsstring option" where
  \<comment> \<open>\<open>\r?\nendstream\<close>\<close>
  "endMarker s =
     (if startsWith ([13, 10] @ str ''endstream'') s then Some (drop 11 s)
      else if startsWith ([10] @ str ''endstream'') s then Some (drop 10 s)
      else None)"

definition streamHere :: "jsstring \<Rightarrow> (jsstring \<times> jsstring) option" where
  \<comment> \<open>\<open>stream\r?\n([\s\S]*?)\r?\nendstream\<close> at the start of the text: the group, and what
      follows the match\<close>
  "streamHere s =
     (if startsWith (str ''stream'') s then
        (let r = drop 6 s;
             r1 = (case r of c # r' \<Rightarrow> (if c = 13 then r' else r) | [] \<Rightarrow> r)
         in case r1 of
              c # r2 \<Rightarrow> (if c = 10 then lazyUntil endMarker r2 else None)
            | [] \<Rightarrow> None)
      else None)"

definition btHere :: "jsstring \<Rightarrow> (jsstring \<times> jsstring) option" where
  \<comment> \<open>\<open>BT[\s\S]*?ET\<close>: the match, and what follows it\<close>
  "btHere s =
     (if startsWith (str ''BT'') s then
        (case lazyUntil (\<lambda>r. if startsWith (str ''ET'') r then Some (drop 2 r) else None) (drop 2 s) of
           Some (t, rest) \<Rightarrow> Some (str ''BT'' @ t @ str ''ET'', rest)
         | None \<Rightarrow> None)
      else None)"

definition closeTJ :: "jsstring \<Rightarrow> jsstring option" where
  \<comment> \<open>\<open>\]\s*TJ\<close>\<close>
  "closeTJ s =
     (case s of
        c # r \<Rightarrow>
          (if c = 93 \<and> startsWith (str ''TJ'') (dropWhile isSpace r)
           then Some (drop 2 (dropWhile isSpace r)) else None)
      | [] \<Rightarrow> None)"

definition arrayHere :: "jsstring \<Rightarrow> (jsstring \<times> jsstring) option" where
  \<comment> \<open>\<open>\[(.*?)\]\s*TJ\<close> with the flag \<open>s\<close>: the group, and what follows the match\<close>
  "arrayHere s = (case s of c # r \<Rightarrow> (if c = 91 then lazyUntil closeTJ r else None) | [] \<Rightarrow> None)"

definition isLineTerminator :: "nat \<Rightarrow> bool" where
  "isLineTerminator c = (c = 10 \<or> c = 13 \<or> c = 8232 \<or> c = 8233)"

fun litBody :: "jsstring \<Rightarrow> jsstring \<times> jsstring" where
  \<comment> \<open>\<open>(?:\\.|[^\\()])*\<close>: the longest such text, and what follows it\<close>
  "litBody [] = ([], [])"
| "litBody [c] = (if c = 92 \<or> c = 40 \<or> c = 41 then ([], [c]) else ([c], []))"
| "litBody (c # d # s) =
     (if c = 92 then
        (if isLineTerminator d then ([], c # d # s)
         else (case litBody s of (b, r) \<Rightarrow> (c # d # b, r)))
      else if c = 40 \<or> c = 41 then ([], c # d # s)
      else (case litBody (d # s) of (b, r) \<Rightarrow> (c # b, r)))"

definition literalHere :: "jsstring \<Rightarrow> (jsstring \<times> jsstring) option" where
  \<comment> \<open>\<open>\((?:\\.|[^\\()])*\)\<close>: the text between the parentheses, and what follows the
      match\<close>
  "literalHere s =
     (case s of
        c # r \<Rightarrow>
          (if c = 40 then
             (case litBody r of
                (b, x # rest) \<Rightarrow> (if x = 41 then Some (b, rest) else None)
              | (b, []) \<Rightarrow> None)
           else None)
      | [] \<Rightarrow> None)"

definition isHexOrSpace :: "nat \<Rightarrow> bool" where
  "isHexOrSpace c = (hexVal c \<noteq> None \<or> isSpace c)"

definition hexHere :: "jsstring \<Rightarrow> (jsstring \<times> jsstring) option" where
  \<comment> \<open>\<open><([0-9a-fA-F\s]+)>\<close>: the group, and what follows the match\<close>
  "hexHere s =
     (case s of
        c # r \<Rightarrow>
          (if c = 60 \<and> takeWhile isHexOrSpace r \<noteq> [] then
             (case dropWhile isHexOrSpace r of
                x # rest \<Rightarrow> (if x = 62 then Some (takeWhile isHexOrSpace r, rest) else None)
              | [] \<Rightarrow> None)
           else None)
      | [] \<Rightarrow> None)"

definition tjHere :: "jsstring \<Rightarrow> (jsstring \<times> jsstring) option" where
  \<comment> \<open>\<open>\((?:\\.|[^\\()])*\)\s*Tj\<close>: the match without its first \<open>(\<close> and without its last
      \<open>)\s*Tj\<close>, and what follows the match\<close>
  "tjHere s =
     (case literalHere s of
        Some (b, r) \<Rightarrow>
          (if startsWith (str ''Tj'') (dropWhile isSpace r)
           then Some (b, drop 2 (dropWhile isSpace r)) else None)
      | None \<Rightarrow> None)"

definition isOctal :: "nat \<Rightarrow> bool" where
  "isOctal c = (48 \<le> c \<and> c \<le> 55)"

definition escapeChar :: "nat \<Rightarrow> nat" where
  \<comment> \<open>\<open>escapes[next] ?? next\<close>\<close>
  "escapeChar c =
     (if c = 110 then 10 else if c = 114 then 13 else if c = 116 then 9 else if c = 98 then 8
      else if c = 102 then 12 else c)"

function decodePdfLiteralString :: "jsstring \<Rightarrow> jsstring" where
  \<comment> \<open>the loop over \<open>raw\<close>, from the code unit at \<open>i\<close> on. The third octal digit is looked
      for at \<open>i + 3\<close> whether or not there is a second one.\<close>
  "decodePdfLiteralString [] = []"
| "decodePdfLiteralString (ch # r) =
     (if ch \<noteq> 92 then ch # decodePdfLiteralString r
      else
        (case r of
           [] \<Rightarrow> []
         | next # r1 \<Rightarrow>
             (if isOctal next then
                (let oct = [next]
                       @ (case r1 of d # _ \<Rightarrow> (if isOctal d then [d] else []) | [] \<Rightarrow> [])
                       @ (case r1 of _ # d # _ \<Rightarrow> (if isOctal d then [d] else []) | _ \<Rightarrow> [])
                 in foldl (\<lambda>a c. 8 * a + (c - 48)) 0 oct
                      # decodePdfLiteralString (drop (length oct - 1) r1))
              else escapeChar next # decodePdfLiteralString r1)))"
  by pat_completeness auto
termination
  by (relation "measure length") auto

fun bytePairs :: "jsstring \<Rightarrow> nat list" where
  \<comment> \<open>\<open>parseInt(padded.slice(i, i + 2), 16)\<close> for each pair of hexadecimal digits\<close>
  "bytePairs (a # b # s) = (16 * the (hexVal a) + the (hexVal b)) # bytePairs s"
| "bytePairs _ = []"

fun utf16Pairs :: "nat list \<Rightarrow> jsstring" where
  \<comment> \<open>\<open>(bytes[i] << 8) | bytes[i + 1]\<close> while \<open>i + 1 < bytes.length\<close>\<close>
  "utf16Pairs (hi # lo # bs) = (256 * hi + lo) # utf16Pairs bs"
| "utf16Pairs _ = []"

definition decodePdfHexString :: "nat \<Rightarrow> jsstring \<Rightarrow> jsstring option" where
  \<comment> \<open>without the byte order mark, all the bytes are spread into one call\<close>
  "decodePdfHexString argLimit hex =
     (let clean = filter (\<lambda>c. hexVal c \<noteq> None) hex in
      if length clean < 2 then Some []
      else
        (let padded = (if even (length clean) then clean else clean @ [48]);
             bs = bytePairs padded
         in case bs of
              b0 # b1 # rest \<Rightarrow>
                (if b0 = 254 \<and> b1 = 255 then Some (utf16Pairs rest)
                 else fromCharCodeSpread argLimit bs)
            | _ \<Rightarrow> fromCharCodeSpread argLimit bs))"

function collapseSpaces :: "jsstring \<Rightarrow> jsstring" where
  \<comment> \<open>\<open>replace(/\s+/g, ' ')\<close>\<close>
  "collapseSpaces [] = []"
| "collapseSpaces (c # s) =
     (if isSpace c then 32 # collapseSpaces (dropWhile isSpace s) else c # collapseSpaces s)"
  by pat_completeness auto
termination
  by (relation "measure length") (auto simp: length_dropWhile_le less_Suc_eq_le)

definition normalizeTextToken :: "jsstring \<Rightarrow> jsstring" where
  "normalizeTextToken v = trim (collapseSpaces (map (\<lambda>c. if c \<le> 31 then 32 else c) v))"

definition arrayToken :: "nat \<Rightarrow> jsstring \<Rightarrow> jsstring option" where
  \<comment> \<open>the pieces of one \<open>TJ\<close> array: the literal strings first, the hexadecimal strings
      after them; \<open>None\<close> when the decoding of a hexadecimal string throws\<close>
  "arrayToken argLimit a =
     (case those (map (\<lambda>(_, h). decodePdfHexString argLimit h) (scan hexHere 0 0 a)) of
        None \<Rightarrow> None
      | Some hexParts \<Rightarrow>
          Some (normalizeTextToken
                  (concat (map (\<lambda>(_, l). decodePdfLiteralString l) (scan literalHere 0 0 a)
                           @ hexParts))))"

definition blockTokens :: "nat \<Rightarrow> jsstring \<Rightarrow> jsstring list option" where
  "blockTokens argLimit block =
     (case those (map (\<lambda>(_, a). arrayToken argLimit a) (scan arrayHere 0 0 block)) of
        None \<Rightarrow> None
      | Some arrayTokens \<Rightarrow>
          Some (filter (\<lambda>t. t \<noteq> []) arrayTokens
                @ filter (\<lambda>t. t \<noteq> [])
                    (map (\<lambda>(_, l). normalizeTextToken (decodePdfLiteralString l))
                       (scan tjHere 0 0 block))))"

definition decodedTokens :: "nat \<Rightarrow> jsstring \<Rightarrow> jsstring list option" where
  \<comment> \<open>the tokens of one decoded stream\<close>
  "decodedTokens argLimit decoded =
     (case those (map (\<lambda>(_, block). blockTokens argLimit block) (scan btHere 0 0 decoded)) of
        None \<Rightarrow> None
      | Some blocks \<Rightarrow> Some (concat blocks))"

definition objectHeader :: "jsstring \<Rightarrow> nat \<Rightarrow> jsstring" where
  \<comment> \<open>\<open>binary.slice(Math.max(0, index - 500), index)\<close>\<close>
  "objectHeader binary index = take (index - (index - 500)) (drop (index - 500) binary)"

fun extractLoop ::
  "nat \<Rightarrow> (bytes \<Rightarrow> bytes option) \<Rightarrow> jsstring \<Rightarrow> jsstring list \<Rightarrow> (nat \<times> jsstring) list
     \<Rightarrow> jsstring list option" where
  \<comment> \<open>the \<open>while\<close> loop, over the successive matches of the stream pattern: a stream whose
      decompression throws is passed over by \<open>continue\<close>; a throw of \<open>bytesToBinary\<close> or of
      the decoding of a hexadecimal string is not caught\<close>
  "extractLoop argLimit unzlibSync binary tokens [] = Some tokens"
| "extractLoop argLimit unzlibSync binary tokens ((index, content) # matches) =
     (let streamBytes = binaryToBytes content in
      case (if containsSub (str ''/FlateDecode'') (objectHeader binary index)
            then unzlibSync streamBytes else Some streamBytes) of
        None \<Rightarrow> extractLoop argLimit unzlibSync binary tokens matches
      | Some decodedBytes \<Rightarrow>
          (case bytesToBinary argLimit decodedBytes of
             None \<Rightarrow> None
           | Some decoded \<Rightarrow>
               (case decodedTokens argLimit decoded of
                  None \<Rightarrow> None
                | Some ts \<Rightarrow> extractLoop argLimit unzlibSync binary (tokens @ ts) matches)))"

definition extractPdfTokens ::
  "nat \<Rightarrow> (bytes \<Rightarrow> bytes option) \<Rightarrow> bytes \<Rightarrow> jsstring list option" where
  \<comment> \<open>\<open>None\<close>: a RangeError is thrown\<close>
  "extractPdfTokens argLimit unzlibSync pdfBytes =
     (case bytesToBinary argLimit pdfBytes of
        None \<Rightarrow> None
      | Some binary \<Rightarrow> extractLoop argLimit unzlibSync binary [] (scan streamHere 0 0 binary))"

definition parseTimetablePdf ::
  "nat \<Rightarrow> (bytes \<Rightarrow> bytes option) \<Rightarrow> bytes \<Rightarrow> jsstring \<Rightarrow> jsstring
     \<Rightarrow> (timetable_error + jsstring insert_lecture list) option" where
  \<comment> \<open>the semester is checked first, before the tokens are extracted; \<open>None\<close>: the
      extraction throws a RangeError\<close>
  "parseTimetablePdf argLimit unzlibSync pdfBytes semesterInput sectionInput =
     (case parseSemesterNumber semesterInput of
        None \<Rightarrow> Some (Inl InvalidSemester)
      | Some _ \<Rightarrow>
          (case extractPdfTokens argLimit unzlibSync pdfBytes of
             None \<Rightarrow> None
           | Some tokens \<Rightarrow> Some (parseTimetableTokens tokens semesterInput sectionInput)))"

subsection \<open>The streams of a document, as the specification words the extraction\<close>

definition decompressionFails :: "(bytes \<Rightarrow> bytes option) \<Rightarrow> jsstring \<Rightarrow> nat \<times> jsstring \<Rightarrow> bool" where
  \<comment> \<open>the region carries the compression marker in the window before it, and its
      decompression fails\<close>
  "decompressionFails unzlibSync binary m =
     (containsSub (str ''/FlateDecode'') (objectHeader binary (fst m))
      \<and> unzlibSync (binaryToBytes (snd m)) = None)"

definition streamTokens :: "nat \<Rightarrow> bytes \<Rightarrow> jsstring list option" where
  \<comment> \<open>the tokens of the decoded bytes of one region\<close>
  "streamTokens argLimit decodedBytes =
     (case bytesToBinary argLimit decodedBytes of
        None \<Rightarrow> None
      | Some decoded \<Rightarrow> decodedTokens argLimit decoded)"

definition regionTokens ::
  "nat \<Rightarrow> (bytes \<Rightarrow> bytes option) \<Rightarrow> jsstring \<Rightarrow> nat \<times> jsstring \<Rightarrow> jsstring list option" where
  \<comment> \<open>the tokens of one region whose decompression does not fail\<close>
  "regionTokens argLimit unzlibSync binary m =
     (if containsSub (str ''/FlateDecode'') (objectHeader binary (fst m))
      then (case unzlibSync (binaryToBytes (snd m)) of
              Some decodedBytes \<Rightarrow> streamTokens argLimit decodedBytes
            | None \<Rightarrow> Some [])
      else streamTokens argLimit (binaryToBytes (snd m)))"

subsection \<open>Example documents\<close>

definition longHexDocument :: "nat \<Rightarrow> bytes" where
  \<comment> \<open>one stream that is not compressed; its text block shows one hexadecimal string of
      \<open>argLimit + 1\<close> bytes, each \<open>41\<close>\<close>
  "longHexDocument argLimit = binaryToBytes
     (str ''stream'' @ [10] @ str ''BT[<'' @ replicate (2 * (argLimit + 1)) 65 @ str ''>]TJ ET''
      @ [10] @ str ''endstream'')"

definition plainDocument :: bytes where
  \<comment> \<open>a text block outside any stream\<close>
  "plainDocument = binaryToBytes (str ''%PDF-1.4 BT (Hi) Tj ET'')"

definition twoStreams :: bytes where
  \<comment> \<open>two compressed streams, the window before each holding the marker of the first\<close>
  "twoStreams = binaryToBytes
     (str ''/FlateDecode stream'' @ [10] @ str ''xx'' @ [10] @ str ''endstream stream'' @ [10]
      @ str ''yy'' @ [10] @ str ''endstream'')"

definition brokenFirst :: "bytes \<Rightarrow> bytes option" where
  \<comment> \<open>a decompression that throws on the content of the first stream of \<open>twoStreams\<close>\<close>
  "brokenFirst bs =
     (if map unat bs = str ''xx'' then None
      else Some (binaryToBytes (str ''BT (Hi) Tj ET'')))"

subsection \<open>Cells for which the time parse does not return, and example rows\<close>

definition infiniteNumber :: "cell \<Rightarrow> bool" where
  \<comment> \<open>the numbers \<open>Infinity\<close> and \<open>-Infinity\<close>\<close>
  "infiniteNumber v = (case v of CNum n _ \<Rightarrow> n = PosInf \<or> n = NegInf | _ \<Rightarrow> False)"

definition infinityRow :: row where
  \<comment> \<open>a title, and a start cell holding the text \<open>Infinity\<close>\<close>
  "infinityRow = [(str ''Title'', CStr (str ''Gym'')), (str ''Start'', CStr (str ''Infinity''))]"

definition dayOnlyRow :: row where
  "dayOnlyRow = [(str ''Day'', CStr (str ''Monday''))]"

definition blankRow :: row where
  "blankRow = [(str ''Title'', CStr []), (str ''Day'', CNull)]"
section \<open>Properties of the time utilities\<close>

lemma showNat_two:
  "x < 10 \<Longrightarrow> y < 10 \<Longrightarrow> 0 < x \<Longrightarrow> showNat (10 * x + y) = [48 + x, 48 + y]"
  by (subst showNat.simps) simp

lemma padStart2_two_digits:
  "x < 10 \<Longrightarrow> y < 10 \<Longrightarrow> padStart2 (showNat (10 * x + y)) = [48 + x, 48 + y]"
  apply (cases "x = 0")
   apply (simp add: padStart2_def)
  apply (simp add: padStart2_def showNat_two del: showNat.simps)
  done

lemma decimalValue2: "decimalValue [a, b] = 10 * digitVal a + digitVal b"
  by (simp add: decimalValue_def)

lemma isDigit_conv: "isDigit a \<Longrightarrow> 48 + digitVal a = a \<and> digitVal a < 10"
  by (auto simp: isDigit_def digitVal_def)

lemma digit_not_space: "isDigit c \<Longrightarrow> \<not> isSpace c"
  by (auto simp: isDigit_def isSpace_def)

lemma trim_digits2: "isDigit a \<Longrightarrow> isDigit b \<Longrightarrow> trim [a, b] = [a, b]"
  by (simp add: trim_def digit_not_space)

lemma jsNumber_digits2:
  assumes "isDigit a" "isDigit b"
  shows "jsNumber [a, b] = Fin (of_nat (decimalValue [a, b]))"
proof -
  have nd: "nonDecimalLiteral [a, b] = None"
    by (simp add: nonDecimalLiteral_def radixValue_def)
  have a: "a \<noteq> 43" "a \<noteq> 45" "a \<noteq> 101" "a \<noteq> 69" "b \<noteq> 101" "b \<noteq> 69"
    using assms by (auto simp: isDigit_def)
  have ne: "[a, b] \<noteq> str ''Infinity''" by (simp add: str_def)
  have m: "mantissa [a, b] = Some (of_nat (decimalValue [a, b]))"
    using assms by (simp add: mantissa_def)
  have lt: "decimalValue [a, b] < 100"
    using assms by (auto simp: decimalValue2 isDigit_def digitVal_def)
  have td: "toDouble (of_nat (decimalValue [a, b])) = Fin (of_nat (decimalValue [a, b]))"
  proof -
    have "(of_nat (decimalValue [a, b]) :: rat) < 100" using lt by simp
    moreover have "(100::rat) < 2 ^ 1024 - 2 ^ 970" by simp
    moreover have "(0::rat) \<le> of_nat (decimalValue [a, b])" by simp
    ultimately show ?thesis unfolding toDouble_def by auto
  qed
  have u: "unsignedDecimal [a, b] = Fin (of_nat (decimalValue [a, b]))"
    unfolding unsignedDecimal_def using a ne m td by (simp add: Let_def)
  show ?thesis
    unfolding jsNumber_def using a nd u assms by (simp add: trim_digits2 Let_def)
qed

lemma splitOn_time:
  "isDigit a \<Longrightarrow> isDigit b \<Longrightarrow> isDigit d \<Longrightarrow> isDigit e \<Longrightarrow>
   splitOn 58 [a, b, 58, d, e] = [[a, b], [d, e]]"
  by (auto simp: isDigit_def)

lemma timeToMinutes_valid:
  assumes "validTime t"
  shows "\<exists>a b d e. t = [a, b, 58, d, e] \<and> isDigit a \<and> isDigit b \<and> isDigit d \<and> isDigit e \<and>
     decimalValue [a, b] \<le> 23 \<and> decimalValue [d, e] \<le> 59 \<and>
     timeToMinutes t = Fin (of_nat (decimalValue [a, b] * 60 + decimalValue [d, e]))"
proof -
  obtain a b c d e where t: "t = [a, b, c, d, e]"
    using assms by (cases t rule: validTime.cases) auto
  with assms have v: "isDigit a" "isDigit b" "c = 58" "isDigit d" "isDigit e"
    "decimalValue [a, b] \<le> 23" "decimalValue [d, e] \<le> 59"
    by (auto simp: Let_def)
  have "timeToMinutes t = Fin (of_nat (decimalValue [a, b] * 60 + decimalValue [d, e]))"
    unfolding timeToMinutes_def t using v
    by (simp add: splitOn_time jsNumber_digits2 del: splitOn.simps)
  with t v show ?thesis by blast
qed

lemma timeToMinutes_spec_minutes:
  assumes "validTime t"
  shows "timeToMinutes t = Fin (of_int (spec_minutes t))"
proof -
  obtain a b d e where t: "t = [a, b, 58, d, e]"
     and tm: "timeToMinutes t = Fin (of_nat (decimalValue [a, b] * 60 + decimalValue [d, e]))"
    using timeToMinutes_valid[OF assms] by blast
  have "spec_minutes t = int (decimalValue [a, b] * 60 + decimalValue [d, e])"
    unfolding spec_minutes_def t by simp
  then show ?thesis unfolding tm by simp
qed

lemma remInt_wrap: "remInt (remInt m 1440 + 1440) 1440 = m mod 1440"
  unfolding remInt_def by (cases "m < 0"; cases "m = 0") (auto simp: sgn_if zmod_zminus1_eq_if)

lemma toHHMM_eq:
  "toHHMM m = padStart2 (showNat (nat ((m mod 1440) div 60))) @ [58]
     @ padStart2 (showNat (nat ((m mod 1440) mod 60)))"
proof -
  define r where "r = m mod 1440"
  have a: "0 \<le> r" unfolding r_def by simp
  have b: "remInt r 60 = r mod 60"
    using a unfolding remInt_def by (auto simp: sgn_if)
  have nh: "\<not> r div 60 < 0" using a by (simp add: pos_imp_zdiv_neg_iff)
  have nm: "\<not> r mod 60 < 0" by simp
  have "toHHMM m = padStart2 (showInt (r div 60)) @ [58] @ padStart2 (showInt (r mod 60))"
    unfolding toHHMM_def Let_def remInt_wrap b r_def[symmetric] ..
  also have "showInt (r div 60) = showNat (nat (r div 60))"
    unfolding showInt_def using nh by (simp del: showNat.simps)
  also have "showInt (r mod 60) = showNat (nat (r mod 60))"
    unfolding showInt_def using nm by (simp del: showNat.simps)
  finally show ?thesis unfolding r_def .
qed

lemma validTime_0730: "validTime (str ''07:30'')"
  by (simp add: str_def isDigit_def decimalValue_def digitVal_def)

lemma validTime_0900: "validTime (str ''09:00'')"
  by (simp add: str_def isDigit_def decimalValue_def digitVal_def)

lemma validTime_0010: "validTime (str ''00:10'')"
  by (simp add: str_def isDigit_def decimalValue_def digitVal_def)

lemma timeToMinutes_0010: "timeToMinutes (str ''00:10'') = Fin 10"
  unfolding timeToMinutes_spec_minutes[OF validTime_0010]
  by (simp add: spec_minutes_def str_def decimalValue_def digitVal_def)

text \<open>
  C9. For every valid zero-padded \<open>HH:MM\<close> string (hour 00 to 23, minute 00 to 59),
  converting it to minutes since midnight and back yields the same string; the conversion
  from minutes wraps modulo 1440, so that \<open>-30\<close> yields \<open>23:30\<close>.
\<close>

theorem toHHMM_timeToMinutes_roundtrip:
  "(validTime s \<longrightarrow> (\<exists>k. timeToMinutes s = Fin (of_int k) \<and> toHHMM k = s)) \<and>
   (\<forall>m. toHHMM m = toHHMM (m mod 1440)) \<and>
   toHHMM (- 30) = str ''23:30''"
proof (intro conjI impI allI)
  assume v: "validTime s"
  obtain a b d e where t: "s = [a, b, 58, d, e]"
     and dg: "isDigit a" "isDigit b" "isDigit d" "isDigit e"
     and rg: "decimalValue [a, b] \<le> 23" "decimalValue [d, e] \<le> 59"
     and tm: "timeToMinutes s = Fin (of_nat (decimalValue [a, b] * 60 + decimalValue [d, e]))"
    using timeToMinutes_valid[OF v] by blast
  define h where "h = decimalValue [a, b]"
  define mi where "mi = decimalValue [d, e]"
  define k where "k = int (h * 60 + mi)"
  have k1: "k mod 1440 = k" using rg unfolding k_def h_def mi_def by simp
  have k2: "nat (k div 60) = h" "nat (k mod 60) = mi"
    using rg unfolding k_def h_def mi_def by auto
  have p1: "padStart2 (showNat h) = [a, b]"
    unfolding h_def decimalValue2
    using padStart2_two_digits[of "digitVal a" "digitVal b"]
      isDigit_conv[OF dg(1)] isDigit_conv[OF dg(2)]
    by (simp del: showNat.simps)
  have p2: "padStart2 (showNat mi) = [d, e]"
    unfolding mi_def decimalValue2
    using padStart2_two_digits[of "digitVal d" "digitVal e"]
      isDigit_conv[OF dg(3)] isDigit_conv[OF dg(4)]
    by (simp del: showNat.simps)
  have "toHHMM k = s"
    unfolding toHHMM_eq k1 k2 p1 p2 t by simp
  moreover have "timeToMinutes s = Fin (of_int k)" unfolding tm k_def h_def mi_def by simp
  ultimately show "\<exists>k. timeToMinutes s = Fin (of_int k) \<and> toHHMM k = s" by blast
next
  fix m show "toHHMM m = toHHMM (m mod 1440)" unfolding toHHMM_eq by simp
next
  show "toHHMM (- 30) = str ''23:30''"
    unfolding toHHMM_eq by (simp add: padStart2_def str_def)
qed

theorem toHHMM_timeToMinutes_roundtrip_witness:
  "validTime (str ''07:30'') \<and>
   (\<exists>k. timeToMinutes (str ''07:30'') = Fin (of_int k) \<and> toHHMM k = str ''07:30'')"
  using toHHMM_timeToMinutes_roundtrip[of "str ''07:30''"] validTime_0730 by blast

section \<open>Properties of the weekly trigger\<close>

lemma wrapBack_spec:
  "0 \<le> d \<Longrightarrow> d < 7 \<Longrightarrow>
   wrapBack (Fin (of_int k)) (Some d) =
     Some (Fin (of_int (fst (spec_wraparound k d))), Some (snd (spec_wraparound k d)))
   \<and> 0 \<le> fst (spec_wraparound k d) \<and> 0 \<le> snd (spec_wraparound k d)
   \<and> snd (spec_wraparound k d) < 7"
proof (induction k d rule: spec_wraparound.induct)
  case (1 minutes idx)
  show ?case
  proof (cases "minutes < 0")
    case True
    have r: "remInt (idx + 6) 7 = (idx - 1) mod 7"
      using 1(2,3) unfolding remInt_def by (auto simp: sgn_if) presburger
    have ih: "wrapBack (Fin (of_int (minutes + 1440))) (Some ((idx - 1) mod 7)) =
       Some (Fin (of_int (fst (spec_wraparound (minutes + 1440) ((idx - 1) mod 7)))),
             Some (snd (spec_wraparound (minutes + 1440) ((idx - 1) mod 7))))
     \<and> 0 \<le> fst (spec_wraparound (minutes + 1440) ((idx - 1) mod 7))
     \<and> 0 \<le> snd (spec_wraparound (minutes + 1440) ((idx - 1) mod 7))
     \<and> snd (spec_wraparound (minutes + 1440) ((idx - 1) mod 7)) < 7"
      using 1(1)[OF True] by simp
    have lt: "js_lt (Fin (of_int minutes)) (Fin 0)" using True by simp
    have step: "wrapBack (Fin (of_int minutes)) (Some idx) =
        wrapBack (Fin (of_int (minutes + 1440))) (Some ((idx - 1) mod 7))"
      by (subst wrapBack.simps) (simp add: lt r del: js_lt.simps)
    have sp: "spec_wraparound minutes idx = spec_wraparound (minutes + 1440) ((idx - 1) mod 7)"
      using True by (subst spec_wraparound.simps) simp
    show ?thesis unfolding step sp using ih by simp
  next
    case False
    have nlt: "\<not> js_lt (Fin (of_int minutes)) (Fin 0)" using False by simp
    have "wrapBack (Fin (of_int minutes)) (Some idx) = Some (Fin (of_int minutes), Some idx)"
      by (subst wrapBack.simps) (simp add: nlt del: js_lt.simps)
    moreover have "spec_wraparound minutes idx = (minutes, idx)"
      using False by (subst spec_wraparound.simps) simp
    ultimately show ?thesis using False 1(2,3) by simp
  qed
qed

lemma hour_minute:
  assumes "0 \<le> m"
  shows "js_floor (js_div (Fin (of_int m)) (Fin 60)) = Fin (of_int (m div 60))"
    and "js_rem (Fin (of_int m)) (Fin 60) = Fin (of_int (m mod 60))"
proof -
  have f: "\<lfloor>(of_int m :: rat) / 60\<rfloor> = m div 60"
    using floor_divide_of_int_eq[of m 60, where 'a = rat] by simp
  show "js_floor (js_div (Fin (of_int m)) (Fin 60)) = Fin (of_int (m div 60))"
    by (simp add: f)
  have nn: "\<not> (of_int m :: rat) / 60 < 0" using assms by simp
  have "(of_int m :: rat) = of_int (60 * (m div 60) + m mod 60)" by simp
  also have "\<dots> = 60 * of_int (m div 60) + of_int (m mod 60)"
    by (simp only: of_int_add of_int_mult of_int_numeral)
  finally have e: "(of_int m :: rat) - 60 * of_int (m div 60) = of_int (m mod 60)" by simp
  have "js_rem (Fin (of_int m)) (Fin 60) =
      Fin (of_int m - 60 * of_int (truncRat (of_int m / 60)))"
    by simp
  also have "truncRat (of_int m / 60) = m div 60"
    unfolding truncRat_def using nn f by simp
  finally show "js_rem (Fin (of_int m)) (Fin 60) = Fin (of_int (m mod 60))"
    unfolding e .
qed

lemma canonicalDays_nth:
  assumes "name \<in> set canonicalDays"
  shows "getDayNumber name = Some (spec_weekdayIndex name)
     \<and> 0 \<le> spec_weekdayIndex name \<and> spec_weekdayIndex name < 7"
proof -
  from assms consider "name = str ''Sunday''" | "name = str ''Monday''"
    | "name = str ''Tuesday''" | "name = str ''Wednesday''" | "name = str ''Thursday''"
    | "name = str ''Friday''" | "name = str ''Saturday''"
    unfolding canonicalDays_def by auto
  then show ?thesis
    by cases
      (simp_all add: getDayNumber_def dayNumbers_def canonicalDays_def spec_weekdayIndex_def
        str_def)
qed

lemma getWeeklyTrigger_valid:
  assumes "name \<in> set canonicalDays" and "validTime time"
  shows "getWeeklyTrigger name time (Fin (of_nat offset)) =
           Some (Some (spec_trigger (spec_weekdayIndex name) (spec_minutes time - int offset)))"
proof -
  define k where "k = spec_minutes time - int offset"
  have sub: "js_sub (timeToMinutes time) (Fin (of_nat offset)) = Fin (of_int k)"
    unfolding timeToMinutes_spec_minutes[OF assms(2)] k_def js_sub_def by simp
  note dn = canonicalDays_nth[OF assms(1)]
  have di: "0 \<le> spec_weekdayIndex name" "spec_weekdayIndex name < 7" using dn by simp_all
  note w = wrapBack_spec[OF di, of k]
  obtain m j where s: "spec_wraparound k (spec_weekdayIndex name) = (m, j)"
    by (cases "spec_wraparound k (spec_weekdayIndex name)")
  have m0: "0 \<le> m" using w s by simp
  have wb: "wrapBack (Fin (of_int k)) (Some (spec_weekdayIndex name)) = Some (Fin (of_int m), Some j)"
    using w s by simp
  have dn': "getDayNumber name = Some (spec_weekdayIndex name)" using dn by simp
  show ?thesis
    unfolding getWeeklyTrigger_def dn' sub Let_def
    using wb s hour_minute[OF m0] di
    by (simp add: spec_trigger_def k_def del: js_div.simps js_rem.simps js_floor.simps)
qed

text \<open>
  C1. For every item whose day is one of the seven canonical weekday names and whose time
  is a valid \<open>HH:MM\<close> string, and for every non-negative integer offset,
  \<open>getWeeklyTrigger\<close> returns a descriptor with \<open>repeats = true\<close> that is computed as the
  specification says: the minutes since midnight minus the offset; while the minutes are
  negative, 1440 is added and the weekday index steps to the previous day modulo 7; the
  hour is the minutes div 60 and the minute the minutes mod 60; the weekday is 1 for the
  final index 0 (Sunday) and the index plus one otherwise.
\<close>

theorem getWeeklyTrigger_spec:
  assumes "name \<in> set canonicalDays" and "validTime time"
  shows "getWeeklyTrigger name time (Fin (of_nat offset)) =
           Some (Some (spec_trigger (spec_weekdayIndex name) (spec_minutes time - int offset)))
       \<and> repeats (spec_trigger (spec_weekdayIndex name) (spec_minutes time - int offset))"
proof -
  have "repeats (spec_trigger i k)" for i k
    unfolding spec_trigger_def by (cases "spec_wraparound k i") simp
  then show ?thesis using getWeeklyTrigger_valid[OF assms] by simp
qed

theorem getWeeklyTrigger_spec_witness:
  "str ''Monday'' \<in> set canonicalDays \<and> validTime (str ''09:00'') \<and>
   getWeeklyTrigger (str ''Monday'') (str ''09:00'') (Fin 15) =
     Some (Some \<lparr>weekday = Some 2, hour = Fin 8, minute = Fin 45, repeats = True\<rparr>) \<and>
   str ''Sunday'' \<in> set canonicalDays \<and> validTime (str ''00:10'') \<and>
   getWeeklyTrigger (str ''Sunday'') (str ''00:10'') (Fin 30) =
     Some (Some \<lparr>weekday = Some 7, hour = Fin 23, minute = Fin 40, repeats = True\<rparr>)"
proof -
  have c1: "str ''Monday'' \<in> set canonicalDays" by (simp add: canonicalDays_def)
  have c0: "str ''Sunday'' \<in> set canonicalDays" by (simp add: canonicalDays_def)
  have m1: "spec_minutes (str ''09:00'') = 540"
    by (simp add: spec_minutes_def str_def decimalValue_def digitVal_def)
  have m2: "spec_minutes (str ''00:10'') = 10"
    by (simp add: spec_minutes_def str_def decimalValue_def digitVal_def)
  have i1: "spec_weekdayIndex (str ''Monday'') = 1"
    by (simp add: spec_weekdayIndex_def canonicalDays_def str_def)
  have i0: "spec_weekdayIndex (str ''Sunday'') = 0"
    by (simp add: spec_weekdayIndex_def canonicalDays_def str_def)
  have s1: "spec_trigger 1 525 =
      \<lparr>weekday = Some 2, hour = Fin 8, minute = Fin 45, repeats = True\<rparr>"
    by (simp add: spec_trigger_def)
  have s2: "spec_trigger 0 (- 20) =
      \<lparr>weekday = Some 7, hour = Fin 23, minute = Fin 40, repeats = True\<rparr>"
    by (simp add: spec_trigger_def)
  show ?thesis
    using getWeeklyTrigger_spec[OF c1 validTime_0900, of 15]
          getWeeklyTrigger_spec[OF c0 validTime_0010, of 30]
    unfolding m1 m2 i1 i0 using c1 c0 validTime_0900 validTime_0010 by (simp add: s1 s2)
qed

section \<open>Properties of the lecture reminder\<close>

lemma notifyHour_negative:
  "js_lt s l \<Longrightarrow> js_lt (js_floor (js_div (js_sub s l) (Fin 60))) (Fin 0)"
proof (cases s; cases l)
  fix a b assume "js_lt s l" "s = Fin a" "l = Fin b"
  then have "a - b < 0" by simp
  then have "(a - b) / 60 < 0" by simp
  then have "\<lfloor>(a - b) / 60\<rfloor> < 0" by linarith
  then show ?thesis using \<open>s = Fin a\<close> \<open>l = Fin b\<close> by (simp add: js_sub_def)
qed (simp_all add: js_sub_def js_inf_def js_sign_def)

text \<open>
  C4. For every lecture whose start time, converted to minutes since midnight, is strictly
  less than the lead time, the lecture reminder \<open>scheduleNotification\<close> returns
  \<open>null\<close> and makes no schedule call (the only calls it makes are those of the
  permission check): the lecture path does not wrap around into the previous weekday.
\<close>

theorem scheduleNotification_no_wraparound:
  assumes "js_lt (timeToMinutes (startTime lec)) leadTime"
  shows "fst (scheduleNotification dev lec leadTime calls) = Resolved None
       \<and> snd (scheduleNotification dev lec leadTime calls)
           = snd (requestNotificationPermissions dev calls)
       \<and> filter isScheduleCall (snd (scheduleNotification dev lec leadTime calls))
           = filter isScheduleCall calls"
proof -
  have h: "js_lt (js_floor (js_div (js_sub (timeToMinutes (startTime lec)) leadTime) (Fin 60)))
      (Fin 0)"
    using notifyHour_negative[OF assms] .
  have a: "scheduleNotification dev lec leadTime calls =
      (Resolved None, snd (requestNotificationPermissions dev calls))"
    unfolding scheduleNotification_def Let_def using h
    by (simp split: prod.splits del: js_lt.simps js_floor.simps js_div.simps js_rem.simps)
  have b: "filter isScheduleCall (snd (requestNotificationPermissions dev calls))
      = filter isScheduleCall calls"
    by (simp add: requestNotificationPermissions_def isScheduleCall_def)
  show ?thesis unfolding a using b by simp
qed

theorem scheduleNotification_no_wraparound_witness:
  "js_lt (timeToMinutes (startTime sunday_lecture)) (Fin 30)
   \<and> scheduleNotification granted_phone sunday_lecture (Fin 30) [] = (Resolved None, [GetPermissions])
   \<and> getWeeklyTrigger (day sunday_lecture) (startTime sunday_lecture) (Fin 30) =
       Some (Some \<lparr>weekday = Some 7, hour = Fin 23, minute = Fin 40, repeats = True\<rparr>)"
proof -
  have h: "js_lt (timeToMinutes (startTime sunday_lecture)) (Fin 30)"
    by (simp add: sunday_lecture_def timeToMinutes_0010)
  have p: "requestNotificationPermissions granted_phone [] = (True, [GetPermissions])"
    by (simp add: requestNotificationPermissions_def granted_phone_def)
  from scheduleNotification_no_wraparound[OF h, of granted_phone "[]"] p
  have s: "scheduleNotification granted_phone sunday_lecture (Fin 30) [] =
      (Resolved None, [GetPermissions])"
    by (cases "scheduleNotification granted_phone sunday_lecture (Fin 30) []") simp
  have c0: "str ''Sunday'' \<in> set canonicalDays" by (simp add: canonicalDays_def)
  have g: "getWeeklyTrigger (str ''Sunday'') (str ''00:10'') (Fin 30) =
       Some (Some \<lparr>weekday = Some 7, hour = Fin 23, minute = Fin 40, repeats = True\<rparr>)"
    using getWeeklyTrigger_valid[OF c0 validTime_0010, of 30]
    by (simp add: spec_minutes_def spec_weekdayIndex_def canonicalDays_def str_def
        decimalValue_def digitVal_def spec_trigger_def)
  from h s g show ?thesis by (simp add: sunday_lecture_def)
qed

section \<open>Properties of the routine reminders\<close>

lemma extends_refl: "extends a a" by (simp add: extends_def)

lemma extends_trans: "extends a b \<Longrightarrow> extends b c \<Longrightarrow> extends a c"
  unfolding extends_def by (metis append.assoc list_all_append)

lemma extends_append: "list_all (\<lambda>c. \<not> isCancelCall c) xs \<Longrightarrow> extends a (a @ xs)"
  by (auto simp: extends_def)

lemma addsNoCancel_Done: "extends a b \<Longrightarrow> addsNoCancel a (Done x b)"
  by (simp add: addsNoCancel_def callsOf_def)

lemma addsNoCancel_Failed: "extends a b \<Longrightarrow> addsNoCancel a (Failed b)"
  by (simp add: addsNoCancel_def callsOf_def)

lemma addsNoCancel_andThen:
  assumes "addsNoCancel a r" and "\<And>x b. extends a b \<Longrightarrow> addsNoCancel b (f x b)"
  shows "addsNoCancel a (andThen r f)"
proof (cases r)
  case (Done x b)
  with assms(1) have e: "extends a b" by (simp add: addsNoCancel_def callsOf_def)
  from assms(2)[OF e, of x] have "addsNoCancel b (f x b)" .
  then have "addsNoCancel a (f x b)"
    using e by (auto simp: addsNoCancel_def intro: extends_trans split: option.splits)
  then show ?thesis using Done by (simp add: andThen_def)
next
  case (Failed b) then show ?thesis using assms(1) by (simp add: andThen_def addsNoCancel_def callsOf_def)
next
  case Hangs then show ?thesis using assms(1) by (simp add: addsNoCancel_def callsOf_def)
qed

lemma cancelAll_calls: "cancelAll dev ids calls = Done () (calls @ map CancelScheduled ids)"
  by (induction ids arbitrary: calls)
     (simp_all add: andThen_def catchIgnore_def cancelScheduledNotificationAsync_def)

lemma scheduleWith_adds:
  "trig \<noteq> None \<Longrightarrow> addsNoCancel calls (scheduleWith dev content trig ids calls)"
  unfolding scheduleWith_def
  by (auto simp: addsNoCancel_def callsOf_def extends_def isCancelCall_def split: option.splits)

lemma ensure_extends: "extends calls (snd (ensureNotificationPermission dev calls))"
  unfolding ensureNotificationPermission_def by (auto simp: extends_def isCancelCall_def)

lemma scheduleRoutine_adds:
  assumes "r_day item \<in> set canonicalDays" "validTime (r_startTime item)" "validTime (r_endTime item)"
  shows "addsNoCancel calls (scheduleRoutineNotifications dev item (Fin (of_nat n)) calls)"
proof -
  have g1: "getWeeklyTrigger (r_day item) (r_startTime item) (Fin (of_nat k)) \<noteq> None" for k
    using getWeeklyTrigger_valid[OF assms(1,2), of k] by simp
  have g2: "getWeeklyTrigger (r_day item) (r_endTime item) (Fin (of_nat k)) \<noteq> None" for k
    using getWeeklyTrigger_valid[OF assms(1,3), of k] by simp
  have g10: "getWeeklyTrigger (r_day item) (r_startTime item) (Fin 0) \<noteq> None" using g1[of 0] by simp
  have g20: "getWeeklyTrigger (r_day item) (r_endTime item) (Fin 0) \<noteq> None" using g2[of 0] by simp
  obtain hp c1 where e: "ensureNotificationPermission dev calls = (hp, c1)" by (cases "ensureNotificationPermission dev calls")
  have ex: "extends calls c1" using ensure_extends[of calls dev] e by simp
  have inner: "addsNoCancel c1 (andThen
               (if js_lt (Fin 0) (Fin (of_nat n))
                then scheduleWith dev
                       (Content (str ''Upcoming routine: '' @ r_title item) bd (str ''default''))
                       (getWeeklyTrigger (r_day item) (r_startTime item) (Fin (of_nat n))) [] c1
                else Done [] c1)
               (\<lambda>ids1 calls2.
                  andThen
                    (scheduleWith dev
                       (Content (str ''Start now: '' @ r_title item) bd (str ''default''))
                       (getWeeklyTrigger (r_day item) (r_startTime item) (Fin 0)) ids1 calls2)
                    (\<lambda>ids2 calls3.
                       andThen
                         (scheduleWith dev
                            (Content (str ''Ended: '' @ r_title item) bd (str ''default''))
                            (getWeeklyTrigger (r_day item) (r_endTime item) (Fin 0)) ids2 calls3)
                         (\<lambda>ids3 calls4. Done (if ids3 \<noteq> [] then Some ids3 else None) calls4))))" for bd
    apply (rule addsNoCancel_andThen)
     apply (cases "js_lt (Fin 0) (Fin (of_nat n))")
      apply (simp only: if_True)
      apply (rule scheduleWith_adds[OF g1])
     apply (simp only: if_False)
     apply (rule addsNoCancel_Done[OF extends_refl])
    apply (rule addsNoCancel_andThen)
     apply (rule scheduleWith_adds[OF g10])
    apply (rule addsNoCancel_andThen)
     apply (rule scheduleWith_adds[OF g20])
    apply (rule addsNoCancel_Done[OF extends_refl])
    done
  show ?thesis
  proof (cases hp)
    case False
    then show ?thesis unfolding scheduleRoutineNotifications_def e using ex
      by (simp add: addsNoCancel_Done)
  next
    case True
    have "addsNoCancel calls (scheduleRoutineNotifications dev item (Fin (of_nat n)) calls)
       = addsNoCancel calls (andThen
               (if js_lt (Fin 0) (Fin (of_nat n))
                then scheduleWith dev
                       (Content (str ''Upcoming routine: '' @ r_title item) (r_day item @ [32] @ r_startTime item @ str '' - '' @ r_endTime item
                   @ (if r_notes item \<noteq> [] then [32, 8226, 32] @ r_notes item else [])) (str ''default''))
                       (getWeeklyTrigger (r_day item) (r_startTime item) (Fin (of_nat n))) [] c1
                else Done [] c1)
               (\<lambda>ids1 calls2.
                  andThen
                    (scheduleWith dev
                       (Content (str ''Start now: '' @ r_title item) (r_day item @ [32] @ r_startTime item @ str '' - '' @ r_endTime item
                   @ (if r_notes item \<noteq> [] then [32, 8226, 32] @ r_notes item else [])) (str ''default''))
                       (getWeeklyTrigger (r_day item) (r_startTime item) (Fin 0)) ids1 calls2)
                    (\<lambda>ids2 calls3.
                       andThen
                         (scheduleWith dev
                            (Content (str ''Ended: '' @ r_title item) (r_day item @ [32] @ r_startTime item @ str '' - '' @ r_endTime item
                   @ (if r_notes item \<noteq> [] then [32, 8226, 32] @ r_notes item else [])) (str ''default''))
                            (getWeeklyTrigger (r_day item) (r_endTime item) (Fin 0)) ids2 calls3)
                         (\<lambda>ids3 calls4. Done (if ids3 \<noteq> [] then Some ids3 else None) calls4))))"
      unfolding scheduleRoutineNotifications_def e Let_def using True by (simp only: prod.case not_True_eq_False if_False)
    moreover have "addsNoCancel calls r" if "addsNoCancel c1 r" for r :: "jsstring list option outcome"
      using that ex by (auto simp: addsNoCancel_def intro: extends_trans split: option.splits)
    ultimately show ?thesis using inner by blast
  qed
qed

lemma withReminders_adds:
  assumes "r_day item \<in> set canonicalDays" "validTime (r_startTime item)" "validTime (r_endTime item)"
  shows "addsNoCancel calls (withReminders dev en item (Fin (of_nat n)) calls)"
proof (cases en)
  case False
  then show ?thesis by (simp add: withReminders_def addsNoCancel_Done extends_refl)
next
  case True
  have a: "list_all (\<lambda>c. \<not> isCancelCall c) (if s = None then [AlertCall x y] else [])" for s :: "jsstring list option" and x y
    by (simp add: isCancelCall_def)
  show ?thesis
    unfolding withReminders_def using True
    apply (simp only: if_True)
    apply (rule addsNoCancel_andThen)
     apply (rule scheduleRoutine_adds[OF assms])
    apply (rule addsNoCancel_Done)
    apply (rule extends_append)
    apply (rule a)
    done
qed

lemma persistRoutine_adds: "addsNoCancel calls (persistRoutine dev next calls)"
  unfolding persistRoutine_def
  by (auto simp: addsNoCancel_def callsOf_def extends_def isCancelCall_def)

lemma dayName_canonical:
  "(case map_of DAY_FULL x of Some d \<Rightarrow> d | None \<Rightarrow> str ''Monday'') \<in> set canonicalDays"
proof (cases "map_of DAY_FULL x")
  case None
  then show ?thesis by (simp add: canonicalDays_def)
next
  case (Some d)
  then have "(x, d) \<in> set DAY_FULL" by (rule map_of_SomeD)
  then have "d \<in> set canonicalDays" unfolding DAY_FULL_def canonicalDays_def by auto
  then show ?thesis using Some by simp
qed

lemma cancelFails_irrelevant_scheduleWith:
  "scheduleWith (dev\<lparr>cancelFails := cf\<rparr>) c t ids calls = scheduleWith dev c t ids calls"
  by (simp add: scheduleWith_def split: option.splits)

lemma cancelFails_irrelevant_ensure:
  "ensureNotificationPermission (dev\<lparr>cancelFails := cf\<rparr>) calls
     = ensureNotificationPermission dev calls"
  by (simp add: ensureNotificationPermission_def)

lemma cancelFails_irrelevant_persist:
  "persistRoutine (dev\<lparr>cancelFails := cf\<rparr>) next calls = persistRoutine dev next calls"
  by (simp add: persistRoutine_def)

lemma cancelFails_irrelevant_cancel:
  "cancelRoutineNotifications (dev\<lparr>cancelFails := cf\<rparr>) item calls
     = cancelRoutineNotifications dev item calls"
  by (simp add: cancelRoutineNotifications_def cancelAll_calls)

lemma cancelFails_irrelevant_schedule:
  "scheduleRoutineNotifications (dev\<lparr>cancelFails := cf\<rparr>) item l calls
     = scheduleRoutineNotifications dev item l calls"
  unfolding scheduleRoutineNotifications_def cancelFails_irrelevant_scheduleWith
    cancelFails_irrelevant_ensure ..

lemma cancelFails_irrelevant_withReminders:
  "withReminders (dev\<lparr>cancelFails := cf\<rparr>) en item l calls = withReminders dev en item l calls"
  unfolding withReminders_def cancelFails_irrelevant_schedule ..

lemma cancelFails_irrelevant_save:
  "saveItem (dev\<lparr>cancelFails := cf\<rparr>) f items l now calls = saveItem dev f items l now calls"
  unfolding saveItem_def cancelFails_irrelevant_cancel
    cancelFails_irrelevant_withReminders cancelFails_irrelevant_persist ..

text \<open>
  C8. When a routine item that has stored reminder identifiers is edited and saved with
  reminders enabled, a cancel call is made for every prior identifier before any schedule
  call: the call log is the log so far, then the cancel calls in the order of the
  identifiers, then calls none of which is a cancel call. No cancellation failure surfaces:
  the outcome does not depend on which cancellations fail.
\<close>

theorem saveItem_cancels_before_scheduling:
  assumes "trim (f_title f) \<noteq> []"
    and "validTime (trim (f_startTime f))" and "validTime (trim (f_endTime f))"
    and "\<not> js_le (timeToMinutes (trim (f_endTime f))) (timeToMinutes (trim (f_startTime f)))"
    and "f_editingId f = Some e" and "e \<noteq> []"
    and "find (\<lambda>i. Some (r_id i) = f_editingId f) items = Some prev"
    and "f_reminderEnabled f"
  shows "(\<exists>rest. callsOf (saveItem dev f items (Fin (of_nat n)) now calls)
            = Some (calls @ map CancelScheduled (getRoutineNotificationIds prev) @ rest)
          \<and> list_all (\<lambda>c. \<not> isCancelCall c) rest)
       \<and> saveItem (dev\<lparr>cancelFails := cf\<rparr>) f items (Fin (of_nat n)) now calls
           = saveItem dev f items (Fin (of_nat n)) now calls"
proof -
  define dayName where "dayName = (case map_of DAY_FULL (f_formDay f) of Some d \<Rightarrow> d | None \<Rightarrow> str ''Monday'')"
  define nextBase where "nextBase = prev\<lparr>r_title := trim (f_title f), r_day := dayName,
                                r_startTime := trim (f_startTime f), r_endTime := trim (f_endTime f),
                                r_notes := trim (f_notes f),
                                r_reminderEnabled := (if f_reminderEnabled f then 1 else 0),
                                r_reminderIds := Some [], r_reminderId := None\<rparr>"
  define c1 where "c1 = calls @ map CancelScheduled (getRoutineNotificationIds prev)"
  define tail where "tail = andThen (withReminders dev (f_reminderEnabled f) nextBase (Fin (of_nat n)) c1)
                       (\<lambda>nextBase calls2.
                          andThen
                            (persistRoutine dev
                               (map (\<lambda>i. if Some (r_id i) = f_editingId f then nextBase else i) items)
                               calls2)
                            (\<lambda>_ calls3. Done () (calls3 @ [HapticsSelection, CloseModal])))"
  have s: "saveItem dev f items (Fin (of_nat n)) now calls = tail"
    unfolding saveItem_def tail_def nextBase_def dayName_def c1_def Let_def
      cancelRoutineNotifications_def cancelAll_calls
    using assms by (simp add: andThen_def)
  have nb: "r_day nextBase \<in> set canonicalDays" "validTime (r_startTime nextBase)" "validTime (r_endTime nextBase)"
    unfolding nextBase_def dayName_def using dayName_canonical assms(2,3) by simp_all
  have hc: "list_all (\<lambda>c. \<not> isCancelCall c) [HapticsSelection, CloseModal]"
    by (simp add: isCancelCall_def)
  have "addsNoCancel c1 tail"
    unfolding tail_def
    apply (rule addsNoCancel_andThen)
     apply (rule withReminders_adds[OF nb])
    apply (rule addsNoCancel_andThen)
     apply (rule persistRoutine_adds)
    apply (rule addsNoCancel_Done)
    apply (rule extends_append[OF hc])
    done
  then obtain rest where "callsOf tail = Some (c1 @ rest)" "list_all (\<lambda>c. \<not> isCancelCall c) rest"
    unfolding addsNoCancel_def extends_def by (auto split: option.splits)
  then have part1: "\<exists>rest. callsOf (saveItem dev f items (Fin (of_nat n)) now calls)
            = Some (calls @ map CancelScheduled (getRoutineNotificationIds prev) @ rest)
          \<and> list_all (\<lambda>c. \<not> isCancelCall c) rest"
    unfolding s c1_def by auto
  show ?thesis using part1 cancelFails_irrelevant_save by blast
qed

lemma trim_Gym: "trim (str ''Gym'') = str ''Gym''" by (simp add: trim_def str_def isSpace_def)
lemma trim_0010: "trim (str ''00:10'') = str ''00:10''" by (simp add: trim_def str_def isSpace_def)
lemma trim_0900: "trim (str ''09:00'') = str ''09:00''" by (simp add: trim_def str_def isSpace_def)
lemma timeToMinutes_0900: "timeToMinutes (str ''09:00'') = Fin 540"
  unfolding timeToMinutes_spec_minutes[OF validTime_0900]
  by (simp add: spec_minutes_def str_def decimalValue_def digitVal_def)

theorem saveItem_cancels_before_scheduling_witness:
  "trim (f_title gym_form) \<noteq> []
   \<and> validTime (trim (f_startTime gym_form)) \<and> validTime (trim (f_endTime gym_form))
   \<and> \<not> js_le (timeToMinutes (trim (f_endTime gym_form))) (timeToMinutes (trim (f_startTime gym_form)))
   \<and> f_editingId gym_form = Some (str ''42'')
   \<and> find (\<lambda>i. Some (r_id i) = f_editingId gym_form) [gym_item] = Some gym_item
   \<and> f_reminderEnabled gym_form
   \<and> getRoutineNotificationIds gym_item = [str ''a'', str ''b'']
   \<and> (\<exists>rest. callsOf (saveItem failing_cancel_phone gym_form [gym_item] (Fin 30) 0 [])
          = Some ([CancelScheduled (str ''a''), CancelScheduled (str ''b'')] @ rest)
        \<and> list_all (\<lambda>c. \<not> isCancelCall c) rest)
   \<and> saveItem failing_cancel_phone gym_form [gym_item] (Fin 30) 0 []
       = saveItem granted_phone gym_form [gym_item] (Fin 30) 0 []"
proof -
  have h1: "trim (f_title gym_form) \<noteq> []" by (simp add: gym_form_def trim_Gym) (simp add: str_def)
  have h2: "validTime (trim (f_startTime gym_form))" by (simp add: gym_form_def trim_0010 validTime_0010)
  have h3: "validTime (trim (f_endTime gym_form))" by (simp add: gym_form_def trim_0900 validTime_0900)
  have h4: "\<not> js_le (timeToMinutes (trim (f_endTime gym_form))) (timeToMinutes (trim (f_startTime gym_form)))"
    by (simp add: gym_form_def trim_0010 trim_0900 timeToMinutes_0010 timeToMinutes_0900)
  have h5: "f_editingId gym_form = Some (str ''42'')" by (simp add: gym_form_def)
  have h6: "str ''42'' \<noteq> []" by (simp add: str_def)
  have h7: "find (\<lambda>i. Some (r_id i) = f_editingId gym_form) [gym_item] = Some gym_item"
    by (simp add: gym_form_def gym_item_def)
  have h8: "f_reminderEnabled gym_form" by (simp add: gym_form_def)
  have ids: "getRoutineNotificationIds gym_item = [str ''a'', str ''b'']"
    by (simp add: getRoutineNotificationIds_def gym_item_def)
  have fp: "failing_cancel_phone = granted_phone\<lparr>cancelFails := (\<lambda>_. True)\<rparr>"
    by (simp add: failing_cancel_phone_def)
  note t = saveItem_cancels_before_scheduling[OF h1 h2 h3 h4 h5 h6 h7 h8, of granted_phone 30 0 "[]" "\<lambda>_. True"]
  note t' = saveItem_cancels_before_scheduling[OF h1 h2 h3 h4 h5 h6 h7 h8, of failing_cancel_phone 30 0 "[]" "\<lambda>_. True"]
  from t t' show ?thesis
    unfolding ids fp[symmetric] using h1 h2 h3 h4 h5 h7 h8 by simp
qed

section \<open>Properties of the JSON lecture import\<close>










section \<open>Properties of the timetable segmentation\<close>

lemma daySegmentsFrom_no_day:
  "\<forall>t\<in>set suffix. t \<notin> set DAYS \<Longrightarrow> daySegmentsFrom pending suffix = []"
  by (induction suffix arbitrary: pending) simp_all

lemma daySegmentsFrom_append_no_day:
  "\<forall>t\<in>set suffix. t \<notin> set DAYS \<Longrightarrow>
   daySegmentsFrom pending (ts @ suffix) = daySegmentsFrom pending ts"
  by (induction ts arbitrary: pending) (simp_all add: daySegmentsFrom_no_day)

lemma daySegmentsFrom_marker:
  "\<forall>t\<in>set pre. t \<notin> set DAYS \<Longrightarrow> d \<in> set DAYS \<Longrightarrow>
   daySegmentsFrom pending (pre @ d # rest) = (d, pending @ pre) # daySegmentsFrom [] rest"
  by (induction pre arbitrary: pending) simp_all

lemma slotTable_append_no_slot:
  assumes "\<forall>t\<in>set suffix. parseSlotRange t = None"
  shows "slotTable (ts @ suffix) = slotTable ts"
proof -
  have "List.map_filter parseSlotRange suffix = []"
    using assms by (induction suffix) (simp_all add: List.map_filter_simps)
  then have "List.map_filter parseSlotRange (ts @ suffix) = List.map_filter parseSlotRange ts"
    by (simp add: List.map_filter_def)
  then show ?thesis by (simp add: slotTable_def)
qed

text \<open>
  C2, as amended. The tokens that precede a weekday name, back to the previous weekday
  name or to the start of the stream, are the segment of that day; the tokens after the
  last weekday name belong to no segment. Tokens after the last weekday name, when none of
  them is a slot marker, change nothing in the lectures that are emitted.
\<close>

theorem daySegments_trailing_marker:
  "(\<forall>pre d rest. d \<in> set DAYS \<and> (\<forall>t\<in>set pre. t \<notin> set DAYS) \<longrightarrow>
       daySegments (pre @ d # rest) = (d, pre) # daySegments rest)
   \<and> (\<forall>ts suffix. (\<forall>t\<in>set suffix. t \<notin> set DAYS) \<longrightarrow> daySegments (ts @ suffix) = daySegments ts)
   \<and> (\<forall>ts suffix. (\<forall>t\<in>set suffix. t \<notin> set DAYS \<and> parseSlotRange t = None) \<longrightarrow>
       parseTimetableTokens (ts @ suffix) semesterInput sectionInput
         = parseTimetableTokens ts semesterInput sectionInput)"
proof (intro conjI allI impI)
  fix pre d rest
  assume "d \<in> set DAYS \<and> (\<forall>t\<in>set pre. t \<notin> set DAYS)"
  then show "daySegments (pre @ d # rest) = (d, pre) # daySegments rest"
    unfolding daySegments_def using daySegmentsFrom_marker[of pre d "[]" rest] by simp
next
  fix ts suffix :: "jsstring list"
  assume "\<forall>t\<in>set suffix. t \<notin> set DAYS"
  then show "daySegments (ts @ suffix) = daySegments ts"
    unfolding daySegments_def by (rule daySegmentsFrom_append_no_day)
next
  fix ts suffix :: "jsstring list"
  assume a: "\<forall>t\<in>set suffix. t \<notin> set DAYS \<and> parseSlotRange t = None"
  then have d: "daySegments (ts @ suffix) = daySegments ts"
    unfolding daySegments_def using daySegmentsFrom_append_no_day[of suffix "[]" ts] by blast
  from a have s: "slotTable (ts @ suffix) = slotTable ts"
    using slotTable_append_no_slot[of suffix ts] by blast
  show "parseTimetableTokens (ts @ suffix) semesterInput sectionInput
         = parseTimetableTokens ts semesterInput sectionInput"
  proof (cases "ts = []")
    case True
    have "daySegments suffix = []"
      using a unfolding daySegments_def using daySegmentsFrom_no_day[of suffix "[]"] by blast
    then show ?thesis using True
      by (simp add: parseTimetableTokens_def Let_def split: option.splits)
  next
    case False
    then show ?thesis
      by (simp add: parseTimetableTokens_def Let_def d s split: option.splits)
  qed
qed

lemma not_day_simps:
  "str ''5th Semester'' \<notin> set DAYS" "str ''OOP'' \<notin> set DAYS" "str ''CR-1'' \<notin> set DAYS"
  "str ''Monday'' \<in> set DAYS"
  by (simp_all add: DAYS_def str_def)

lemma example_segments:
  "daySegments [str ''5th Semester'', str ''OOP'', str ''CR-1'', str ''Monday'']
     = [(str ''Monday'', [str ''5th Semester'', str ''OOP'', str ''CR-1''])]"
  "daySegments [str ''Monday'', str ''5th Semester'', str ''OOP'', str ''CR-1''] = [(str ''Monday'', [])]"
  by (simp_all add: daySegments_def not_day_simps)

lemma searchSlot_no_hyphen: "45 \<notin> set s \<Longrightarrow> searchSlot s = None"
proof (induction s)
  case Nil then show ?case by simp
next
  case (Cons c s)
  then have "matchSlotHere (c # s) = None"
    by (auto simp: matchSlotHere_def split: list.splits)
  with Cons show ?case by simp
qed

lemma ex_slots:
  "parseSlotRange (str ''5th Semester'') = None" "parseSlotRange (str ''OOP'') = None"
  "parseSlotRange (str ''Monday'') = None"
proof -
  have "45 \<notin> set (str ''5th Semester'')" "45 \<notin> set (str ''OOP'')" "45 \<notin> set (str ''Monday'')"
    by (simp_all add: str_def)
  then show "parseSlotRange (str ''5th Semester'') = None" "parseSlotRange (str ''OOP'') = None"
    "parseSlotRange (str ''Monday'') = None"
    by (simp_all add: parseSlotRange_def searchSlot_no_hyphen)
qed

lemma ex_slot_cr: "parseSlotRange (str ''CR-1'') = None"
  by (simp add: parseSlotRange_def str_def matchSlotHere_def lowerChar_def)

lemma ex_sem: "parseSemesterNumber (str ''5'') = Some 5" "parseSemesterNumber (str ''5th Semester'') = Some 5"
  "parseSemesterNumber (str ''OOP'') = None"
  by (simp_all add: parseSemesterNumber_def str_def)

lemma ex_ends: "endsWithCI (str ''Semester'') (str ''5th Semester'')"
  by (simp add: endsWithCI_def sameTextCI_def str_def lowerChar_def)

lemma ex_room: "roomPattern (str ''CR-1'')"
  by (simp add: roomPattern_def startsWithCI_def sameTextCI_def str_def lowerChar_def)

lemma ex_ctl: "str ''OOP'' \<notin> set controlTokens" "str ''CR-1'' \<notin> set controlTokens"
  by (simp_all add: controlTokens_def DAYS_def SECTION_ORDER_def str_def)

lemma ex_teacher: "\<not> teacherPattern []"
  by (simp add: teacherPattern_def startsWithCI_def sameTextCI_def str_def)

lemma ex_slotTable:
  "slotTable [str ''5th Semester'', str ''OOP'', str ''CR-1'', str ''Monday''] = defaultSlots"
  "slotTable [str ''Monday'', str ''5th Semester'', str ''OOP'', str ''CR-1''] = defaultSlots"
  by (simp_all add: slotTable_def List.map_filter_simps ex_slots ex_slot_cr defaultSlots_def)


lemma step1:
  "walkSegment 5 [] defaultSlots (str ''Monday'')
     \<lparr>currentSemester = 0, currentSection = [], sectionOrderIndex = 0, slotIndex = 0,
      lectures = [], seen = []\<rparr> [str ''5th Semester'', str ''OOP'', str ''CR-1'']
   = walkSegment 5 [] defaultSlots (str ''Monday'')
     \<lparr>currentSemester = 5, currentSection = [], sectionOrderIndex = 0, slotIndex = 0,
      lectures = [], seen = []\<rparr> [str ''OOP'', str ''CR-1'']"
  by (subst walkSegment.simps(2)) (simp add: ex_sem ex_ends del: walkSegment.simps)

lemma step2:
  "walkSegment 5 [] defaultSlots (str ''Monday'')
     \<lparr>currentSemester = 5, currentSection = [], sectionOrderIndex = 0, slotIndex = 0,
      lectures = [], seen = []\<rparr> [str ''OOP'', str ''CR-1'']
   = walkSegment 5 [] defaultSlots (str ''Monday'')
     \<lparr>currentSemester = 5, currentSection = [], sectionOrderIndex = 0, slotIndex = 1,
      lectures = [\<lparr>day = str ''Monday'', subject = str ''OOP'', room = str ''CR-1'',
         teacher = str ''TBA'', startTime = str ''08:00'', endTime = str ''09:20'',
         reminderEnabled = Some 0\<rparr>],
      seen = [str ''Monday|08:00|09:20|OOP|CR-1|TBA'']\<rparr> []"
proof -
  have n: "str ''OOP'' \<noteq> str ''M1''" "str ''OOP'' \<noteq> str ''M2''" "str ''OOP'' \<noteq> str ''A''" "str ''OOP'' \<noteq> str ''B''"
    "str ''CR-1'' \<noteq> []"
    by (simp_all add: str_def)
  have k: "str ''Monday'' @ [124] @ str ''08:00'' @ [124] @ str ''09:20'' @ [124] @ str ''OOP'' @ [124] @ str ''CR-1'' @ [124] @ str ''TBA'' = str ''Monday|08:00|09:20|OOP|CR-1|TBA''"
    by (simp add: str_def)
  have d: "length defaultSlots = 6" "defaultSlots ! 0 = (str ''08:00'', str ''09:20'')"
    by (simp_all add: defaultSlots_def)
  show ?thesis
    apply (subst walkSegment.simps(2))
    apply (simp add: ex_sem ex_ends ex_room ex_ctl ex_teacher n d Let_def k
        del: walkSegment.simps append.simps)
    apply (simp del: walkSegment.simps)
    done
qed

lemma ex_walk:
  "walkSegment 5 [] defaultSlots (str ''Monday'')
     \<lparr>currentSemester = 0, currentSection = [], sectionOrderIndex = 0, slotIndex = 0,
      lectures = [], seen = []\<rparr> [str ''5th Semester'', str ''OOP'', str ''CR-1'']
   = \<lparr>currentSemester = 5, currentSection = [], sectionOrderIndex = 0, slotIndex = 1,
      lectures = [\<lparr>day = str ''Monday'', subject = str ''OOP'', room = str ''CR-1'',
         teacher = str ''TBA'', startTime = str ''08:00'', endTime = str ''09:20'',
         reminderEnabled = Some 0\<rparr>],
      seen = [str ''Monday|08:00|09:20|OOP|CR-1|TBA'']\<rparr>"
  unfolding step1 step2 by (subst walkSegment.simps(1)) (rule refl)


text \<open>
  The claim C2 as stated fails: the tokens before the first weekday name are the segment
  of that weekday, and a subject and a room among them are emitted as a lecture; the
  tokens after the last weekday name are the ones that are dropped.
\<close>

theorem tokens_before_first_marker_counterexample:
  "daySegments [str ''5th Semester'', str ''OOP'', str ''CR-1'', str ''Monday'']
     = [(str ''Monday'', [str ''5th Semester'', str ''OOP'', str ''CR-1''])]
   \<and> parseTimetableTokens [str ''5th Semester'', str ''OOP'', str ''CR-1'', str ''Monday'']
        (str ''5'') []
     = Inr [\<lparr>day = str ''Monday'', subject = str ''OOP'', room = str ''CR-1'',
         teacher = str ''TBA'', startTime = str ''08:00'', endTime = str ''09:20'',
         reminderEnabled = Some 0\<rparr>]
   \<and> parseTimetableTokens [str ''Monday'', str ''5th Semester'', str ''OOP'', str ''CR-1'']
        (str ''5'') [] = Inr []"
proof -
  have t: "map upperChar (trim []) = []" by (simp add: trim_def)
  have a: "parseTimetableTokens [str ''5th Semester'', str ''OOP'', str ''CR-1'', str ''Monday'']
        (str ''5'') []
     = Inr [\<lparr>day = str ''Monday'', subject = str ''OOP'', room = str ''CR-1'',
         teacher = str ''TBA'', startTime = str ''08:00'', endTime = str ''09:20'',
         reminderEnabled = Some 0\<rparr>]"
    unfolding parseTimetableTokens_def ex_sem example_segments ex_slotTable t Let_def
    by (simp add: ex_walk del: walkSegment.simps)
  have b: "parseTimetableTokens [str ''Monday'', str ''5th Semester'', str ''OOP'', str ''CR-1'']
        (str ''5'') [] = Inr []"
    unfolding parseTimetableTokens_def ex_sem example_segments ex_slotTable t Let_def
    by simp
  from a b example_segments(1) show ?thesis by simp
qed

theorem daySegments_trailing_marker_witness:
  "str ''Monday'' \<in> set DAYS \<and> str ''OOP'' \<notin> set DAYS \<and> str ''CR-1'' \<notin> set DAYS
   \<and> parseSlotRange (str ''OOP'') = None \<and> parseSlotRange (str ''CR-1'') = None
   \<and> daySegments ([str ''OOP''] @ str ''Monday'' # [str ''CR-1''])
        = (str ''Monday'', [str ''OOP'']) # daySegments [str ''CR-1'']
   \<and> daySegments ([str ''Monday''] @ [str ''OOP'', str ''CR-1'']) = daySegments [str ''Monday'']
   \<and> parseTimetableTokens ([str ''Monday''] @ [str ''OOP'', str ''CR-1'']) (str ''5'') []
        = parseTimetableTokens [str ''Monday''] (str ''5'') []"
proof -
  have f: "str ''Monday'' \<in> set DAYS" "str ''OOP'' \<notin> set DAYS"
      "str ''CR-1'' \<notin> set DAYS" "parseSlotRange (str ''OOP'') = None"
      "parseSlotRange (str ''CR-1'') = None"
    by (simp_all add: not_day_simps ex_slots ex_slot_cr)
  from f have h1: "str ''Monday'' \<in> set DAYS \<and> (\<forall>t\<in>set [str ''OOP'']. t \<notin> set DAYS)"
    by simp
  from f have h2: "\<forall>t\<in>set [str ''OOP'', str ''CR-1'']. t \<notin> set DAYS \<and> parseSlotRange t = None"
    by simp
  from f have h3: "\<forall>t\<in>set [str ''OOP'', str ''CR-1'']. t \<notin> set DAYS" by simp
  note t = daySegments_trailing_marker[of "str ''5''" "[]"]
  from t h1 have a: "daySegments ([str ''OOP''] @ str ''Monday'' # [str ''CR-1''])
        = (str ''Monday'', [str ''OOP'']) # daySegments [str ''CR-1'']" by blast
  from t h3 have b: "daySegments ([str ''Monday''] @ [str ''OOP'', str ''CR-1''])
        = daySegments [str ''Monday'']" by blast
  from t h2 have c: "parseTimetableTokens ([str ''Monday''] @ [str ''OOP'', str ''CR-1'']) (str ''5'') []
        = parseTimetableTokens [str ''Monday''] (str ''5'') []" by blast
  show ?thesis
    apply (intro conjI)
    apply (rule f(1))
    apply (rule f(2))
    apply (rule f(3))
    apply (rule f(4))
    apply (rule f(5))
    apply (rule a)
    apply (rule b)
    apply (rule c)
    done
qed

section \<open>Properties of the slot times\<close>

lemma hourDigits_cases:
  assumes "hourDigits h"
  obtains a where "h = [a]" "isDigit a" | a b where "h = [a, b]" "isDigit a" "isDigit b"
proof -
  from assms have l: "length h = 1 \<or> length h = 2" and d: "list_all isDigit h"
    by (simp_all add: hourDigits_def)
  from l show ?thesis
  proof
    assume "length h = 1"
    then obtain a where "h = [a]" by (cases h) auto
    with d that(1) show ?thesis by simp
  next
    assume "length h = 2"
    then obtain a b where "h = [a, b]" by (cases h; cases "tl h") auto
    with d that(2) show ?thesis by simp
  qed
qed

lemma minuteDigits_cases:
  assumes "minuteDigits m"
  obtains c d where "m = [c, d]" "isDigit c" "isDigit d"
proof -
  from assms have "length m = 2" "list_all isDigit m" by (simp_all add: minuteDigits_def)
  then obtain c d where "m = [c, d]" by (cases m; cases "tl m") auto
  with \<open>list_all isDigit m\<close> that show ?thesis by simp
qed

lemma digit_facts: "isDigit c \<Longrightarrow> c \<noteq> 58 \<and> c \<noteq> 45 \<and> c \<noteq> 41 \<and> c \<noteq> 40 \<and> \<not> isSpace c
    \<and> lowerChar c = c \<and> c \<noteq> 97 \<and> c \<noteq> 112 \<and> c \<noteq> 109 \<and> c \<noteq> 8211"
  by (auto simp: isDigit_def isSpace_def lowerChar_def)

lemma marker_char_facts:
  "lowerChar x = 97 \<or> lowerChar x = 112 \<or> lowerChar x = 109 \<Longrightarrow>
     x \<noteq> 58 \<and> x \<noteq> 45 \<and> x \<noteq> 41 \<and> x \<noteq> 40 \<and> \<not> isSpace x \<and> \<not> isDigit x \<and> x \<noteq> 8211"
  by (auto simp: isDigit_def isSpace_def lowerChar_def split: if_splits)

lemma clockPrefix_text:
  assumes "hourDigits h" "minuteDigits m"
  shows "clockPrefix (h @ 58 # m @ rest) = Some (h, m, rest)"
proof -
  obtain c d where m: "m = [c, d]" "isDigit c" "isDigit d" using assms(2) by (rule minuteDigits_cases)
  from assms(1) show ?thesis
  proof (cases rule: hourDigits_cases)
    case (1 a)
    then show ?thesis using m by (simp add: clockPrefix_def)
  next
    case (2 a b)
    then show ?thesis using m digit_facts[of b] by (simp add: clockPrefix_def)
  qed
qed

lemma merPrefix_marker:
  assumes "validMarker k" "rest = [] \<or> hd rest = 45 \<or> hd rest = 41"
  shows "merPrefix (k @ rest) = (if k = [] then None else Some (k, rest))"
proof (cases "k = []")
  case True
  from assms(2) have "merPrefix rest = None"
    by (cases rest) (auto simp: merPrefix_def lowerChar_def split: list.splits)
  then show ?thesis using True by simp
next
  case False
  with assms(1) obtain x y where "k = [x, y]" "lowerChar x = 97 \<or> lowerChar x = 112" "lowerChar y = 109"
    unfolding validMarker_def by blast
  then show ?thesis by (auto simp: merPrefix_def)
qed

lemma clockMer_text:
  assumes "hourDigits h" "minuteDigits m" "validMarker k" "rest = [] \<or> hd rest = 45 \<or> hd rest = 41"
  shows "clockMer (h @ 58 # m @ k @ rest) = Some (h @ 58 # m @ k, rest)"
  by (simp add: clockMer_def clockPrefix_text[OF assms(1,2)] merPrefix_marker[OF assms(3,4)])

lemma time_text_chars:
  assumes "hourDigits h" "minuteDigits m" "validMarker k"
  shows "\<forall>c\<in>set (h @ [58] @ m @ k). c \<noteq> 41 \<and> c \<noteq> 45 \<and> \<not> isSpace c"
proof -
  have h: "\<forall>c\<in>set h. c \<noteq> 41 \<and> c \<noteq> 45 \<and> \<not> isSpace c"
    using assms(1) digit_facts by (auto simp: hourDigits_def list_all_iff)
  have m: "\<forall>c\<in>set m. c \<noteq> 41 \<and> c \<noteq> 45 \<and> \<not> isSpace c"
    using assms(2) digit_facts by (auto simp: minuteDigits_def list_all_iff)
  have k: "\<forall>c\<in>set k. c \<noteq> 41 \<and> c \<noteq> 45 \<and> \<not> isSpace c"
    using assms(3) marker_char_facts unfolding validMarker_def by auto
  have "(58::nat) \<noteq> 41 \<and> (58::nat) \<noteq> 45 \<and> \<not> isSpace 58" by (simp add: isSpace_def)
  with h m k show ?thesis by auto
qed

lemma searchSlot_token:
  assumes "allDigits n" "hourDigits h1" "minuteDigits m1" "validMarker k1"
    "hourDigits h2" "minuteDigits m2" "validMarker k2"
  shows "searchSlot (slotToken n h1 m1 k1 h2 m2 k2)
     = Some ((h1 @ [58] @ m1 @ k1) @ [45] @ (h2 @ [58] @ m2 @ k2))"
proof -
  define inner where "inner = (h1 @ [58] @ m1 @ k1) @ [45] @ (h2 @ [58] @ m2 @ k2)"
  have c1: "\<forall>c\<in>set (h1 @ [58] @ m1 @ k1). c \<noteq> 41" using time_text_chars[OF assms(2,3,4)] by blast
  have c2: "\<forall>c\<in>set (h2 @ [58] @ m2 @ k2). c \<noteq> 41" using time_text_chars[OF assms(5,6,7)] by blast
  have no41: "\<forall>c\<in>set inner. c \<noteq> 41" unfolding inner_def using c1 c2 by auto
  have ne: "inner \<noteq> []" unfolding inner_def by simp
  have tw: "takeWhile (\<lambda>c. c \<noteq> 41) (inner @ [41]) = inner"
    using no41 by (simp add: takeWhile_append2)
  have dw: "dropWhile (\<lambda>c. c \<noteq> 41) (inner @ [41]) = [41]"
    using no41 by (simp add: dropWhile_append2)
  have nd: "list_all isDigit n" "n \<noteq> []" using assms(1) by (simp_all add: allDigits_def)
  have t1: "takeWhile isDigit (n @ [40] @ inner @ [41]) = n"
    using nd(1) by (simp add: list_all_iff takeWhile_append2 isDigit_def)
  have t2: "dropWhile isDigit (n @ [40] @ inner @ [41]) = [40] @ inner @ [41]"
    using nd(1) by (simp add: list_all_iff dropWhile_append2 isDigit_def)
  have sp: "dropWhile isSpace ([40] @ inner @ [41]) = 40 # (inner @ [41])"
    by (simp add: isSpace_def)
  have tok: "slotToken n h1 m1 k1 h2 m2 k2 = 83 # 45 # (n @ [40] @ inner @ [41])"
    unfolding slotToken_def inner_def by (simp add: str_def)
  have "matchSlotHere (83 # 45 # (n @ [40] @ inner @ [41])) = Some inner"
    unfolding matchSlotHere_def using t1 t2 sp tw dw nd(2) ne
    by (simp add: lowerChar_def del: append.simps takeWhile.simps dropWhile.simps)
  then show ?thesis unfolding tok inner_def[symmetric] by simp
qed


lemma searchRange_text:
  assumes "hourDigits h1" "minuteDigits m1" "validMarker k1"
    "hourDigits h2" "minuteDigits m2" "validMarker k2"
  shows "searchRange ((h1 @ 58 # m1 @ k1) @ 45 # (h2 @ 58 # m2 @ k2))
     = Some (h1 @ 58 # m1 @ k1, h2 @ 58 # m2 @ k2)"
proof -
  have a: "clockMer (h1 @ 58 # m1 @ k1 @ (45 # (h2 @ 58 # m2 @ k2)))
      = Some (h1 @ 58 # m1 @ k1, 45 # (h2 @ 58 # m2 @ k2))"
    by (rule clockMer_text[OF assms(1,2,3)]) simp
  have b: "clockMer (h2 @ 58 # m2 @ k2 @ []) = Some (h2 @ 58 # m2 @ k2, [])"
    by (rule clockMer_text[OF assms(4,5,6)]) simp
  have d: "\<not> isSpace 45" by (simp add: isSpace_def)
  obtain x r where hx: "h2 @ 58 # m2 @ k2 = x # r" "isDigit x"
    using assms(4) by (cases rule: hourDigits_cases) auto
  have ns: "dropWhile isSpace (h2 @ 58 # m2 @ k2) = h2 @ 58 # m2 @ k2"
    unfolding hx using digit_facts[OF hx(2)] by simp
  have m: "matchRangeHere ((h1 @ 58 # m1 @ k1) @ 45 # (h2 @ 58 # m2 @ k2))
      = Some (h1 @ 58 # m1 @ k1, h2 @ 58 # m2 @ k2)"
    unfolding matchRangeHere_def using a b d ns by simp
  obtain y q where hy: "(h1 @ 58 # m1 @ k1) @ 45 # (h2 @ 58 # m2 @ k2) = y # q"
    using assms(1) by (cases rule: hourDigits_cases) auto
  show ?thesis using m unfolding hy by simp
qed

lemma endsWith_marker:
  assumes "hourDigits h" "minuteDigits m" "validMarker k"
  shows "(if endsWithCI (str ''PM'') (h @ 58 # m @ k) then Some PM
          else if endsWithCI (str ''AM'') (h @ 58 # m @ k) then Some AM else None) = markerOf k"
proof (cases "k = []")
  case True
  obtain c d where m: "m = [c, d]" "isDigit c" "isDigit d" using assms(2) by (rule minuteDigits_cases)
  have "lowerChar d \<noteq> 109" using digit_facts[OF m(3)] by simp
  then show ?thesis using True m
    by (simp add: endsWithCI_def sameTextCI_def str_def markerOf_def lowerChar_def)
next
  case False
  with assms(3) obtain x y where k: "k = [x, y]" "lowerChar x = 97 \<or> lowerChar x = 112" "lowerChar y = 109"
    unfolding validMarker_def by blast
  have l: "length (h @ 58 # m @ [x, y]) - 2 = length h + 1 + length m" by simp
  have dr: "drop (length (h @ 58 # m @ [x, y]) - 2) (h @ 58 # m @ [x, y]) = [x, y]"
    unfolding l by simp
  have "endsWithCI (str ''PM'') (h @ 58 # m @ [x, y]) = (lowerChar x = 112)"
    using k(3) dr by (simp add: endsWithCI_def sameTextCI_def str_def del: drop_append) (auto simp: lowerChar_def)
  moreover have "endsWithCI (str ''AM'') (h @ 58 # m @ [x, y]) = (lowerChar x = 97)"
    using k(3) dr by (simp add: endsWithCI_def sameTextCI_def str_def del: drop_append) (auto simp: lowerChar_def)
  ultimately show ?thesis using k by (auto simp: markerOf_def)
qed

lemma startHour_text:
  assumes "hourDigits h"
  shows "parseIntPrefix (hd (splitOn 58 (h @ 58 # rest))) = Some (int (decimalValue h))"
proof -
  have s: "hd (splitOn 58 (h @ 58 # rest)) = h"
    using assms by (cases rule: hourDigits_cases) (auto simp: isDigit_def split: list.splits)
  obtain x r where hx: "h = x # r" "isDigit x" using assms by (cases rule: hourDigits_cases) auto
  have d: "list_all isDigit h" using assms by (simp add: hourDigits_def)
  then have tw: "takeWhile isDigit h = h" by (simp add: list_all_iff)
  have x: "x \<noteq> 43" "x \<noteq> 45" "\<not> isSpace x"
    using hx(2) by (auto simp: isDigit_def isSpace_def)
  have dw: "dropWhile isSpace h = h" unfolding hx using x by simp
  have u: "(case h of [] \<Rightarrow> [] | c # r \<Rightarrow> if c = 45 \<or> c = 43 then r else h) = h"
    unfolding hx using x by simp
  have n: "(case h of [] \<Rightarrow> False | c # x \<Rightarrow> c = 45) = False"
    unfolding hx using x by simp
  have ne: "h \<noteq> []" unfolding hx by simp
  have "parseIntPrefix h = Some (int (decimalValue h))"
    unfolding parseIntPrefix_def Let_def dw u n tw using ne by (simp only: if_False)
  then show ?thesis unfolding s .
qed

lemma dropWhile_rev_last:
  assumes "xs \<noteq> []" "\<not> P (last xs)"
  shows "dropWhile P (rev xs) = rev xs"
proof -
  from assms(1) obtain ys z where xs: "xs = ys @ [z]" by (metis rev_exhaust)
  then show ?thesis using assms(2) by simp
qed

lemma trim_text:
  assumes "hourDigits h" "minuteDigits m" "validMarker k"
  shows "trim (h @ 58 # m @ k) = h @ 58 # m @ k"
proof -
  obtain x r where hx: "h @ 58 # m @ k = x # r" "\<not> isSpace x"
    using assms(1) digit_facts by (cases rule: hourDigits_cases) auto
  have l: "\<not> isSpace (last (h @ 58 # m @ k))"
  proof (cases "k = []")
    case True
    obtain c d where m: "m = [c, d]" "isDigit d" using assms(2) by (rule minuteDigits_cases)
    then show ?thesis using True digit_facts[of d] by simp
  next
    case False
    with assms(3) obtain x y where k: "k = [x, y]" "lowerChar y = 109"
      unfolding validMarker_def by blast
    then show ?thesis using marker_char_facts[of y] by simp
  qed
  have ne: "h @ 58 # m @ k \<noteq> []" by simp
  have a: "dropWhile isSpace (rev (h @ 58 # m @ k)) = rev (h @ 58 # m @ k)"
    by (rule dropWhile_rev_last[of "h @ 58 # m @ k" isSpace, OF ne l])
  have b: "dropWhile isSpace (h @ 58 # m @ k) = h @ 58 # m @ k" unfolding hx by (simp add: hx(2))
  show ?thesis unfolding trim_def b a by simp
qed

lemma normalizeTime_text:
  assumes "hourDigits h" "minuteDigits m" "validMarker k"
  shows "normalizeTime (h @ 58 # m @ k) fb
     = spec_clock h m (case markerOf k of Some mer \<Rightarrow> mer | None \<Rightarrow> fb)"
proof (cases "k = []")
  case True
  have cp: "clockPrefix (h @ 58 # m @ []) = Some (h, m, [])" by (rule clockPrefix_text[OF assms(1,2)])
  show ?thesis
    unfolding normalizeTime_def trim_text[OF assms] using True cp
    by (simp add: Let_def spec_clock_def spec_to24_def markerOf_def)
next
  case False
  with assms(3) obtain x y where k: "k = [x, y]" "lowerChar x = 97 \<or> lowerChar x = 112" "lowerChar y = 109"
    unfolding validMarker_def by blast
  have cp: "clockPrefix (h @ 58 # m @ [x, y]) = Some (h, m, [x, y])" by (rule clockPrefix_text[OF assms(1,2)])
  have ns: "\<not> isSpace x" using marker_char_facts[of x] k(2) by blast
  have mp: "merPrefix [x, y] = Some ([x, y], [])" using k by (simp add: merPrefix_def)
  have mo: "meridiemOf [x, y] = (if lowerChar x = 97 then AM else PM)"
    using k(2,3) by (auto simp: meridiemOf_def upperChar_def lowerChar_def str_def split: if_splits)
  show ?thesis
    unfolding normalizeTime_def trim_text[OF assms] using cp ns mp mo k(1)
    by (simp add: Let_def spec_clock_def spec_to24_def markerOf_def)
qed

text \<open>
  C10. For every slot token of the shape \<open>S-n(start-end)\<close>: when the end time carries no
  AM/PM marker, the fallback meridiem is AM if the start hour is at least 8 and PM
  otherwise; a marker on the end time is the fallback instead; each endpoint is converted
  with its own marker when it has one, and with the fallback otherwise.
\<close>

theorem parseSlotRange_meridiem:
  assumes "allDigits n"
    and "hourDigits h1" and "minuteDigits m1" and "validMarker k1"
    and "hourDigits h2" and "minuteDigits m2" and "validMarker k2"
  shows "parseSlotRange (slotToken n h1 m1 k1 h2 m2 k2) =
     Some (spec_clock h1 m1 (case markerOf k1 of Some mer \<Rightarrow> mer | None \<Rightarrow> spec_fallback h1 k2),
           spec_clock h2 m2 (case markerOf k2 of Some mer \<Rightarrow> mer | None \<Rightarrow> spec_fallback h1 k2))"
proof -
  have ss: "searchSlot (slotToken n h1 m1 k1 h2 m2 k2) = Some ((h1 @ 58 # m1 @ k1) @ 45 # (h2 @ 58 # m2 @ k2))"
    using searchSlot_token[OF assms] by simp
  have nosp: "filter (\<lambda>c. \<not> isSpace c) ((h1 @ 58 # m1 @ k1) @ 45 # (h2 @ 58 # m2 @ k2))
      = (h1 @ 58 # m1 @ k1) @ 45 # (h2 @ 58 # m2 @ k2)"
  proof -
    have "\<forall>c\<in>set ((h1 @ 58 # m1 @ k1) @ 45 # (h2 @ 58 # m2 @ k2)). \<not> isSpace c"
      using time_text_chars[OF assms(2,3,4)] time_text_chars[OF assms(5,6,7)]
      by (auto simp: isSpace_def)
    then show ?thesis by (simp only: filter_True)
  qed
  note sr = searchRange_text[OF assms(2-7)]
  have sh: "parseIntPrefix (hd (splitOn 58 (h1 @ 58 # m1 @ k1))) = Some (int (decimalValue h1))"
    by (rule startHour_text[OF assms(2)])
  have fb: "(case (if endsWithCI (str ''PM'') (h2 @ 58 # m2 @ k2) then Some PM
          else if endsWithCI (str ''AM'') (h2 @ 58 # m2 @ k2) then Some AM else None) of
         Some m \<Rightarrow> m
       | None \<Rightarrow> (case parseIntPrefix (hd (splitOn 58 (h1 @ 58 # m1 @ k1))) of
                      Some h \<Rightarrow> (if h \<ge> 8 then AM else PM) | None \<Rightarrow> PM)) = spec_fallback h1 k2"
    unfolding endsWith_marker[OF assms(5,6,7)] sh spec_fallback_def
    by (simp split: option.splits)
  show ?thesis
    by (simp only: parseSlotRange_def ss Let_def nosp option.case sr prod.case fb
        normalizeTime_text[OF assms(2,3,4)] normalizeTime_text[OF assms(5,6,7)])
qed

lemma slot_example_shapes:
  "allDigits (str ''1'')" "hourDigits (str ''8'')" "hourDigits (str ''9'')" "hourDigits (str ''2'')"
  "hourDigits (str ''3'')" "hourDigits (str ''11'')" "hourDigits (str ''12'')"
  "minuteDigits (str ''00'')" "minuteDigits (str ''20'')"
  "validMarker []" "validMarker (str ''AM'')" "validMarker (str ''pm'')"
  by (simp_all add: allDigits_def hourDigits_def minuteDigits_def validMarker_def str_def
      isDigit_def lowerChar_def)

theorem parseSlotRange_meridiem_witness:
  "allDigits (str ''1'') \<and> hourDigits (str ''8'') \<and> minuteDigits (str ''00'') \<and> validMarker []
   \<and> hourDigits (str ''9'') \<and> minuteDigits (str ''20'')
   \<and> slotToken (str ''1'') (str ''8'') (str ''00'') [] (str ''9'') (str ''20'') []
        = str ''S-1(8:00-9:20)''
   \<and> parseSlotRange (str ''S-1(8:00-9:20)'') = Some (str ''08:00'', str ''09:20'')
   \<and> parseSlotRange (str ''S-1(2:00-3:20)'') = Some (str ''14:00'', str ''15:20'')
   \<and> parseSlotRange (str ''S-1(2:00-3:20AM)'') = Some (str ''02:00'', str ''03:20'')
   \<and> parseSlotRange (str ''S-1(11:00AM-12:20pm)'') = Some (str ''11:00'', str ''12:20'')"
proof -
  note sh = slot_example_shapes
  have t1: "slotToken (str ''1'') (str ''8'') (str ''00'') [] (str ''9'') (str ''20'') []
        = str ''S-1(8:00-9:20)''"
    and t2: "slotToken (str ''1'') (str ''2'') (str ''00'') [] (str ''3'') (str ''20'') []
        = str ''S-1(2:00-3:20)''"
    and t3: "slotToken (str ''1'') (str ''2'') (str ''00'') [] (str ''3'') (str ''20'') (str ''AM'')
        = str ''S-1(2:00-3:20AM)''"
    and t4: "slotToken (str ''1'') (str ''11'') (str ''00'') (str ''AM'') (str ''12'') (str ''20'') (str ''pm'')
        = str ''S-1(11:00AM-12:20pm)''"
    by (simp_all add: slotToken_def str_def)
  have ev: "spec_clock (str ''8'') (str ''00'') AM = str ''08:00''"
    "spec_clock (str ''9'') (str ''20'') AM = str ''09:20''"
    "spec_clock (str ''2'') (str ''00'') PM = str ''14:00''"
    "spec_clock (str ''3'') (str ''20'') PM = str ''15:20''"
    "spec_clock (str ''2'') (str ''00'') AM = str ''02:00''"
    "spec_clock (str ''3'') (str ''20'') AM = str ''03:20''"
    "spec_clock (str ''11'') (str ''00'') AM = str ''11:00''"
    "spec_clock (str ''12'') (str ''20'') PM = str ''12:20''"
    by (simp_all add: spec_clock_def spec_to24_def decimalValue_def digitVal_def padStart2_def
        str_def)
  have fb: "spec_fallback (str ''8'') [] = AM" "spec_fallback (str ''2'') [] = PM"
    "spec_fallback (str ''2'') (str ''AM'') = AM" "spec_fallback (str ''11'') (str ''pm'') = PM"
    "markerOf [] = None" "markerOf (str ''AM'') = Some AM" "markerOf (str ''pm'') = Some PM"
    by (simp_all add: spec_fallback_def markerOf_def decimalValue_def digitVal_def str_def
        lowerChar_def)
  have a: "parseSlotRange (str ''S-1(8:00-9:20)'') = Some (str ''08:00'', str ''09:20'')"
    using parseSlotRange_meridiem[OF sh(1) sh(2) sh(8) sh(10) sh(3) sh(9) sh(10)]
    unfolding t1 by (simp add: ev fb)
  have b: "parseSlotRange (str ''S-1(2:00-3:20)'') = Some (str ''14:00'', str ''15:20'')"
    using parseSlotRange_meridiem[OF sh(1) sh(4) sh(8) sh(10) sh(5) sh(9) sh(10)]
    unfolding t2 by (simp add: ev fb)
  have c: "parseSlotRange (str ''S-1(2:00-3:20AM)'') = Some (str ''02:00'', str ''03:20'')"
    using parseSlotRange_meridiem[OF sh(1) sh(4) sh(8) sh(10) sh(5) sh(9) sh(11)]
    unfolding t3 by (simp add: ev fb)
  have d: "parseSlotRange (str ''S-1(11:00AM-12:20pm)'') = Some (str ''11:00'', str ''12:20'')"
    using parseSlotRange_meridiem[OF sh(1) sh(6) sh(8) sh(11) sh(7) sh(9) sh(12)]
    unfolding t4 by (simp add: ev fb)
  from sh t1 a b c d show ?thesis by simp
qed

section \<open>Proofs: the time parser of the tabular import\<close>

lemma jsNumber_Infinity: "jsNumber (str ''Infinity'') = PosInf" "jsNumber (str ''-Infinity'') = NegInf"
  by (simp_all add: jsNumber_def trim_def str_def isSpace_def nonDecimalLiteral_def unsignedDecimal_def)

lemma infinite_step:
  assumes "infiniteNumber v"
  shows "(if nullish v then Some []
      else
        (case v of
           CDate h m _ \<Rightarrow> Some (toHHMM (h * 60 + m))
         | CNum (Fin q) _ \<Rightarrow> Some (numericTime q)
         | _ \<Rightarrow>
             (let raw = trim (cellText v) in
              if raw = [] then Some []
              else if validTime raw then Some raw
              else if jsNumber raw \<noteq> NaN then f (CNum (jsNumber raw) [])
              else Some (textTime raw)))) = f (CNum (jsNumber (trim (cellText v))) [])
     \<and> infiniteNumber (CNum (jsNumber (trim (cellText v))) [])"
proof -
  from assms obtain n t where v: "v = CNum n t" "n = PosInf \<or> n = NegInf"
    by (cases v) (auto simp: infiniteNumber_def)
  from v(2) show ?thesis
  proof
    assume n: "n = PosInf"
    have r: "trim (cellText v) = str ''Infinity''"
      unfolding v n by (simp add: cellText_def trim_def str_def isSpace_def)
    have nv: "\<not> validTime (str ''Infinity'')" "str ''Infinity'' \<noteq> []" by (simp_all add: str_def)
    show ?thesis unfolding r Let_def unfolding v n using nv
      by (simp add: nullish_def jsNumber_Infinity infiniteNumber_def)
  next
    assume n: "n = NegInf"
    have r: "trim (cellText v) = str ''-Infinity''"
      unfolding v n by (simp add: cellText_def trim_def str_def isSpace_def)
    have nv: "\<not> validTime (str ''-Infinity'')" "str ''-Infinity'' \<noteq> []" by (simp_all add: str_def)
    show ?thesis unfolding r Let_def unfolding v n using nv
      by (simp add: nullish_def jsNumber_Infinity infiniteNumber_def)
  qed
qed

lemma parse_returns_not_infinite:
  assumes "parseSpreadsheetTime v = Some y"
  shows "\<not> infiniteNumber v"
proof (rule parseSpreadsheetTime.raw_induct[where P = "\<lambda>v y. \<not> infiniteNumber v", OF _ assms], goal_cases)
  case (1 f v va)
  show ?case
  proof
    assume i: "infiniteNumber v"
    from infinite_step[OF i, of f] 1(2)
    have "f (CNum (jsNumber (trim (cellText v))) []) = Some va"
      and "infiniteNumber (CNum (jsNumber (trim (cellText v))) [])" by simp_all
    with 1(1) show False by blast
  qed
qed

lemma parseSpreadsheetTime_finite:
  "parseSpreadsheetTime (CNum (Fin q) t) = Some (numericTime q)"
  by (subst parseSpreadsheetTime.simps) (simp add: nullish_def)

lemma toHHMM_720: "toHHMM 720 = str ''12:00''"
  using padStart2_two_digits[of 1 2] padStart2_two_digits[of 0 0]
  by (simp add: toHHMM_eq str_def)

lemma toHHMM_1020: "toHHMM 1020 = str ''17:00''"
  using padStart2_two_digits[of 1 7] padStart2_two_digits[of 0 0]
  by (simp add: toHHMM_eq str_def)

lemma toHHMM_420: "toHHMM 420 = str ''07:00''"
  using padStart2_two_digits[of 0 7] padStart2_two_digits[of 0 0]
  by (simp add: toHHMM_eq str_def)

lemma jsRound_of_int: "jsRound (of_int z) = z"
  unfolding jsRound_def by (rule floor_unique) simp_all

lemma jsRound_examples:
  "jsRound 720 = 720" "jsRound (637497 / 625) = 1020" "jsRound 420 = 420"
  unfolding jsRound_def by (rule floor_unique, simp, simp)+

lemma numericTime_examples:
  "numericTime (1 / 2) = str ''12:00''"
  "numericTime (70833 / 100000) = str ''17:00''"
  "numericTime 7 = str ''07:00''"
  "numericTime 24 = []"
  "numericTime (- 1) = []"
  by (simp_all add: numericTime_def jsRound_examples toHHMM_720 toHHMM_1020 toHHMM_420
      del: floor_numeral)

lemma numericTime_day_fraction:
  "0 \<le> q \<Longrightarrow> q < 1 \<Longrightarrow> numericTime q = toHHMM (jsRound (q * 24 * 60))"
  by (simp add: numericTime_def)

lemma numericTime_fractional_part:
  "q \<noteq> of_int \<lfloor>q\<rfloor>
     \<Longrightarrow> numericTime q = toHHMM (jsRound ((q - of_int \<lfloor>q\<rfloor>) * 24 * 60))"
proof -
  assume n: "q \<noteq> of_int \<lfloor>q\<rfloor>"
  have "of_int \<lfloor>q\<rfloor> \<le> q" by simp
  with n have "of_int \<lfloor>q\<rfloor> < q" by (metis less_le)
  then have f: "0 < q - of_int \<lfloor>q\<rfloor>" by simp
  show ?thesis
  proof (cases "0 \<le> q \<and> q < 1")
    case True
    then have "\<lfloor>q\<rfloor> = 0" by (simp add: floor_unique)
    with True show ?thesis by (simp add: numericTime_def)
  next
    case False
    then have "numericTime q =
        (let frac = q - of_int \<lfloor>q\<rfloor> in
         if frac > 0 then toHHMM (jsRound (frac * 24 * 60))
         else if q \<ge> 0 \<and> q \<le> 23 then toHHMM (jsRound (q * 60))
         else [])"
      unfolding numericTime_def by (rule if_not_P)
    with f show ?thesis by (simp add: Let_def)
  qed
qed

lemma numericTime_whole_hour:
  assumes "0 \<le> h" "h \<le> 23"
  shows "numericTime (of_int h) = toHHMM (h * 60)"
proof (cases "h = 0")
  case True
  have "jsRound 0 = 0" using jsRound_of_int[of 0] by simp
  with True show ?thesis by (simp add: numericTime_def)
next
  case False
  with assms have h: "1 \<le> h" by simp
  have "jsRound (of_int h * 60) = h * 60" using jsRound_of_int[of "h * 60"] by simp
  with h assms show ?thesis by (simp add: numericTime_def Let_def)
qed

lemma numericTime_other:
  "h < 0 \<or> 23 < h \<Longrightarrow> numericTime (of_int h) = []"
  by (auto simp add: numericTime_def Let_def)

lemma parseSpreadsheetTime_NaN: "parseSpreadsheetTime (CNum NaN t) = Some []"
proof -
  have t: "trim (str ''NaN'') = str ''NaN''" "\<not> validTime (str ''NaN'')" "str ''NaN'' \<noteq> []"
    by (simp_all add: str_def trim_def isSpace_def)
  have n: "jsNumber (str ''NaN'') = NaN"
    by (simp add: jsNumber_def trim_def str_def isSpace_def nonDecimalLiteral_def
        unsignedDecimal_def mantissa_def isDigit_def)
  have x: "textTime (str ''NaN'') = []"
    by (simp add: textTime_def ampmMatch_def plainMatch_def clockPrefix_def str_def isDigit_def)
  show ?thesis
    by (subst parseSpreadsheetTime.simps) (simp add: nullish_def cellText_def t n x)
qed

text \<open>
  C6. \<open>parseSpreadsheetTime\<close> does not return for the number \<open>Infinity\<close> nor for the number
  \<open>-Infinity\<close>, and so not for a cell whose text is \<open>Infinity\<close>: the text of such a
  number is not a time, \<open>Number\<close> of that text is the number again, and the function
  calls itself on it without end. For a finite number it returns what the specification says
  (\<open>parseSpreadsheetTime_finite\<close> and the lemmas on \<open>numericTime\<close>), among them
  \<open>12:00\<close> for 0.5 and \<open>17:00\<close> for 0.70833.
\<close>

theorem parseSpreadsheetTime_infinity:
  "parseSpreadsheetTime (CNum PosInf (str ''Infinity'')) = None
   \<and> parseSpreadsheetTime (CNum NegInf (str ''-Infinity'')) = None
   \<and> parseSpreadsheetTime (CStr (str ''Infinity'')) = None
   \<and> parseSpreadsheetTime (CNum (Fin (1 / 2)) (str ''0.5'')) = Some (str ''12:00'')
   \<and> parseSpreadsheetTime (CNum (Fin (70833 / 100000)) (str ''0.70833'')) = Some (str ''17:00'')"
proof -
  have a: "parseSpreadsheetTime v = None" if "infiniteNumber v" for v
    using parse_returns_not_infinite[of v] that
    by (cases "parseSpreadsheetTime v") auto
  have nv: "\<not> validTime (str ''Infinity'')" "str ''Infinity'' \<noteq> []"
      "trim (str ''Infinity'') = str ''Infinity''"
    by (simp_all add: str_def trim_def isSpace_def)
  have "parseSpreadsheetTime (CStr (str ''Infinity'')) = parseSpreadsheetTime (CNum PosInf [])"
    by (subst parseSpreadsheetTime.simps)
       (simp add: nullish_def cellText_def nv jsNumber_Infinity)
  then show ?thesis
    using a[of "CNum PosInf (str ''Infinity'')"] a[of "CNum NegInf (str ''-Infinity'')"]
      a[of "CNum PosInf []"]
    by (simp add: infiniteNumber_def parseSpreadsheetTime_finite numericTime_examples)
qed

section \<open>Proofs: the rows of the tabular import\<close>

lemma parseRow_returns:
  assumes "rowStart r = Some startT" "rowEnd r = Some endT"
  shows "parseRow i r =
     Some (if rowTitle r = [] \<and> rowDay r = None \<and> startT = [] \<and> endT = [] then Inr None
           else if rowTitle r = [] \<or> rowDay r = None \<or> startT = [] \<or> endT = [] then
             Inl (RowMissingFields (i + 2))
           else if \<not> validTime startT \<or> \<not> validTime endT then Inl (RowInvalidTime (i + 2))
           else if js_le (timeToMinutes endT) (timeToMinutes startT) then
             Inl (RowEndBeforeStart (i + 2))
           else Inr (Some \<lparr>r_title = rowTitle r, r_day = the (rowDay r), r_startTime = startT,
                  r_endTime = endT,
                  r_notes = trim (cellText (orElse (byKey r (str ''notes''))
                                 (orElse (byKey r (str ''note'')) (CStr [])))),
                  r_done = parseBool (byKey r (str ''done'')),
                  r_reminderEnabled = (if parseBool (orElse (byKey r (str ''reminderenabled''))
                                        (byKey r (str ''reminder''))) then 1 else 0)\<rparr>))"
  using assms by (simp add: parseRow_def Let_def)

lemma parseRow_error_number: "parseRow i r = Some (Inl e) \<Longrightarrow> rowNumber e = i + 2"
  by (auto simp: parseRow_def Let_def rowNumber_def split: option.splits if_splits)

lemma parseRowsFrom_first_error:
  assumes "k < length rows"
    and "\<And>j. j < k \<Longrightarrow> \<exists>x. parseRow (i + j) (rows ! j) = Some (Inr x)"
    and "parseRow (i + k) (rows ! k) = Some (Inl e)"
  shows "parseRowsFrom i rows parsed = Some (Inl e)"
  using assms
proof (induction k arbitrary: i rows parsed)
  case 0
  then obtain r rs where "rows = r # rs" by (cases rows) auto
  with 0 show ?case by simp
next
  case (Suc k)
  then obtain r rs where rows: "rows = r # rs" by (cases rows) auto
  from Suc.prems(2)[of 0] obtain x where x: "parseRow i r = Some (Inr x)" by (auto simp: rows)
  have a: "k < length rs" using Suc.prems(1) rows by simp
  have b: "\<exists>x. parseRow (i + 1 + j) (rs ! j) = Some (Inr x)" if "j < k" for j
    using Suc.prems(2)[of "Suc j"] that by (simp add: rows)
  have c: "parseRow (i + 1 + k) (rs ! k) = Some (Inl e)"
    using Suc.prems(3) by (simp add: rows)
  have "parseRowsFrom (i + 1) rs p = Some (Inl e)" for p
    by (rule Suc.IH[OF a b c])
  then show ?case unfolding rows using x by (cases x) simp_all
qed

lemma parseRowsFrom_hangs:
  "parseRow i r = None \<Longrightarrow> parseRowsFrom i (r # rows) parsed = None"
  by simp

lemma parseSpreadsheetTime_empty: "parseSpreadsheetTime (CStr []) = Some []"
  by (subst parseSpreadsheetTime.simps) (simp add: nullish_def cellText_def trim_def)

lemma normalizeHeader_examples:
  "normalizeHeader (str ''Title'') = str ''title''"
  "normalizeHeader (str ''Day'') = str ''day''"
  by (simp_all add: normalizeHeader_def toLowerCase_def lowerUnit_def isSpace_def str_def)

lemma parseRow_blankRow: "parseRow i blankRow = Some (Inr None)"
proof -
  have k: "byKey blankRow k = (if k = str ''title'' then CStr [] else if k = str ''day'' then CNull
      else CUndefined)" for k
    apply (simp add: byKey_def blankRow_def normalizeHeader_examples)
    apply (simp add: str_def)
    done
  have s: "rowStart blankRow = Some []" "rowEnd blankRow = Some []"
    by (simp_all add: rowStart_def rowEnd_def k orElse_def nullish_def parseSpreadsheetTime_empty
        str_def)
  have t: "rowTitle blankRow = []"
    by (simp add: rowTitle_def k orElse_def nullish_def cellText_def trim_def)
  have d: "rowDay blankRow = None"
    by (simp add: rowDay_def k orElse_def nullish_def toFullDay_def cellText_def trim_def str_def)
  show ?thesis unfolding parseRow_returns[OF s] by (simp add: t d)
qed

lemma parseRow_dayOnlyRow: "parseRow i dayOnlyRow = Some (Inl (RowMissingFields (i + 2)))"
proof -
  have k: "byKey dayOnlyRow k = (if k = str ''day'' then CStr (str ''Monday'') else CUndefined)" for k
    by (simp add: byKey_def dayOnlyRow_def normalizeHeader_examples)
  have s: "rowStart dayOnlyRow = Some []" "rowEnd dayOnlyRow = Some []"
    by (simp_all add: rowStart_def rowEnd_def k orElse_def nullish_def parseSpreadsheetTime_empty
        str_def)
  have t: "rowTitle dayOnlyRow = []"
    by (simp add: rowTitle_def k orElse_def nullish_def cellText_def trim_def str_def)
  have d: "rowDay dayOnlyRow = Some (DayName (str ''Monday''))"
    by (simp add: rowDay_def k orElse_def nullish_def toFullDay_def cellText_def trim_def str_def
        isSpace_def toLowerCase_def lowerUnit_def fullDays_def)
  show ?thesis unfolding parseRow_returns[OF s] by (simp add: t d)
qed

lemma parseImportedRows_examples:
  "parseImportedRows [blankRow] = Some (Inr [])"
  "parseImportedRows [dayOnlyRow] = Some (Inl (RowMissingFields 2))"
  "parseImportedRows [blankRow, dayOnlyRow] = Some (Inl (RowMissingFields 3))"
  using parseRow_blankRow[of 0] parseRow_dayOnlyRow[of 0] parseRow_dayOnlyRow[of 1]
  by (simp_all add: parseImportedRows_def)

lemma byKey_infinityRow:
  "byKey infinityRow (str ''title'') = CStr (str ''Gym'')"
  "byKey infinityRow (str ''start'') = CStr (str ''Infinity'')"
  "byKey infinityRow (str ''starttime'') = CUndefined"
  "byKey infinityRow (str ''day'') = CUndefined"
  "byKey infinityRow (str ''weekday'') = CUndefined"
  by (simp_all add: byKey_def infinityRow_def normalizeHeader_def toLowerCase_def lowerUnit_def
      isSpace_def str_def)

text \<open>
  C3. The row \<open>infinityRow\<close> has a title and no day, so that some but not all of its four
  fields are filled, and \<open>parseImportedRows\<close> does not return on it: the parse of its
  start cell, the text \<open>Infinity\<close>, does not return, and no error naming the row is
  thrown. When the parses of the two time cells of a row return, the row is passed over,
  pushed or refused with the number \<open>i + 2\<close> as the specification says (\<open>parseRow_returns\<close>,
  \<open>parseRow_error_number\<close>, \<open>parseRowsFrom_first_error\<close>): a blank row is passed over and
  a row with a day only is refused, as row 3 when it is the second
  (\<open>parseImportedRows_examples\<close>).
\<close>

theorem parseImportedRows_infinity:
  "rowTitle infinityRow = str ''Gym'' \<and> rowDay infinityRow = None
   \<and> parseImportedRows [infinityRow] = None"
proof -
  have t: "trim (str ''Gym'') = str ''Gym''"
    by (simp add: trim_def str_def isSpace_def)
  have title: "rowTitle infinityRow = str ''Gym''"
    by (simp add: rowTitle_def byKey_infinityRow orElse_def nullish_def cellText_def t)
  have day: "rowDay infinityRow = None"
    by (simp add: rowDay_def byKey_infinityRow orElse_def nullish_def toFullDay_def cellText_def
        trim_def)
  have nv: "\<not> validTime (str ''Infinity'')" "str ''Infinity'' \<noteq> []"
      "trim (str ''Infinity'') = str ''Infinity''"
    by (simp_all add: str_def trim_def isSpace_def)
  have "parseSpreadsheetTime (CNum PosInf []) = None"
    using parse_returns_not_infinite[of "CNum PosInf []"]
    by (cases "parseSpreadsheetTime (CNum PosInf [])") (auto simp: infiniteNumber_def)
  moreover have "parseSpreadsheetTime (CStr (str ''Infinity'')) = parseSpreadsheetTime (CNum PosInf [])"
    by (subst parseSpreadsheetTime.simps)
       (simp add: nullish_def cellText_def nv jsNumber_Infinity)
  ultimately have "rowStart infinityRow = None"
    by (simp add: rowStart_def byKey_infinityRow orElse_def nullish_def)
  then have "parseRow 0 infinityRow = None" by (simp add: parseRow_def)
  then show ?thesis using title day by (simp add: parseImportedRows_def)
qed
section \<open>Proofs: the token extractor\<close>

lemma containsSub_Cons: "containsSub pat s \<Longrightarrow> pat \<noteq> [] \<Longrightarrow> containsSub pat (c # s)"
  by simp

lemma containsSub_append_left: "pat \<noteq> [] \<Longrightarrow> containsSub pat s \<Longrightarrow> containsSub pat (p @ s)"
  by (induction p) simp_all

lemma containsSub_prefix: "pat \<noteq> [] \<Longrightarrow> containsSub pat (pat @ s)"
  by (cases pat) (simp_all add: startsWith_def)

lemma startsWith_append: "startsWith pat s \<Longrightarrow> s = pat @ drop (length pat) s"
proof -
  assume "startsWith pat s"
  then have "take (length pat) s = pat" by (simp add: startsWith_def)
  then have "pat @ drop (length pat) s = take (length pat) s @ drop (length pat) s" by simp
  then show ?thesis by simp
qed

lemma endstream_ne: "str ''endstream'' \<noteq> []" "str ''stream'' \<noteq> []"
  by (simp_all add: str_def)

lemma endMarker_contains:
  assumes "endMarker s = Some r"
  shows "containsSub (str ''endstream'') s"
proof -
  have c: "containsSub (str ''endstream'') (p @ str ''endstream'' @ t)" for p t
    by (rule containsSub_append_left[OF endstream_ne(1) containsSub_prefix[OF endstream_ne(1)]])
  from assms have "startsWith ([13, 10] @ str ''endstream'') s \<or> startsWith ([10] @ str ''endstream'') s"
    by (auto simp: endMarker_def split: if_splits)
  then show ?thesis
  proof
    assume "startsWith ([13, 10] @ str ''endstream'') s"
    from startsWith_append[OF this]
    have "s = [13, 10] @ str ''endstream'' @ drop (length ([13, 10] @ str ''endstream'')) s" by simp
    then show ?thesis using c by metis
  next
    assume "startsWith ([10] @ str ''endstream'') s"
    from startsWith_append[OF this]
    have "s = [10] @ str ''endstream'' @ drop (length ([10] @ str ''endstream'')) s" by simp
    then show ?thesis using c by metis
  qed
qed

lemma lazyUntil_contains:
  "lazyUntil endMarker s = Some x \<Longrightarrow> containsSub (str ''endstream'') s"
proof (induction s arbitrary: x)
  case Nil
  then show ?case by (auto simp: endMarker_def startsWith_def str_def split: option.splits)
next
  case (Cons c s)
  show ?case
  proof (cases "endMarker (c # s)")
    case (Some r)
    then show ?thesis by (rule endMarker_contains)
  next
    case None
    with Cons.prems obtain y where "lazyUntil endMarker s = Some y"
      by (auto split: option.splits)
    from Cons.IH[OF this] show ?thesis using endstream_ne by simp
  qed
qed

lemma containsSub_drop: "pat \<noteq> [] \<Longrightarrow> containsSub pat (drop n s) \<Longrightarrow> containsSub pat s"
  using containsSub_append_left[of pat "drop n s" "take n s"] by simp

lemma streamHere_contains:
  assumes "streamHere s = Some x"
  shows "containsSub (str ''stream'') s \<and> containsSub (str ''endstream'') s"
proof -
  from assms have sw: "startsWith (str ''stream'') s"
    by (auto simp: streamHere_def split: if_splits)
  have a: "containsSub (str ''stream'') s"
    using startsWith_append[OF sw] containsSub_prefix[OF endstream_ne(2)] by metis
  have tl_drop_Suc: "tl (drop n s) = drop (Suc n) s" for n
    by (simp add: tl_drop drop_Suc)
  have e7: "tl (drop 6 s) = drop 7 s" using tl_drop_Suc[of 6] by simp
  have e8: "tl (drop 7 s) = drop 8 s" using tl_drop_Suc[of 7] by simp
  define r where "r = drop 6 s"
  define r1 where "r1 = (case r of c # r' \<Rightarrow> (if c = 13 then r' else r) | [] \<Rightarrow> r)"
  have r1: "r1 = drop 6 s \<or> r1 = drop 7 s"
  proof (cases r)
    case Nil then show ?thesis by (simp add: r1_def r_def)
  next
    case (Cons c r')
    have "r' = tl r" using Cons by simp
    then have "r' = drop 7 s" unfolding r_def e7 .
    then show ?thesis using Cons unfolding r1_def by (auto simp: r_def)
  qed
  from assms sw have "(case r1 of c # r2 \<Rightarrow> (if c = 10 then lazyUntil endMarker r2 else None) | [] \<Rightarrow> None) = Some x"
    unfolding streamHere_def Let_def r1_def r_def by simp
  then obtain c r2 where r2: "r1 = c # r2" "lazyUntil endMarker r2 = Some x"
    by (cases r1) (auto split: if_splits)
  have "r2 = tl r1" using r2 by simp
  then have "r2 = drop 7 s \<or> r2 = drop 8 s" using r1 e7 e8 by metis
  then show ?thesis
    using a lazyUntil_contains[OF r2(2)] containsSub_drop[OF endstream_ne(1)] by metis
qed

lemma scan_no_marker:
  "\<not> containsSub (str ''stream'') s \<or> \<not> containsSub (str ''endstream'') s
     \<Longrightarrow> scan streamHere i k s = []"
proof (induction s arbitrary: i k)
  case Nil
  then show ?case by simp
next
  case (Cons c s)
  then have n: "\<not> containsSub (str ''stream'') s \<or> \<not> containsSub (str ''endstream'') s"
    by auto
  have "streamHere (c # s) = None"
    using Cons.prems streamHere_contains[of "c # s"] by (cases "streamHere (c # s)") auto
  then show ?case using Cons.IH[OF n] by simp
qed

lemma extractLoop_regions:
  "extractLoop argLimit unz binary tokens ms =
     (case those (map (regionTokens argLimit unz binary)
                    (filter (\<lambda>m. \<not> decompressionFails unz binary m) ms)) of
        None \<Rightarrow> None
      | Some tss \<Rightarrow> Some (tokens @ concat tss))"
proof (induction ms arbitrary: tokens)
  case Nil
  then show ?case by simp
next
  case (Cons m ms)
  obtain index content where m: "m = (index, content)" by (cases m)
  show ?case
    unfolding m
    by (simp add: Cons.IH Let_def decompressionFails_def regionTokens_def streamTokens_def
        split: option.splits)
qed

lemma bytesToBinary_eq:
  "bytesToBinary argLimit bs =
     (if min (length bs) 32768 \<le> argLimit then Some (map unat bs) else None)"
proof (induction argLimit bs rule: bytesToBinary.induct)
  case (1 argLimit bs)
  show ?case
  proof (cases "bs = []")
    case True
    then show ?thesis by (subst bytesToBinary.simps) simp
  next
    case False
    show ?thesis
    proof (cases "min (length bs) 32768 \<le> argLimit")
      case True
      then have c: "fromCharCodeSpread argLimit (map unat (take 32768 bs)) = Some (map unat (take 32768 bs))"
        by (simp add: fromCharCodeSpread_def min_def split: if_splits)
      from True have "min (length (drop 32768 bs)) 32768 \<le> argLimit" by (simp add: min_def split: if_splits)
      with 1[OF False c]
      have r: "bytesToBinary argLimit (drop 32768 bs) = Some (map unat (drop 32768 bs))" by simp
      have "map unat (take 32768 bs) @ map unat (drop 32768 bs) = map unat bs"
        by (simp flip: map_append)
      with True False c r show ?thesis by (subst bytesToBinary.simps) simp
    next
      case n: False
      then have "fromCharCodeSpread argLimit (map unat (take 32768 bs)) = None"
        by (simp add: fromCharCodeSpread_def min_def split: if_splits)
      with n False show ?thesis by (subst bytesToBinary.simps) simp
    qed
  qed
qed

lemma unat_binaryToBytes:
  "\<forall>c\<in>set s. c < 256 \<Longrightarrow> map unat (binaryToBytes s) = s"
  by (induction s) (simp_all add: binaryToBytes_def unat_of_nat)

lemma extractPdfTokens_no_marker:
  assumes "bytesToBinary argLimit pdfBytes = Some binary"
    and "\<not> containsSub (str ''stream'') binary \<or> \<not> containsSub (str ''endstream'') binary"
  shows "extractPdfTokens argLimit unz pdfBytes = Some []"
  using assms by (simp add: extractPdfTokens_def scan_no_marker)

lemma extractPdfTokens_regions:
  assumes "bytesToBinary argLimit pdfBytes = Some binary"
  shows "extractPdfTokens argLimit unz pdfBytes =
     (case those (map (regionTokens argLimit unz binary)
                    (filter (\<lambda>m. \<not> decompressionFails unz binary m)
                       (scan streamHere 0 0 binary))) of
        None \<Rightarrow> None
      | Some tss \<Rightarrow> Some (concat tss))"
  using assms by (simp add: extractPdfTokens_def extractLoop_regions split: option.splits)

subsection \<open>A hexadecimal string longer than the engine accepts\<close>

lemma lazyUntil_skip:
  assumes "\<forall>c\<in>set p. \<forall>r. f (c # r) = None"
  shows "lazyUntil f (p @ s) =
     (case lazyUntil f s of None \<Rightarrow> None | Some (t, r) \<Rightarrow> Some (p @ t, r))"
  using assms
proof (induction p)
  case Nil
  then show ?case by (simp split: option.splits)
next
  case (Cons c p)
  have "f (c # p @ s) = None" using Cons.prems by simp
  moreover have "lazyUntil f (p @ s) =
     (case lazyUntil f s of None \<Rightarrow> None | Some (t, r) \<Rightarrow> Some (p @ t, r))"
    using Cons.IH Cons.prems by simp
  ultimately show ?case by (simp split: option.splits)
qed

lemma lazyUntil_skip_to:
  assumes "\<forall>c\<in>set p. \<forall>r. f (c # r) = None" and "lazyUntil f s = Some ([], r)"
  shows "lazyUntil f (p @ s) = Some (p, r)"
  unfolding lazyUntil_skip[OF assms(1)] assms(2) by simp

lemma scan_first:
  "m (c # s) = Some (x, rest) \<Longrightarrow> \<exists>more. scan m i 0 (c # s) = (i, x) # more"
  by simp

lemma scan_pass: "m (c # s) = None \<Longrightarrow> scan m i 0 (c # s) = scan m (i + 1) 0 s"
  by simp

lemma bytePairs_replicate: "bytePairs (replicate (2 * n) 65) = replicate n 170"
  by (induction n) (simp_all add: hexVal_def isDigit_def)

lemma decodePdfHexString_long:
  "decodePdfHexString argLimit (replicate (2 * (argLimit + 1)) 65) = None"
proof -
  define bs where "bs = replicate (Suc argLimit) (170::nat)"
  define hex where "hex = replicate (2 * (argLimit + 1)) (65::nat)"
  have h: "hexVal 65 \<noteq> None" by (simp add: hexVal_def isDigit_def)
  have clean: "filter (\<lambda>c. hexVal c \<noteq> None) hex = hex"
    unfolding hex_def using h by simp
  have len: "\<not> length hex < 2" by (simp add: hex_def)
  have pad: "(if even (length hex) then hex else hex @ [48]) = hex" by (simp add: hex_def)
  have bp: "bytePairs hex = bs"
    unfolding bs_def hex_def using bytePairs_replicate[of "argLimit + 1"] by simp
  have f: "fromCharCodeSpread argLimit bs = None"
    by (simp add: fromCharCodeSpread_def bs_def)
  have c: "(case bs of
              b0 # b1 # rest \<Rightarrow>
                (if b0 = 254 \<and> b1 = 255 then Some (utf16Pairs rest)
                 else fromCharCodeSpread argLimit bs)
            | _ \<Rightarrow> fromCharCodeSpread argLimit bs) = None"
  proof (cases bs)
    case Nil
    then show ?thesis using f by simp
  next
    case (Cons b0 r)
    then have "b0 \<in> set bs" by simp
    then have b0: "b0 = 170" unfolding bs_def by auto
    show ?thesis using f Cons b0 by (cases r) simp_all
  qed
  have "decodePdfHexString argLimit hex = None"
    unfolding decodePdfHexString_def Let_def clean pad bp using len c by simp
  then show ?thesis unfolding hex_def .
qed

lemma hexHere_long:
  assumes "\<forall>c\<in>set h. c = 65" and "h \<noteq> []"
  shows "hexHere (60 # h @ [62]) = Some (h, [])"
proof -
  have a: "isHexOrSpace 65" "\<not> isHexOrSpace 62"
    by (simp_all add: isHexOrSpace_def hexVal_def isDigit_def isSpace_def)
  have p: "isHexOrSpace c" if "c \<in> set h" for c using assms(1) that a(1) by auto
  have t: "takeWhile isHexOrSpace (h @ [62]) = h"
    using takeWhile_append2[of h isHexOrSpace "[62]"] p a(2) by simp
  have d: "dropWhile isHexOrSpace (h @ [62]) = [62]"
    using dropWhile_append2[of h isHexOrSpace "[62]"] p a(2) by simp
  show ?thesis unfolding hexHere_def by (simp add: t d assms(2))
qed

lemma arrayToken_long:
  assumes "\<forall>c\<in>set h. c = 65" and "h \<noteq> []"
    and "decodePdfHexString argLimit h = None"
  shows "arrayToken argLimit (60 # h @ [62]) = None"
proof -
  from scan_first[of hexHere 60 "h @ [62]" h "[]" 0] hexHere_long[OF assms(1,2)]
  obtain more where "scan hexHere 0 0 (60 # h @ [62]) = (0, h) # more" by blast
  then show ?thesis
    unfolding arrayToken_def by (simp add: assms(3))
qed

lemma arrayHere_long:
  assumes "\<forall>c\<in>set g. c \<noteq> 93"
  shows "arrayHere (91 # g @ [93, 84, 74, 32, 69, 84]) = Some (g, [32, 69, 84])"
proof -
  have s: "\<forall>c\<in>set g. \<forall>r. closeTJ (c # r) = None"
    using assms by (simp add: closeTJ_def)
  have e: "lazyUntil closeTJ [93, 84, 74, 32, 69, 84] = Some ([], [32, 69, 84])"
    by (simp add: closeTJ_def startsWith_def str_def isSpace_def)
  have l: "lazyUntil closeTJ (g @ [93, 84, 74, 32, 69, 84]) = Some (g, [32, 69, 84])"
    by (rule lazyUntil_skip_to[OF s e])
  show ?thesis unfolding arrayHere_def by (simp add: l)
qed

lemma blockTokens_long:
  assumes "\<forall>c\<in>set g. c \<noteq> 93" and "arrayToken argLimit g = None"
  shows "blockTokens argLimit (66 # 84 # 91 # g @ [93, 84, 74, 32, 69, 84]) = None"
proof -
  have n: "arrayHere (66 # r) = None" "arrayHere (84 # r) = None" for r
    by (simp_all add: arrayHere_def)
  from scan_first[of arrayHere 91 "g @ [93, 84, 74, 32, 69, 84]" g "[32, 69, 84]" "0 + 1 + 1"]
    arrayHere_long[OF assms(1)]
  obtain more where
    m: "scan arrayHere (0 + 1 + 1) 0 (91 # g @ [93, 84, 74, 32, 69, 84]) = (0 + 1 + 1, g) # more"
    by blast
  have "scan arrayHere 0 0 (66 # 84 # 91 # g @ [93, 84, 74, 32, 69, 84])
      = scan arrayHere (0 + 1) 0 (84 # 91 # g @ [93, 84, 74, 32, 69, 84])"
    by (rule scan_pass) (rule n(1))
  also have "\<dots> = scan arrayHere (0 + 1 + 1) 0 (91 # g @ [93, 84, 74, 32, 69, 84])"
    by (rule scan_pass) (rule n(2))
  also note m
  finally have "scan arrayHere 0 0 (66 # 84 # 91 # g @ [93, 84, 74, 32, 69, 84])
      = (0 + 1 + 1, g) # more" .
  then show ?thesis unfolding blockTokens_def by (simp add: assms(2))
qed

lemma btHere_long:
  assumes "\<forall>c\<in>set p. c \<noteq> 69"
  shows "btHere (66 # 84 # p @ [69, 84]) = Some (66 # 84 # p @ [69, 84], [])"
proof -
  define f where "f = (\<lambda>r. if startsWith (str ''ET'') r then Some (drop 2 r) else None)"
  have s: "\<forall>c\<in>set p. \<forall>r. f (c # r) = None"
    using assms by (simp add: f_def startsWith_def str_def)
  have e: "lazyUntil f [69, 84] = Some ([], [])"
    by (simp add: f_def startsWith_def str_def)
  have l: "lazyUntil f (p @ [69, 84]) = Some (p, [])"
    by (rule lazyUntil_skip_to[OF s e])
  show ?thesis
    unfolding btHere_def f_def[symmetric]
    by (simp add: startsWith_def str_def l)
qed

lemma decodedTokens_long:
  assumes "\<forall>c\<in>set p. c \<noteq> 69"
    and "blockTokens argLimit (66 # 84 # p @ [69, 84]) = None"
  shows "decodedTokens argLimit (66 # 84 # p @ [69, 84]) = None"
proof -
  from scan_first[of btHere 66 "84 # p @ [69, 84]" "66 # 84 # p @ [69, 84]" "[]" 0]
    btHere_long[OF assms(1)]
  obtain more where "scan btHere 0 0 (66 # 84 # p @ [69, 84]) = (0, 66 # 84 # p @ [69, 84]) # more"
    by blast
  then show ?thesis unfolding decodedTokens_def by (simp add: assms(2))
qed

lemma streamHere_long:
  assumes "\<forall>c\<in>set b. c \<noteq> 10 \<and> c \<noteq> 13"
  shows "streamHere (115 # 116 # 114 # 101 # 97 # 109 # 10 # b @ [10] @ str ''endstream'')
     = Some (b, [])"
proof -
  have s: "\<forall>c\<in>set b. \<forall>r. endMarker (c # r) = None"
    using assms by (simp add: endMarker_def startsWith_def)
  have e: "lazyUntil endMarker ([10] @ str ''endstream'') = Some ([], [])"
    by (simp add: endMarker_def startsWith_def str_def)
  have l: "lazyUntil endMarker (b @ [10] @ str ''endstream'') = Some (b, [])"
    by (rule lazyUntil_skip_to[OF s e])
  have sw: "startsWith (str ''stream'') (115 # 116 # 114 # 101 # 97 # 109 # r)" for r
    by (simp add: startsWith_def str_def)
  show ?thesis
    unfolding streamHere_def using sw l by (simp add: Let_def)
qed

subsection \<open>Documents on which the extraction returns\<close>

lemma isSpace_code [code]:
  "isSpace c =
     (if c \<le> 160 then (9 \<le> c \<and> c \<le> 13) \<or> c = 32 \<or> c = 160
      else c \<in> {5760, 8232, 8233, 8239, 8287, 12288, 65279} \<or> (8192 \<le> c \<and> c \<le> 8202))"
  unfolding isSpace_def by (simp only: insert_iff empty_iff) arith

lemma bytesToBinary_short:
  assumes "\<forall>c\<in>set s. c < 256" and "length s \<le> argLimit"
  shows "bytesToBinary argLimit (binaryToBytes s) = Some s"
proof -
  have "length (binaryToBytes s) = length s" by (simp add: binaryToBytes_def)
  then show ?thesis
    using assms(2) by (simp add: bytesToBinary_eq unat_binaryToBytes[OF assms(1)])
qed

lemma plainDocument_tokens:
  assumes "22 \<le> argLimit"
  shows "extractPdfTokens argLimit unz plainDocument = Some []"
proof -
  have b: "bytesToBinary argLimit plainDocument = Some (str ''%PDF-1.4 BT (Hi) Tj ET'')"
    unfolding plainDocument_def using assms by (intro bytesToBinary_short) (simp_all add: str_def)
  have n: "\<not> containsSub (str ''stream'') (str ''%PDF-1.4 BT (Hi) Tj ET'')" by code_simp
  show ?thesis using extractPdfTokens_no_marker[OF b] n by blast
qed

lemma hi_tokens: "decodedTokens argLimit (str ''BT (Hi) Tj ET'') = Some [str ''Hi'']"
  by code_simp

lemma twoStreams_tokens:
  assumes "53 \<le> argLimit"
  shows "extractPdfTokens argLimit brokenFirst twoStreams = Some [str ''Hi'']"
proof -
  define binary where "binary = str ''/FlateDecode stream'' @ [10] @ str ''xx'' @ [10]
      @ str ''endstream stream'' @ [10] @ str ''yy'' @ [10] @ str ''endstream''"
  have b: "bytesToBinary argLimit twoStreams = Some binary"
    unfolding twoStreams_def binary_def using assms
    by (intro bytesToBinary_short) (simp_all add: str_def)
  have sc: "scan streamHere 0 0 binary = [(13, str ''xx''), (33, str ''yy'')]"
    unfolding binary_def by code_simp
  have f1: "decompressionFails brokenFirst binary (13, str ''xx'')"
    unfolding binary_def by code_simp
  have f2: "\<not> decompressionFails brokenFirst binary (33, str ''yy'')"
    unfolding binary_def by code_simp
  have hd: "containsSub (str ''/FlateDecode'') (objectHeader binary 33)"
    unfolding binary_def by code_simp
  have u: "brokenFirst (binaryToBytes (str ''yy'')) = Some (binaryToBytes (str ''BT (Hi) Tj ET''))"
    by code_simp
  have d: "bytesToBinary argLimit (binaryToBytes (str ''BT (Hi) Tj ET'')) = Some (str ''BT (Hi) Tj ET'')"
    using assms by (intro bytesToBinary_short) (simp_all add: str_def)
  have r: "regionTokens argLimit brokenFirst binary (33, str ''yy'') = Some [str ''Hi'']"
    by (simp add: regionTokens_def hd u streamTokens_def d hi_tokens)
  show ?thesis
    unfolding extractPdfTokens_regions[OF b] sc using f1 f2 r by simp
qed

text \<open>
  C7. \<open>extractPdfTokens\<close> throws on some documents. The document \<open>longHexDocument\<close> has one
  stream, not compressed, whose text block shows one hexadecimal string of one byte more
  than the engine accepts as arguments of a call: \<open>decodePdfHexString\<close> spreads
  all the bytes of the string into one call of \<open>String.fromCharCode\<close>, outside any
  \<open>try\<close>, and the RangeError of that call leaves \<open>extractPdfTokens\<close>. This holds
  whatever the engine accepts and whatever the decompression does. On a document without
  the text \<open>stream\<close> or without the text \<open>endstream\<close> the list is empty, and a region whose
  decompression fails is passed over (\<open>extractPdfTokens_no_marker\<close>,
  \<open>extractPdfTokens_regions\<close>, \<open>twoStreams_tokens\<close>).
\<close>

theorem extractPdfTokens_long_hex_string:
  "extractPdfTokens argLimit unzlibSync (longHexDocument argLimit) = None"
proof -
  define h where "h = replicate (2 * (argLimit + 1)) (65::nat)"
  define g where "g = 60 # h @ [62]"
  define p where "p = 91 # g @ [93, 84, 74, 32]"
  define b where "b = 66 # 84 # p @ [69, 84]"
  define doc where "doc = 115 # 116 # 114 # 101 # 97 # 109 # 10 # b @ [10] @ str ''endstream''"
  have h65: "\<forall>c\<in>set h. c = 65" by (auto simp: h_def)
  have hne: "h \<noteq> []" by (simp add: h_def)
  have g93: "\<forall>c\<in>set g. c \<noteq> 93" using h65 by (auto simp: g_def)
  have p69: "\<forall>c\<in>set p. c \<noteq> 69" using h65 by (auto simp: p_def g_def)
  have b10: "\<forall>c\<in>set b. c \<noteq> 10 \<and> c \<noteq> 13"
    using h65 by (auto simp: b_def p_def g_def)
  have b256: "\<forall>c\<in>set b. c < 256" using h65 by (auto simp: b_def p_def g_def)
  have d256: "\<forall>c\<in>set doc. c < 256" using b256 by (auto simp: doc_def str_def)
  have hx: "decodePdfHexString argLimit h = None" unfolding h_def by (rule decodePdfHexString_long)
  have at: "arrayToken argLimit g = None" unfolding g_def by (rule arrayToken_long[OF h65 hne hx])
  have bl: "b = 66 # 84 # 91 # g @ [93, 84, 74, 32, 69, 84]" by (simp add: b_def p_def)
  have bt: "blockTokens argLimit b = None" unfolding bl by (rule blockTokens_long[OF g93 at])
  have dt: "decodedTokens argLimit b = None"
    using decodedTokens_long[of p argLimit, OF p69] bt unfolding b_def by blast
  have ld: "longHexDocument argLimit = binaryToBytes doc"
    by (simp add: longHexDocument_def doc_def b_def p_def g_def h_def str_def)
  have m: "streamHere doc = Some (b, [])" unfolding doc_def by (rule streamHere_long[OF b10])
  from scan_first[of streamHere 115 "116 # 114 # 101 # 97 # 109 # 10 # b @ [10] @ str ''endstream''"
      b "[]" 0] m
  obtain more where sc: "scan streamHere 0 0 doc = (0, b) # more" unfolding doc_def by blast
  have hd: "\<not> containsSub (str ''/FlateDecode'') (objectHeader doc 0)"
    by (simp add: objectHeader_def str_def)
  have loop: "extractLoop argLimit unzlibSync doc [] ((0, b) # more) = None"
    using hd dt by (simp add: Let_def bytesToBinary_eq unat_binaryToBytes[OF b256])
  show ?thesis
    unfolding ld extractPdfTokens_def
    by (simp add: bytesToBinary_eq unat_binaryToBytes[OF d256] sc loop del: extractLoop.simps)
qed
end
